theory Spec2Isabelle
  imports Complex_Main "HOL-Library.Multiset"
begin

section \<open>Cohort statistics engine\<close>

text \<open>
  Source: \<^verbatim>\<open>src/backend/lambda/report_generation.py\<close>, class
  \<^verbatim>\<open>StatisticalCalculator\<close>.

  A cohort sample is a Python list whose entries are numbers, \<^verbatim>\<open>None\<close> or NaN.
  Numbers are modelled as reals (rounding of binary floating point is not modelled);
  an entry that the source filters out with
  \<^verbatim>\<open>v is not None and not pd.isna(v)\<close> is \<open>None\<close>.
  The value that is ranked may itself be \<^verbatim>\<open>None\<close>, the source tests for it.
\<close>

fun valid_values :: "real option list \<Rightarrow> real list" where
  "valid_values [] = []"
| "valid_values (None # vs) = valid_values vs"
| "valid_values (Some v # vs) = v # valid_values vs"

text \<open>
  Library functions the calculator calls, by their documented behaviour:
  \<^verbatim>\<open>scipy.stats.percentileofscore(a, score, kind='strict')\<close> is the percentage of
  entries of \<open>a\<close> strictly below \<open>score\<close>; \<^verbatim>\<open>statistics.mean\<close> is the arithmetic
  mean; \<^verbatim>\<open>statistics.stdev\<close> is the square root of the sample variance (divisor
  \<open>n - 1\<close>).
\<close>

definition percentileofscore_strict :: "real list \<Rightarrow> real \<Rightarrow> real" where
  "percentileofscore_strict a score =
     real (length (filter (\<lambda>x. x < score) a)) / real (length a) * 100"

definition mean :: "real list \<Rightarrow> real" where
  "mean xs = sum_list xs / real (length xs)"

definition stdev :: "real list \<Rightarrow> real" where
  "stdev xs = sqrt (sum_list (map (\<lambda>x. (x - mean xs)\<^sup>2) xs) / real (length xs - 1))"

text \<open>\<^verbatim>\<open>StatisticalCalculator.calculate_percentile\<close>\<close>

definition calculate_percentile :: "real option \<Rightarrow> real option list \<Rightarrow> real option" where
  "calculate_percentile value all_values =
     (if all_values = [] \<or> value = None \<or> length all_values < 2 then None
      else
        let valid = valid_values all_values in
        if length valid < 2 then None
        else
          (case value of
             None \<Rightarrow> None
           | Some v \<Rightarrow>
               let percentile = percentileofscore_strict valid v
               in Some (max 0 (min 100 percentile))))"

text \<open>
  \<^verbatim>\<open>StatisticalCalculator.calculate_z_score\<close>. The source does not test the value
  for \<^verbatim>\<open>None\<close>: with a non-zero deviation the subtraction raises a
  \<^verbatim>\<open>TypeError\<close>, which the handler turns into \<^verbatim>\<open>None\<close>.
\<close>

definition calculate_z_score :: "real option \<Rightarrow> real option list \<Rightarrow> real option" where
  "calculate_z_score value all_values =
     (if all_values = [] \<or> length all_values < 2 then None
      else
        let valid = valid_values all_values in
        if length valid < 2 then None
        else
          let m = mean valid; sd = stdev valid in
          if sd = 0 then Some 0
          else (case value of
                  None \<Rightarrow> None
                | Some v \<Rightarrow> Some ((v - m) / sd)))"

text \<open>
  The strict percentile rank in the words of the specification: the share, in percent,
  of the valid entries that lie strictly below the value.
\<close>

definition strict_percentile_rank :: "real \<Rightarrow> real list \<Rightarrow> real" where
  "strict_percentile_rank v xs =
     100 * real (card {i. i < length xs \<and> xs ! i < v}) / real (length xs)"

section \<open>Python values\<close>

text \<open>
  The flows of \<^verbatim>\<open>src/backend/lambda/student_application.py\<close> work on decoded JSON:
  the event handed to a flow, the item read from the document store and the results of
  the parallel extraction are Python dictionaries, lists, strings, numbers, booleans and
  \<^verbatim>\<open>None\<close>, and the code inspects them dynamically (\<^verbatim>\<open>.get\<close>, \<^verbatim>\<open>in\<close>, indexing).
  They are modelled by one type of values. A dictionary is a partial map from keys; a key
  is what Python hashes: \<^verbatim>\<open>None\<close>, a number (\<^verbatim>\<open>True\<close> and \<^verbatim>\<open>1\<close> are the same
  key) or a string. Numbers are reals: the store returns every number as a float, and the
  distinction between \<^verbatim>\<open>int\<close> and \<^verbatim>\<open>float\<close> is not kept (a number is accepted as a
  list index when it is integral). Strings are lists of 8-bit characters.
\<close>

datatype pykey = KNone | KNum real | KStr string

datatype pyval =
    PNone
  | PBool bool
  | PNum real
  | PStr string
  | PList "pyval list"
  | PDict "pykey \<Rightarrow> pyval option"

type_synonym pydict = "pykey \<Rightarrow> pyval option"

text \<open>
  Exceptions are values. The text of the interpreter's message is not modelled:
  \<^verbatim>\<open>str(e)\<close> is represented by the name of the exception class. \<open>StoreError\<close> stands
  for the exception that the store helpers of \<^verbatim>\<open>aws_utils.py\<close> raise.
\<close>

datatype py_exn = AttributeError | TypeError | ValueError | KeyError | IndexError | StoreError

fun exn_str :: "py_exn \<Rightarrow> string" where
  "exn_str AttributeError = ''AttributeError''"
| "exn_str TypeError = ''TypeError''"
| "exn_str ValueError = ''ValueError''"
| "exn_str KeyError = ''KeyError''"
| "exn_str IndexError = ''IndexError''"
| "exn_str StoreError = ''StoreError''"

text \<open>Sequencing of two steps, the first of which may raise.\<close>

definition py_then :: "py_exn + 'a \<Rightarrow> ('a \<Rightarrow> py_exn + 'b) \<Rightarrow> py_exn + 'b" where
  "py_then m f = (case m of Inl e \<Rightarrow> Inl e | Inr x \<Rightarrow> f x)"

text \<open>Truth value of an object (\<^verbatim>\<open>if x:\<close>, \<^verbatim>\<open>not x\<close>).\<close>

fun py_truthy :: "pyval \<Rightarrow> bool" where
  "py_truthy PNone = False"
| "py_truthy (PBool b) = b"
| "py_truthy (PNum r) = (r \<noteq> 0)"
| "py_truthy (PStr s) = (s \<noteq> [])"
| "py_truthy (PList xs) = (xs \<noteq> [])"
| "py_truthy (PDict d) = (d \<noteq> Map.empty)"

text \<open>The key under which a dictionary files an object; lists and dictionaries are unhashable.\<close>

fun key_of :: "pyval \<Rightarrow> py_exn + pykey" where
  "key_of PNone = Inr KNone"
| "key_of (PBool b) = Inr (KNum (if b then 1 else 0))"
| "key_of (PNum r) = Inr (KNum r)"
| "key_of (PStr s) = Inr (KStr s)"
| "key_of (PList xs) = Inl TypeError"
| "key_of (PDict d) = Inl TypeError"

text \<open>\<^verbatim>\<open>d.get(k)\<close> and \<^verbatim>\<open>d.get(k, default)\<close> on a dictionary, with a string key.\<close>

definition dict_get :: "pydict \<Rightarrow> string \<Rightarrow> pyval \<Rightarrow> pyval" where
  "dict_get d k dflt = (case d (KStr k) of None \<Rightarrow> dflt | Some v \<Rightarrow> v)"

text \<open>The same on an arbitrary object: only a dictionary has the attribute \<^verbatim>\<open>get\<close>.\<close>

fun py_get :: "pyval \<Rightarrow> string \<Rightarrow> pyval \<Rightarrow> py_exn + pyval" where
  "py_get (PDict d) k dflt = Inr (dict_get d k dflt)"
| "py_get _ k dflt = Inl AttributeError"

text \<open>Substring test, \<^verbatim>\<open>sub in s\<close> on two strings.\<close>

fun is_substr :: "string \<Rightarrow> string \<Rightarrow> bool" where
  "is_substr sub [] = (sub = [])"
| "is_substr sub (c # cs) = (take (length sub) (c # cs) = sub \<or> is_substr sub cs)"

text \<open>
  \<^verbatim>\<open>"lit" in x\<close> for a string literal: substring of a string, element of a list, key
  of a dictionary; other objects are not containers.
\<close>

fun py_str_in :: "string \<Rightarrow> pyval \<Rightarrow> py_exn + bool" where
  "py_str_in lit (PStr s) = Inr (is_substr lit s)"
| "py_str_in lit (PList xs) = Inr (PStr lit \<in> set xs)"
| "py_str_in lit (PDict d) = Inr (d (KStr lit) \<noteq> None)"
| "py_str_in lit _ = Inl TypeError"

text \<open>
  Position of an integer index in a sequence of length \<open>n\<close>: negative indices count from
  the end, anything else is out of range.
\<close>

definition py_index :: "nat \<Rightarrow> int \<Rightarrow> nat option" where
  "py_index n i =
     (if 0 \<le> i \<and> i < int n then Some (nat i)
      else if i < 0 \<and> - int n \<le> i then Some (nat (int n + i))
      else None)"

text \<open>
  An object used as a sequence index: an integer or a boolean. The numbers of the model
  carry no type, so an integral number counts as an integer here; Python refuses a float
  such as \<^verbatim>\<open>1.0\<close> with \<^verbatim>\<open>TypeError\<close>. The flows index their lists with the
  result of \<^verbatim>\<open>int(...)\<close>, which is an integer; a content key serves as an index only
  when an entry that the data model makes an object is a list.
\<close>

fun as_index :: "pyval \<Rightarrow> int option" where
  "as_index (PBool b) = Some (if b then 1 else 0)"
| "as_index (PNum r) = (if r \<in> \<int> then Some \<lfloor>r\<rfloor> else None)"
| "as_index _ = None"

text \<open>\<^verbatim>\<open>len(x)\<close>\<close>

fun py_len :: "pyval \<Rightarrow> py_exn + nat" where
  "py_len (PStr s) = Inr (length s)"
| "py_len (PList xs) = Inr (length xs)"
| "py_len (PDict d) = Inr (card (dom d))"
| "py_len _ = Inl TypeError"

text \<open>\<^verbatim>\<open>x[k]\<close>\<close>

fun py_getitem :: "pyval \<Rightarrow> pyval \<Rightarrow> py_exn + pyval" where
  "py_getitem (PDict d) k =
     py_then (key_of k) (\<lambda>kk. case d kk of None \<Rightarrow> Inl KeyError | Some v \<Rightarrow> Inr v)"
| "py_getitem (PList xs) k =
     (case as_index k of
        None \<Rightarrow> Inl TypeError
      | Some i \<Rightarrow> (case py_index (length xs) i of
                     None \<Rightarrow> Inl IndexError
                   | Some p \<Rightarrow> Inr (xs ! p)))"
| "py_getitem (PStr s) k =
     (case as_index k of
        None \<Rightarrow> Inl TypeError
      | Some i \<Rightarrow> (case py_index (length s) i of
                     None \<Rightarrow> Inl IndexError
                   | Some p \<Rightarrow> Inr (PStr [s ! p])))"
| "py_getitem _ k = Inl TypeError"

text \<open>
  \<^verbatim>\<open>x[k] = v\<close>. Python changes the object \<open>x\<close> in place; the model returns the changed
  object. Strings and scalars do not support item assignment.
\<close>

fun py_setitem :: "pyval \<Rightarrow> pyval \<Rightarrow> pyval \<Rightarrow> py_exn + pyval" where
  "py_setitem (PDict d) k v = py_then (key_of k) (\<lambda>kk. Inr (PDict (d(kk \<mapsto> v))))"
| "py_setitem (PList xs) k v =
     (case as_index k of
        None \<Rightarrow> Inl TypeError
      | Some i \<Rightarrow> (case py_index (length xs) i of
                     None \<Rightarrow> Inl IndexError
                   | Some p \<Rightarrow> Inr (PList (xs[p := v]))))"
| "py_setitem _ k v = Inl TypeError"

subsection \<open>Strings\<close>

text \<open>\<^verbatim>\<open>s.split(sep)\<close> for a one-character separator.\<close>

fun py_split :: "char \<Rightarrow> string \<Rightarrow> string list" where
  "py_split sep [] = [[]]"
| "py_split sep (c # cs) =
     (if c = sep then [] # py_split sep cs
      else (case py_split sep cs of
              [] \<Rightarrow> [[c]]
            | p # ps \<Rightarrow> (c # p) # ps))"

text \<open>\<^verbatim>\<open>s.split(sep, 1)\<close>: split at the first separator only.\<close>

definition py_split1 :: "char \<Rightarrow> string \<Rightarrow> string list" where
  "py_split1 sep s =
     (case dropWhile (\<lambda>c. c \<noteq> sep) s of
        [] \<Rightarrow> [s]
      | _ # rest \<Rightarrow> [takeWhile (\<lambda>c. c \<noteq> sep) s, rest])"

text \<open>
  \<^verbatim>\<open>int(s)\<close> on a string, base 10. A character of the model is a code point below
  256. The white space that \<^verbatim>\<open>int\<close> skips at both ends is made of the characters 9 to
  13 and 32, and of the two white-space characters above 127 (133 and 160); the
  separators 28 to 31 are not skipped. A sign may precede the digits, single underscores
  may separate digits, and a text of more than 4300 digits is refused (the default limit
  of the interpreter). Anything else raises \<^verbatim>\<open>ValueError\<close>.
\<close>

definition py_space :: "char \<Rightarrow> bool" where
  "py_space c =
     (let n = (of_char c :: nat) in (9 \<le> n \<and> n \<le> 13) \<or> n = 32 \<or> n = 133 \<or> n = 160)"

definition py_strip :: "string \<Rightarrow> string" where
  "py_strip s = rev (dropWhile py_space (rev (dropWhile py_space s)))"

definition digit_val :: "char \<Rightarrow> nat option" where
  "digit_val c = (let n = (of_char c :: nat) in if 48 \<le> n \<and> n \<le> 57 then Some (n - 48) else None)"

fun py_digits :: "nat \<Rightarrow> string \<Rightarrow> nat option" where
  "py_digits acc [] = Some acc"
| "py_digits acc [c] = (case digit_val c of None \<Rightarrow> None | Some d \<Rightarrow> Some (10 * acc + d))"
| "py_digits acc (c # c' # cs) =
     (if c = CHR ''_'' then
        (case digit_val c' of None \<Rightarrow> None | Some d \<Rightarrow> py_digits (10 * acc + d) cs)
      else
        (case digit_val c of None \<Rightarrow> None | Some d \<Rightarrow> py_digits (10 * acc + d) (c' # cs)))"

definition max_str_digits :: nat where
  "max_str_digits = 4300"

definition py_unsigned :: "string \<Rightarrow> nat option" where
  "py_unsigned s =
     (if max_str_digits < length (filter (\<lambda>c. digit_val c \<noteq> None) s) then None
      else (case s of
              [] \<Rightarrow> None
            | c # cs \<Rightarrow> (case digit_val c of None \<Rightarrow> None | Some d \<Rightarrow> py_digits d cs)))"

definition py_int :: "string \<Rightarrow> py_exn + int" where
  "py_int s =
     (let t = py_strip s;
          r = (case t of
                 [] \<Rightarrow> None
               | c # cs \<Rightarrow>
                   if c = CHR ''-'' then map_option (\<lambda>n. - int n) (py_unsigned cs)
                   else if c = CHR ''+'' then map_option int (py_unsigned cs)
                   else map_option int (py_unsigned t))
      in case r of None \<Rightarrow> Inl ValueError | Some i \<Rightarrow> Inr i)"

text \<open>\<^verbatim>\<open>str(n)\<close> for a natural number, as the f-strings of the resolver print an index.\<close>

definition digit_char :: "nat \<Rightarrow> char" where
  "digit_char d = char_of (48 + d)"

fun str_nat_fuel :: "nat \<Rightarrow> nat \<Rightarrow> string" where
  "str_nat_fuel 0 n = [digit_char (n mod 10)]"
| "str_nat_fuel (Suc k) n =
     (if n < 10 then [digit_char n] else str_nat_fuel k (n div 10) @ [digit_char (n mod 10)])"

definition str_nat :: "nat \<Rightarrow> string" where
  "str_nat n = str_nat_fuel n n"

section \<open>External collaborators\<close>

text \<open>
  The document store (\<^verbatim>\<open>dynamodb_get_item\<close>, \<^verbatim>\<open>dynamodb_put_item\<close> of
  \<^verbatim>\<open>aws_utils.py\<close>): two tables of items, every item a dictionary filed under the string
  in its attribute \<^verbatim>\<open>application_id\<close>. The helpers raise on an empty argument and on
  a fault of the service; whether the service takes an item is a parameter of the model
  (\<open>accepts\<close>).
\<close>

datatype table_name = ApplicationTable | EvaluationsTable

type_synonym db = "table_name \<Rightarrow> string \<Rightarrow> pydict option"

definition dynamodb_get_item :: "db \<Rightarrow> pyval \<Rightarrow> table_name \<Rightarrow> py_exn + pydict option" where
  "dynamodb_get_item store id_value table =
     (if \<not> py_truthy id_value then Inl StoreError
      else (case id_value of
              PStr k \<Rightarrow> Inr (store table k)
            | _ \<Rightarrow> Inl StoreError))"

definition dynamodb_put_item ::
  "(pydict \<Rightarrow> bool) \<Rightarrow> db \<Rightarrow> pydict \<Rightarrow> table_name \<Rightarrow> py_exn + db" where
  "dynamodb_put_item accepts store item table =
     (if item = Map.empty then Inl StoreError
      else (case item (KStr ''application_id'') of
              Some (PStr k) \<Rightarrow>
                if accepts item then Inr (store(table := (store table)(k \<mapsto> item)))
                else Inl StoreError
            | _ \<Rightarrow> Inl StoreError))"

text \<open>
  The text-extraction capability. \<^verbatim>\<open>textractor_document_analysis\<close> wraps the external
  call and turns every fault of it into the status \<^verbatim>\<open>FAILED\<close>; the external call
  itself is the parameter \<open>analyze\<close>, which yields the text or, for a fault, the error
  message that the wrapper's handler builds from it.
\<close>

definition textractor_document_analysis ::
  "(string \<Rightarrow> string \<Rightarrow> string + string) \<Rightarrow> string \<Rightarrow> string \<Rightarrow> string \<times> string" where
  "textractor_document_analysis analyze bucket_name s3_object_key =
     (if bucket_name = [] then (''FAILED'', ''S3 bucket name is required'')
      else if s3_object_key = [] then (''FAILED'', ''S3 object key is required'')
      else (case analyze bucket_name s3_object_key of
              Inl error_msg \<Rightarrow> (''FAILED'', error_msg)
            | Inr extracted_text \<Rightarrow> (''SUCCEEDED'', extracted_text)))"

section \<open>Extraction unit\<close>

text \<open>\<^verbatim>\<open>parse_s3_uri\<close>: bucket and key of \<^verbatim>\<open>s3://bucket/key\<close>, \<open>None\<close> for \<^verbatim>\<open>None\<close>.\<close>

definition parse_s3_uri :: "pyval \<Rightarrow> string option \<times> string option" where
  "parse_s3_uri s3_uri =
     (case s3_uri of
        PStr s \<Rightarrow>
          if s = [] \<or> take 5 s \<noteq> ''s3://'' then (None, None)
          else
            let path = drop 5 s in
            if path = [] then (None, None)
            else (case py_split1 CHR ''/'' path of
                    [] \<Rightarrow> (None, None)
                  | p0 # ps \<Rightarrow>
                      (if p0 \<noteq> [] then Some p0 else None,
                       Some (case ps of [] \<Rightarrow> [] | p1 # _ \<Rightarrow> p1)))
      | _ \<Rightarrow> (None, None))"

text \<open>A literal dictionary, \<^verbatim>\<open>{"k1": v1, ...}\<close>.\<close>

definition py_dict :: "(string \<times> pyval) list \<Rightarrow> pyval" where
  "py_dict kvs = PDict (map_of (map (\<lambda>(k, v). (KStr k, v)) kvs))"

text \<open>\<open>not s\<close> for a value that is a string or \<^verbatim>\<open>None\<close>.\<close>

definition falsy_str :: "string option \<Rightarrow> bool" where
  "falsy_str s = (s = None \<or> s = Some [])"

text \<open>
  \<^verbatim>\<open>extract_single_document_flow\<close>: the body of the \<^verbatim>\<open>try\<close> block, then the flow
  with its handler.
\<close>

definition extract_single_document_try ::
  "(string \<Rightarrow> string \<Rightarrow> string + string) \<Rightarrow> pydict \<Rightarrow> py_exn + bool \<times> pyval" where
  "extract_single_document_try analyze data =
     (let application_id = dict_get data ''application_id'' PNone;
          document = dict_get data ''document'' PNone
      in
      if \<not> py_truthy application_id \<or> \<not> py_truthy document
      then Inr (False, PStr ''Missing required parameters'')
      else
        py_then (py_get document ''s3_uri'' PNone) (\<lambda>s3_uri.
        py_then (py_get document ''document_key'' PNone) (\<lambda>document_key.
          (case parse_s3_uri s3_uri of (bucket_name, s3_key) \<Rightarrow>
             if falsy_str bucket_name \<or> falsy_str s3_key then
               Inr (True, py_dict
                 [(''application_id'', application_id),
                  (''document'', document),
                  (''status'', PStr ''failed''),
                  (''error'', PStr ''Invalid S3 URI''),
                  (''content'', PStr [])])
             else
               (case textractor_document_analysis analyze
                       (case bucket_name of None \<Rightarrow> [] | Some b \<Rightarrow> b)
                       (case s3_key of None \<Rightarrow> [] | Some k \<Rightarrow> k) of
                  (status, result) \<Rightarrow>
                    if status = ''SUCCEEDED'' then
                      Inr (True, py_dict
                        [(''application_id'', application_id),
                         (''document'', document),
                         (''status'', PStr ''success''),
                         (''content'', PStr result)])
                    else
                      Inr (True, py_dict
                        [(''application_id'', application_id),
                         (''document'', document),
                         (''status'', PStr ''failed''),
                         (''error'', PStr result),
                         (''content'', PStr [])]))))))"

text \<open>
  A well-formed locator in the words of the specification: the scheme, a non-empty
  container and a non-empty key, \<^verbatim>\<open>s3://container/key\<close>.
\<close>

definition well_formed_locator :: "pyval \<Rightarrow> bool" where
  "well_formed_locator u =
     (\<exists>container key. container \<noteq> [] \<and> key \<noteq> [] \<and> CHR ''/'' \<notin> set container
        \<and> u = PStr (''s3://'' @ container @ ''/'' @ key))"

text \<open>The failed outcome of a request, with its error text.\<close>

definition failed_outcome :: "pydict \<Rightarrow> string \<Rightarrow> pyval" where
  "failed_outcome data err =
     py_dict
       [(''application_id'', dict_get data ''application_id'' PNone),
        (''document'', dict_get data ''document'' (PDict Map.empty)),
        (''status'', PStr ''failed''),
        (''error'', PStr err),
        (''content'', PStr [])]"

definition extract_single_document_flow ::
  "(string \<Rightarrow> string \<Rightarrow> string + string) \<Rightarrow> pydict \<Rightarrow> bool \<times> pyval" where
  "extract_single_document_flow analyze data =
     (case extract_single_document_try analyze data of
        Inr r \<Rightarrow> r
      | Inl e \<Rightarrow>
          (True, py_dict
            [(''application_id'', dict_get data ''application_id'' PNone),
             (''document'', dict_get data ''document'' (PDict Map.empty)),
             (''status'', PStr ''failed''),
             (''error'', PStr (exn_str e)),
             (''content'', PStr [])]))"

section \<open>Consolidation of extraction results\<close>

text \<open>
  Iteration, \<^verbatim>\<open>for x in xs\<close>: the elements of a list, the characters of a string, the
  keys of a dictionary. A map does not record the order in which Python would visit the
  keys; the model takes some enumeration of them.
\<close>

fun key_val :: "pykey \<Rightarrow> pyval" where
  "key_val KNone = PNone"
| "key_val (KNum r) = PNum r"
| "key_val (KStr s) = PStr s"

definition dict_keys :: "pydict \<Rightarrow> pyval list" where
  "dict_keys d = map key_val (SOME ks. set ks = dom d \<and> distinct ks)"

fun py_iter :: "pyval \<Rightarrow> py_exn + pyval list" where
  "py_iter (PList xs) = Inr xs"
| "py_iter (PStr s) = Inr (map (\<lambda>c. PStr [c]) s)"
| "py_iter (PDict d) = Inr (dict_keys d)"
| "py_iter _ = Inl TypeError"

text \<open>\<^verbatim>\<open>s.split(".")\<close>: only a string has the method.\<close>

fun py_split_dot :: "pyval \<Rightarrow> py_exn + string list" where
  "py_split_dot (PStr s) = Inr (py_split CHR ''.'' s)"
| "py_split_dot _ = Inl AttributeError"

text \<open>
  The branches of \<^verbatim>\<open>consolidate_extraction_results_flow\<close> that store the content of
  a successful result. The record \<open>student\<close> is a dictionary; a statement that changes a
  nested object in place is written as rebuilding the objects that contain it.

  Main documents: \<^verbatim>\<open>if content_key: student[content_key] = content\<close>.
\<close>

definition store_main :: "pydict \<Rightarrow> pyval \<Rightarrow> pyval \<Rightarrow> py_exn + pydict" where
  "store_main student document content =
     py_then (py_get document ''content_key'' PNone) (\<lambda>content_key.
       if py_truthy content_key
       then py_then (key_of content_key) (\<lambda>k. Inr (student(k \<mapsto> content)))
       else Inr student)"

text \<open>
  Personal information: the sub-object is created when the record has none, then
  \<^verbatim>\<open>student["personal_information"][content_key] = content\<close>.
\<close>

definition store_personal :: "pydict \<Rightarrow> pyval \<Rightarrow> pyval \<Rightarrow> py_exn + pydict" where
  "store_personal student content_key content =
     (let personal_info =
            (case student (KStr ''personal_information'') of
               None \<Rightarrow> PDict Map.empty
             | Some v \<Rightarrow> v)
      in py_then (py_setitem personal_info content_key content) (\<lambda>personal_info'.
           Inr (student(KStr ''personal_information'' \<mapsto> personal_info'))))"

text \<open>
  The guarded write that both list branches perform on their list \<open>lst\<close>:
  \<^verbatim>\<open>if idx < len(lst): lst[idx][content_key] = content\<close>.
\<close>

definition store_indexed :: "pyval \<Rightarrow> int \<Rightarrow> pyval \<Rightarrow> pyval \<Rightarrow> py_exn + pyval" where
  "store_indexed lst idx content_key content =
     py_then (py_len lst) (\<lambda>n.
       if idx < int n then
         py_then (py_getitem lst (PNum (of_int idx))) (\<lambda>entry.
         py_then (py_setitem entry content_key content) (\<lambda>entry'.
           py_setitem lst (PNum (of_int idx)) entry'))
       else Inr lst)"

text \<open>Research projects, addressed by \<^verbatim>\<open>research_experience.projects.<idx>\<close>.\<close>

definition store_project ::
  "pydict \<Rightarrow> string list \<Rightarrow> pyval \<Rightarrow> pyval \<Rightarrow> py_exn + pydict" where
  "store_project student path_parts content_key content =
     (if 3 \<le> length path_parts then
        py_then (py_int (path_parts ! 2)) (\<lambda>idx.
          (case student (KStr ''research_experience'') of
             None \<Rightarrow> Inr student
           | Some research \<Rightarrow>
               py_then (py_str_in ''projects'' research) (\<lambda>has_projects.
                 if has_projects then
                   py_then (py_getitem research (PStr ''projects'')) (\<lambda>projects.
                   py_then (store_indexed projects idx content_key content) (\<lambda>projects'.
                   py_then (py_setitem research (PStr ''projects'') projects') (\<lambda>research'.
                     Inr (student(KStr ''research_experience'' \<mapsto> research')))))
                 else Inr student)))
      else Inr student)"

text \<open>Work experience, addressed by \<^verbatim>\<open>work_experience.<idx>\<close>.\<close>

definition store_work ::
  "pydict \<Rightarrow> string list \<Rightarrow> pyval \<Rightarrow> pyval \<Rightarrow> py_exn + pydict" where
  "store_work student path_parts content_key content =
     (if 2 \<le> length path_parts then
        py_then (py_int (path_parts ! 1)) (\<lambda>idx.
          (case student (KStr ''work_experience'') of
             None \<Rightarrow> Inr student
           | Some work \<Rightarrow>
               py_then (store_indexed work idx content_key content) (\<lambda>work'.
                 Inr (student(KStr ''work_experience'' \<mapsto> work')))))
      else Inr student)"

text \<open>The dispatch on \<^verbatim>\<open>parent_path\<close> for a nested document.\<close>

definition store_nested :: "pydict \<Rightarrow> pyval \<Rightarrow> pyval \<Rightarrow> py_exn + pydict" where
  "store_nested student document content =
     py_then (py_get document ''parent_path'' (PStr [])) (\<lambda>parent_path.
     py_then (py_get document ''content_key'' PNone) (\<lambda>content_key.
     py_then (py_str_in ''personal_information'' parent_path) (\<lambda>is_personal.
       if is_personal then store_personal student content_key content
       else
         py_then (py_str_in ''research_experience.projects'' parent_path) (\<lambda>is_project.
           if is_project then
             py_then (py_split_dot parent_path) (\<lambda>path_parts.
               store_project student path_parts content_key content)
           else
             py_then (py_str_in ''work_experience'' parent_path) (\<lambda>is_work.
               if is_work then
                 py_then (py_split_dot parent_path) (\<lambda>path_parts.
                   store_work student path_parts content_key content)
               else Inr student)))))"

text \<open>
  The loop state: the record and the three counters. One turn of the loop over
  \<^verbatim>\<open>extraction_results\<close>.
\<close>

type_synonym consolidation = "pydict \<times> nat \<times> nat \<times> nat"

definition consolidate_result :: "consolidation \<Rightarrow> pyval \<Rightarrow> py_exn + consolidation" where
  "consolidate_result st result_wrapper =
     (case st of (student, successful, failed, skipped) \<Rightarrow>
        py_then (py_get result_wrapper ''Payload'' (PDict Map.empty)) (\<lambda>payload.
        py_then (py_get payload ''result'' (PDict Map.empty)) (\<lambda>result.
        py_then (py_get result ''status'' PNone) (\<lambda>status.
          if status = PStr ''success'' then
            py_then (py_get result ''document'' (PDict Map.empty)) (\<lambda>document.
            py_then (py_get result ''content'' (PStr [])) (\<lambda>content.
            py_then (py_get document ''document_type'' PNone) (\<lambda>document_type.
            py_then
              (if document_type = PStr ''main'' then store_main student document content
               else if document_type = PStr ''nested'' then store_nested student document content
               else Inr student)
              (\<lambda>student'. Inr (student', successful + 1, failed, skipped)))))
          else if status = PStr ''failed'' then Inr (student, successful, failed + 1, skipped)
          else Inr (student, successful, failed, skipped + 1)))))"

fun consolidate_loop :: "consolidation \<Rightarrow> pyval list \<Rightarrow> py_exn + consolidation" where
  "consolidate_loop st [] = Inr st"
| "consolidate_loop st (w # ws) =
     py_then (consolidate_result st w) (\<lambda>st'. consolidate_loop st' ws)"

text \<open>The text of a string object inside an f-string.\<close>

fun py_text :: "pyval \<Rightarrow> string" where
  "py_text (PStr s) = s"
| "py_text _ = []"

text \<open>
  \<^verbatim>\<open>consolidate_extraction_results_flow\<close>: the body of the \<^verbatim>\<open>try\<close> block, then the
  flow with its handler. A flow takes the store and returns the store with its result
  \<^verbatim>\<open>(success, payload)\<close>.
\<close>

definition consolidate_extraction_results_try ::
  "(pydict \<Rightarrow> bool) \<Rightarrow> db \<Rightarrow> pydict \<Rightarrow> py_exn + db \<times> bool \<times> pyval" where
  "consolidate_extraction_results_try accepts store data =
     (let application_id = dict_get data ''application_id'' PNone;
          extraction_results = dict_get data ''extraction_results'' (PList [])
      in
      if \<not> py_truthy application_id
      then Inr (store, False, PStr ''Missing application_id parameter'')
      else
        py_then (dynamodb_get_item store application_id ApplicationTable) (\<lambda>found.
          (case found of
             None \<Rightarrow>
               Inr (store, False, PStr (''Application not found: '' @ py_text application_id))
           | Some student \<Rightarrow>
               if student = Map.empty
               then Inr (store, False,
                         PStr (''Application not found: '' @ py_text application_id))
               else
                 py_then (py_iter extraction_results) (\<lambda>wrappers.
                 py_then (consolidate_loop (student, 0, 0, 0) wrappers) (\<lambda>st.
                   (case st of (student', successful, failed, skipped) \<Rightarrow>
                      py_then
                        (dynamodb_put_item accepts store
                           (student'(KStr ''application_status'' \<mapsto> PStr ''Evaluation in-progress''))
                           ApplicationTable) (\<lambda>store'.
                      py_then (py_len extraction_results) (\<lambda>total.
                        Inr (store', True,
                             py_dict
                               [(''application_id'', application_id),
                                (''summary'', py_dict
                                   [(''successful'', PNum (real successful)),
                                    (''failed'', PNum (real failed)),
                                    (''skipped'', PNum (real skipped)),
                                    (''total'', PNum (real total))])])))))))))"

definition consolidate_extraction_results_flow ::
  "(pydict \<Rightarrow> bool) \<Rightarrow> db \<Rightarrow> pydict \<Rightarrow> db \<times> bool \<times> pyval" where
  "consolidate_extraction_results_flow accepts store data =
     (case consolidate_extraction_results_try accepts store data of
        Inr r \<Rightarrow> r
      | Inl e \<Rightarrow> (store, False, PStr (''Failed to consolidate results: '' @ exn_str e)))"

text \<open>
  What the loop reads first from a wrapper: the result inside the payload, and its
  status. Both raise when the wrapper, its payload or its result is not a dictionary.
\<close>

definition wrapper_result :: "pyval \<Rightarrow> py_exn + pyval" where
  "wrapper_result result_wrapper =
     py_then (py_get result_wrapper ''Payload'' (PDict Map.empty)) (\<lambda>payload.
       py_get payload ''result'' (PDict Map.empty))"

definition wrapper_status :: "pyval \<Rightarrow> py_exn + pyval" where
  "wrapper_status result_wrapper =
     py_then (wrapper_result result_wrapper) (\<lambda>result. py_get result ''status'' PNone)"

text \<open>
  A successful result for a nested document with the given \<^verbatim>\<open>parent_path\<close>.
\<close>

definition successful_nested :: "pyval \<Rightarrow> string \<Rightarrow> bool" where
  "successful_nested result_wrapper parent_path =
     (\<exists>result document.
        wrapper_result result_wrapper = Inr (PDict result)
        \<and> result (KStr ''status'') = Some (PStr ''success'')
        \<and> result (KStr ''document'') = Some (PDict document)
        \<and> document (KStr ''document_type'') = Some (PStr ''nested'')
        \<and> document (KStr ''parent_path'') = Some (PStr parent_path))"

text \<open>The summary of a flow's payload, when it has one: successful, failed, skipped, total.\<close>

definition summary_of :: "pyval \<Rightarrow> (pyval \<times> pyval \<times> pyval \<times> pyval) option" where
  "summary_of out =
     (case out of
        PDict d \<Rightarrow>
          (case d (KStr ''summary'') of
             Some (PDict s) \<Rightarrow>
               (case (s (KStr ''successful''), s (KStr ''failed''),
                      s (KStr ''skipped''), s (KStr ''total'')) of
                  (Some a, Some b, Some c, Some t) \<Rightarrow> Some (a, b, c, t)
                | _ \<Rightarrow> None)
           | _ \<Rightarrow> None)
      | _ \<Rightarrow> None)"

section \<open>Document set resolver\<close>

text \<open>
  \<^verbatim>\<open>prepare_document_list_flow\<close>. The registry of main documents, in the order in
  which the source's dictionary literal lists it.
\<close>

definition document_mapping :: "(string \<times> string) list" where
  "document_mapping =
     [(''transcript'', ''transcript_content''),
      (''sop'', ''sop_content''),
      (''resume'', ''resume_content''),
      (''lor_academic'', ''lor_academic_content''),
      (''lor_research'', ''lor_research_content''),
      (''lor_professional'', ''lor_professional_content''),
      (''passport'', ''passport_content''),
      (''gre_report'', ''gre_report_content''),
      (''english_report'', ''english_report_content''),
      (''degree_certificate'', ''degree_certificate_content''),
      (''bank_statement'', ''bank_statement_content''),
      (''affidavit'', ''affidavit_content''),
      (''fee_receipt'', ''fee_receipt_content''),
      (''writing_sample'', ''writing_sample_content''),
      (''portfolio'', ''portfolio_content''),
      (''research_proposal'', ''research_proposal_content''),
      (''publication_certificate'', ''publication_certificate_content''),
      (''internship_certificate'', ''internship_certificate_content''),
      (''work_certificate'', ''work_certificate_content''),
      (''recommendation_letter_additional'', ''recommendation_letter_additional_content'')]"

text \<open>
  The test \<^verbatim>\<open>k in x and x[k]\<close> that guards every task: the locator when the key is
  present and its value is true, nothing otherwise.
\<close>

definition present_locator :: "string \<Rightarrow> pyval \<Rightarrow> py_exn + pyval option" where
  "present_locator k x =
     py_then (py_str_in k x) (\<lambda>present.
       if present then
         py_then (py_getitem x (PStr k)) (\<lambda>v. Inr (if py_truthy v then Some v else None))
       else Inr None)"

definition main_task :: "pyval \<Rightarrow> string \<Rightarrow> string \<Rightarrow> pyval \<Rightarrow> pyval" where
  "main_task application_id doc_key content_key s3_uri =
     py_dict
       [(''application_id'', application_id),
        (''document_type'', PStr ''main''),
        (''document_key'', PStr doc_key),
        (''content_key'', PStr content_key),
        (''s3_uri'', s3_uri)]"

definition nested_task :: "pyval \<Rightarrow> string \<Rightarrow> string \<Rightarrow> pyval \<Rightarrow> string \<Rightarrow> pyval" where
  "nested_task application_id document_key content_key s3_uri parent_path =
     py_dict
       [(''application_id'', application_id),
        (''document_type'', PStr ''nested''),
        (''document_key'', PStr document_key),
        (''content_key'', PStr content_key),
        (''s3_uri'', s3_uri),
        (''parent_path'', PStr parent_path)]"

text \<open>The list that one guarded \<^verbatim>\<open>append\<close> adds.\<close>

definition emit :: "pyval option \<Rightarrow> (pyval \<Rightarrow> pyval) \<Rightarrow> pyval list" where
  "emit loc task = (case loc of None \<Rightarrow> [] | Some s3_uri \<Rightarrow> [task s3_uri])"

text \<open>The loop over the registry.\<close>

fun main_documents :: "pyval \<Rightarrow> pyval \<Rightarrow> (string \<times> string) list \<Rightarrow> py_exn + pyval list" where
  "main_documents application_id docs [] = Inr []"
| "main_documents application_id docs ((doc_key, content_key) # rest) =
     py_then (present_locator doc_key docs) (\<lambda>loc.
     py_then (main_documents application_id docs rest) (\<lambda>tasks.
       Inr (emit loc (main_task application_id doc_key content_key) @ tasks)))"

definition personal_documents :: "pyval \<Rightarrow> pydict \<Rightarrow> py_exn + pyval list" where
  "personal_documents application_id student =
     (case student (KStr ''personal_information'') of
        None \<Rightarrow> Inr []
      | Some personal_info \<Rightarrow>
          py_then (present_locator ''government_id_document'' personal_info) (\<lambda>loc.
            Inr (emit loc (\<lambda>s3_uri.
              nested_task application_id ''personal_information.government_id_document''
                ''government_id_content'' s3_uri ''personal_information''))))"

text \<open>The loop \<^verbatim>\<open>for idx, project in enumerate(projects)\<close>, from index \<open>idx\<close> on.\<close>

fun project_documents :: "pyval \<Rightarrow> nat \<Rightarrow> pyval list \<Rightarrow> py_exn + pyval list" where
  "project_documents application_id idx [] = Inr []"
| "project_documents application_id idx (project # rest) =
     py_then (present_locator ''publication_document'' project) (\<lambda>publication.
     py_then (present_locator ''report_document'' project) (\<lambda>report.
     py_then (project_documents application_id (Suc idx) rest) (\<lambda>tasks.
       Inr (emit publication (\<lambda>s3_uri.
              nested_task application_id
                (''research_experience.projects['' @ str_nat idx @ ''].publication_document'')
                ''publication_content'' s3_uri
                (''research_experience.projects.'' @ str_nat idx))
            @ emit report (\<lambda>s3_uri.
              nested_task application_id
                (''research_experience.projects['' @ str_nat idx @ ''].report_document'')
                ''report_content'' s3_uri
                (''research_experience.projects.'' @ str_nat idx))
            @ tasks))))"

definition research_documents :: "pyval \<Rightarrow> pydict \<Rightarrow> py_exn + pyval list" where
  "research_documents application_id student =
     (case student (KStr ''research_experience'') of
        None \<Rightarrow> Inr []
      | Some research_exp \<Rightarrow>
          py_then (py_get research_exp ''projects'' (PList [])) (\<lambda>projects.
          py_then (py_iter projects) (\<lambda>ps.
            project_documents application_id 0 ps)))"

text \<open>The loop \<^verbatim>\<open>for idx, work in enumerate(work_experiences)\<close>.\<close>

fun work_documents :: "pyval \<Rightarrow> nat \<Rightarrow> pyval list \<Rightarrow> py_exn + pyval list" where
  "work_documents application_id idx [] = Inr []"
| "work_documents application_id idx (work # rest) =
     py_then (present_locator ''certificate_document'' work) (\<lambda>certificate.
     py_then (present_locator ''recommendation_document'' work) (\<lambda>recommendation.
     py_then (work_documents application_id (Suc idx) rest) (\<lambda>tasks.
       Inr (emit certificate (\<lambda>s3_uri.
              nested_task application_id
                (''work_experience['' @ str_nat idx @ ''].certificate_document'')
                ''certificate_content'' s3_uri
                (''work_experience.'' @ str_nat idx))
            @ emit recommendation (\<lambda>s3_uri.
              nested_task application_id
                (''work_experience['' @ str_nat idx @ ''].recommendation_document'')
                ''recommendation_content'' s3_uri
                (''work_experience.'' @ str_nat idx))
            @ tasks))))"

definition work_experience_documents :: "pyval \<Rightarrow> pydict \<Rightarrow> py_exn + pyval list" where
  "work_experience_documents application_id student =
     (case student (KStr ''work_experience'') of
        None \<Rightarrow> Inr []
      | Some work_experiences \<Rightarrow>
          py_then (py_iter work_experiences) (\<lambda>ws.
            work_documents application_id 0 ws))"

text \<open>The flow: the body of the \<^verbatim>\<open>try\<close> block, then the flow with its handler.\<close>

definition prepare_document_list_try :: "db \<Rightarrow> pydict \<Rightarrow> py_exn + bool \<times> pyval" where
  "prepare_document_list_try store data =
     (let application_id = dict_get data ''application_id'' PNone in
      if \<not> py_truthy application_id
      then Inr (False, PStr ''Missing application_id parameter'')
      else
        py_then (dynamodb_get_item store application_id ApplicationTable) (\<lambda>found.
          (case found of
             None \<Rightarrow> Inr (False, PStr (''Application not found: '' @ py_text application_id))
           | Some student \<Rightarrow>
               if student = Map.empty
               then Inr (False, PStr (''Application not found: '' @ py_text application_id))
               else
                 py_then
                   (case student (KStr ''documents'') of
                      None \<Rightarrow> Inr []
                    | Some docs \<Rightarrow> main_documents application_id docs document_mapping)
                   (\<lambda>main_docs.
                 py_then (personal_documents application_id student) (\<lambda>personal_docs.
                 py_then (research_documents application_id student) (\<lambda>research_docs.
                 py_then (work_experience_documents application_id student) (\<lambda>work_docs.
                   let documents = main_docs @ personal_docs @ research_docs @ work_docs in
                   Inr (True,
                        py_dict
                          [(''application_id'', application_id),
                           (''documents'', PList documents),
                           (''total_documents'', PNum (real (length documents)))]))))))))"

definition prepare_document_list_flow :: "db \<Rightarrow> pydict \<Rightarrow> bool \<times> pyval" where
  "prepare_document_list_flow store data =
     (case prepare_document_list_try store data of
        Inr r \<Rightarrow> r
      | Inl e \<Rightarrow> (False, PStr (''Failed to prepare document list: '' @ exn_str e)))"

subsection \<open>The locators of a record, in the words of the specification\<close>

text \<open>
  The places of a record that may hold a document locator: a key of the flat mapping,
  the government id of the personal information, one of two fields of a project, one of
  two fields of a work entry.
\<close>

datatype location =
    MainDoc string
  | GovernmentId
  | ProjectDoc nat string
  | WorkDoc nat string

text \<open>The field of an object, when the object is a dictionary.\<close>

definition field :: "pyval \<Rightarrow> string \<Rightarrow> pyval option" where
  "field x k = (case x of PDict d \<Rightarrow> d (KStr k) | _ \<Rightarrow> None)"

definition projects_of :: "pydict \<Rightarrow> pyval list" where
  "projects_of student =
     (case student (KStr ''research_experience'') of
        Some (PDict research) \<Rightarrow>
          (case research (KStr ''projects'') of Some (PList ps) \<Rightarrow> ps | _ \<Rightarrow> [])
      | _ \<Rightarrow> [])"

definition work_of :: "pydict \<Rightarrow> pyval list" where
  "work_of student =
     (case student (KStr ''work_experience'') of Some (PList ws) \<Rightarrow> ws | _ \<Rightarrow> [])"

text \<open>What the record holds at a location.\<close>

fun locator :: "pydict \<Rightarrow> location \<Rightarrow> pyval option" where
  "locator student (MainDoc k) =
     (case student (KStr ''documents'') of Some docs \<Rightarrow> field docs k | None \<Rightarrow> None)"
| "locator student GovernmentId =
     (case student (KStr ''personal_information'') of
        Some personal_info \<Rightarrow> field personal_info ''government_id_document''
      | None \<Rightarrow> None)"
| "locator student (ProjectDoc i f) =
     (if i < length (projects_of student) then field (projects_of student ! i) f else None)"
| "locator student (WorkDoc i f) =
     (if i < length (work_of student) then field (work_of student ! i) f else None)"

text \<open>A location holds a document when its locator is present and not empty.\<close>

definition has_document :: "pydict \<Rightarrow> location \<Rightarrow> bool" where
  "has_document student l =
     (case locator student l of None \<Rightarrow> False | Some v \<Rightarrow> py_truthy v)"

text \<open>
  The locations that the resolver knows: the keys of the registry, the government id,
  and the two document fields of every project and of every work entry.
\<close>

definition known_locations :: "pydict \<Rightarrow> location list" where
  "known_locations student =
     map (\<lambda>(doc_key, content_key). MainDoc doc_key) document_mapping
     @ [GovernmentId]
     @ concat (map (\<lambda>i. [ProjectDoc i ''publication_document'', ProjectDoc i ''report_document''])
                 [0..<length (projects_of student)])
     @ concat (map (\<lambda>i. [WorkDoc i ''certificate_document'', WorkDoc i ''recommendation_document''])
                 [0..<length (work_of student)])"

text \<open>The task that belongs to a location.\<close>

definition content_key_of :: "string \<Rightarrow> string" where
  "content_key_of doc_key =
     (case map_of document_mapping doc_key of None \<Rightarrow> [] | Some content_key \<Rightarrow> content_key)"

fun task_of :: "pyval \<Rightarrow> pydict \<Rightarrow> location \<Rightarrow> pyval" where
  "task_of application_id student (MainDoc k) =
     main_task application_id k (content_key_of k)
       (case locator student (MainDoc k) of None \<Rightarrow> PNone | Some v \<Rightarrow> v)"
| "task_of application_id student GovernmentId =
     nested_task application_id ''personal_information.government_id_document''
       ''government_id_content''
       (case locator student GovernmentId of None \<Rightarrow> PNone | Some v \<Rightarrow> v)
       ''personal_information''"
| "task_of application_id student (ProjectDoc i f) =
     nested_task application_id
       (''research_experience.projects['' @ str_nat i @ ''].'' @ f)
       (if f = ''publication_document'' then ''publication_content'' else ''report_content'')
       (case locator student (ProjectDoc i f) of None \<Rightarrow> PNone | Some v \<Rightarrow> v)
       (''research_experience.projects.'' @ str_nat i)"
| "task_of application_id student (WorkDoc i f) =
     nested_task application_id
       (''work_experience['' @ str_nat i @ ''].'' @ f)
       (if f = ''certificate_document'' then ''certificate_content''
        else ''recommendation_content'')
       (case locator student (WorkDoc i f) of None \<Rightarrow> PNone | Some v \<Rightarrow> v)
       (''work_experience.'' @ str_nat i)"

text \<open>
  A record of the shape that the data model describes: the flat mapping and the personal
  information are objects, the research experience is an object whose projects are a list
  of objects, the work experience is a list of objects (each of them may be absent).
\<close>

definition is_dict :: "pyval \<Rightarrow> bool" where
  "is_dict x = (case x of PDict d \<Rightarrow> True | _ \<Rightarrow> False)"

definition record_shape :: "pydict \<Rightarrow> bool" where
  "record_shape student =
     ((case student (KStr ''documents'') of None \<Rightarrow> True | Some docs \<Rightarrow> is_dict docs)
      \<and> (case student (KStr ''personal_information'') of
            None \<Rightarrow> True | Some personal_info \<Rightarrow> is_dict personal_info)
      \<and> (case student (KStr ''research_experience'') of
            None \<Rightarrow> True
          | Some (PDict research) \<Rightarrow>
              (case research (KStr ''projects'') of
                 None \<Rightarrow> True
               | Some (PList ps) \<Rightarrow> list_all is_dict ps
               | Some _ \<Rightarrow> False)
          | Some _ \<Rightarrow> False)
      \<and> (case student (KStr ''work_experience'') of
            None \<Rightarrow> True
          | Some (PList ws) \<Rightarrow> list_all is_dict ws
          | Some _ \<Rightarrow> False))"

section \<open>Single-pass extraction\<close>

text \<open>
  \<^verbatim>\<open>document_extraction_flow\<close> extracts and stores in one pass. Its helper
  \<^verbatim>\<open>extract_document\<close> files the field name in one of three lists and returns
  \<^verbatim>\<open>None\<close> for an empty locator, the empty string for a failure and the text for a
  success. Its handler would file an exception as a failure; no statement of its body
  raises on decoded JSON.
\<close>

record extraction_results =
  successful_list :: "string list"
  failed_list :: "string list"
  skipped_list :: "string list"

definition extract_document ::
  "(string \<Rightarrow> string \<Rightarrow> string + string) \<Rightarrow> extraction_results \<Rightarrow> pyval \<Rightarrow> string
     \<Rightarrow> extraction_results \<times> pyval" where
  "extract_document analyze results s3_uri field_name =
     (if \<not> py_truthy s3_uri \<or> s3_uri = PStr []
      then (results\<lparr>skipped_list := skipped_list results @ [field_name]\<rparr>, PNone)
      else
        (case parse_s3_uri s3_uri of (bucket_name, s3_key) \<Rightarrow>
           if falsy_str bucket_name \<or> falsy_str s3_key
           then (results\<lparr>failed_list := failed_list results @ [field_name]\<rparr>, PStr [])
           else
             (case textractor_document_analysis analyze
                     (case bucket_name of None \<Rightarrow> [] | Some b \<Rightarrow> b)
                     (case s3_key of None \<Rightarrow> [] | Some k \<Rightarrow> k) of
                (status, result) \<Rightarrow>
                  if status = ''SUCCEEDED''
                  then (results\<lparr>successful_list := successful_list results @ [field_name]\<rparr>, PStr result)
                  else (results\<lparr>failed_list := failed_list results @ [field_name]\<rparr>, PStr []))))"

text \<open>
  \<^verbatim>\<open>_extract_main_documents\<close>: the loop over the registry. An exception ends the loop
  and is only logged, so what the loop has stored so far stays.
\<close>

fun extract_main_loop ::
  "(string \<Rightarrow> string \<Rightarrow> string + string) \<Rightarrow> pyval \<Rightarrow> pydict \<times> extraction_results
     \<Rightarrow> (string \<times> string) list \<Rightarrow> pydict \<times> extraction_results" where
  "extract_main_loop analyze docs st [] = st"
| "extract_main_loop analyze docs st ((doc_key, content_key) # rest) =
     (case st of (student, results) \<Rightarrow>
        (case py_str_in doc_key docs of
           Inl e \<Rightarrow> st
         | Inr present \<Rightarrow>
             if present then
               (case py_getitem docs (PStr doc_key) of
                  Inl e \<Rightarrow> st
                | Inr s3_uri \<Rightarrow>
                    (case extract_document analyze results s3_uri doc_key of
                       (results', extracted_content) \<Rightarrow>
                         extract_main_loop analyze docs
                           (if extracted_content \<noteq> PNone
                            then student(KStr content_key \<mapsto> extracted_content)
                            else student,
                            results')
                           rest))
             else extract_main_loop analyze docs st rest))"

definition extract_main_documents ::
  "(string \<Rightarrow> string \<Rightarrow> string + string) \<Rightarrow> pydict \<times> extraction_results
     \<Rightarrow> pydict \<times> extraction_results" where
  "extract_main_documents analyze st =
     (case st of (student, results) \<Rightarrow>
        let docs = dict_get student ''documents'' (PDict Map.empty) in
        if \<not> py_truthy docs then st
        else extract_main_loop analyze docs st document_mapping)"

section \<open>Lifecycle status\<close>

text \<open>
  The flows that write \<^verbatim>\<open>application_status\<close>, besides consolidation. What the
  external services answer is a parameter of each flow.

  \<^verbatim>\<open>process_application_flow\<close>; \<open>started\<close> is the answer of
  \<^verbatim>\<open>start_state_machine\<close>.
\<close>

definition process_application_try ::
  "(pydict \<Rightarrow> bool) \<Rightarrow> bool \<times> string \<Rightarrow> db \<Rightarrow> pydict \<Rightarrow> py_exn + db \<times> bool \<times> pyval" where
  "process_application_try accepts started store data =
     (let application_id = dict_get data ''application_id'' PNone in
      if \<not> py_truthy application_id
      then Inr (store, False, PStr ''Missing application_id parameter'')
      else
        py_then (dynamodb_get_item store application_id ApplicationTable) (\<lambda>found.
          (case found of
             None \<Rightarrow>
               Inr (store, False, PStr (''Application not found: '' @ py_text application_id))
           | Some student \<Rightarrow>
               if student = Map.empty
               then Inr (store, False,
                         PStr (''Application not found: '' @ py_text application_id))
               else
                 (case started of (status, output) \<Rightarrow>
                    if \<not> status then
                      py_then
                        (dynamodb_put_item accepts store
                           (student(KStr ''application_status'' \<mapsto> PStr ''On-hold''))
                           ApplicationTable) (\<lambda>store'.
                        Inr (store', False, PStr (''Failed to start processing: '' @ output)))
                    else
                      py_then
                        (dynamodb_put_item accepts store
                           (student(KStr ''application_status'' \<mapsto> PStr ''Application processing''))
                           ApplicationTable) (\<lambda>store'.
                        Inr (store', True,
                             PStr ''Application processing initiated successfully''))))))"

definition process_application_flow ::
  "(pydict \<Rightarrow> bool) \<Rightarrow> bool \<times> string \<Rightarrow> db \<Rightarrow> pydict \<Rightarrow> db \<times> bool \<times> pyval" where
  "process_application_flow accepts started store data =
     (case process_application_try accepts started store data of
        Inr r \<Rightarrow> r
      | Inl e \<Rightarrow> (store, False, PStr (''Failed to process application: '' @ exn_str e)))"

text \<open>
  \<^verbatim>\<open>evaluate_application_flow\<close>; \<open>invoke\<close> is \<^verbatim>\<open>invoke_agentcore_runtime\<close> as a
  function of the record without its status, from which the prompt is built. The flow
  writes twice. An exception of the second write reaches the handler when the first write
  has been done; the result of the handler is written at that place, with the store as
  the first write left it.
\<close>

definition evaluate_application_try ::
  "(pydict \<Rightarrow> bool) \<Rightarrow> (pydict \<Rightarrow> bool \<times> pyval) \<Rightarrow> db \<Rightarrow> pydict
     \<Rightarrow> py_exn + db \<times> bool \<times> pyval" where
  "evaluate_application_try accepts invoke store data =
     (let application_id = dict_get data ''application_id'' PNone in
      if \<not> py_truthy application_id
      then Inr (store, False, PStr ''Missing application_id parameter'')
      else
        py_then (dynamodb_get_item store application_id ApplicationTable) (\<lambda>found.
          (case found of
             None \<Rightarrow>
               Inr (store, False, PStr (''Application not found: '' @ py_text application_id))
           | Some student \<Rightarrow>
               if student = Map.empty
               then Inr (store, False,
                         PStr (''Application not found: '' @ py_text application_id))
               else
                 let eval_data = student(KStr ''application_status'' := None) in
                 (case invoke eval_data of (status, response) \<Rightarrow>
                    if \<not> status
                    then Inr (store, False,
                              PStr (''Evaluation service failed: '' @ py_text response))
                    else
                      (case response of
                         PDict r \<Rightarrow>
                           if r = Map.empty
                           then Inr (store, False,
                                     PStr ''Invalid evaluation response from AI service'')
                           else
                             py_then
                               (dynamodb_put_item accepts store
                                  (student(KStr ''application_status'' \<mapsto> PStr ''Generating report''))
                                  ApplicationTable) (\<lambda>store1.
                               (case dynamodb_put_item accepts store1
                                       (r(KStr ''application_id'' \<mapsto> application_id))
                                       EvaluationsTable of
                                  Inl e \<Rightarrow>
                                    Inr (store1, False,
                                         PStr (''Failed to evaluate application: '' @ exn_str e))
                                | Inr store2 \<Rightarrow>
                                    Inr (store2, True,
                                         py_dict [(''application_id'', application_id)])))
                       | _ \<Rightarrow>
                           Inr (store, False,
                                PStr ''Invalid evaluation response from AI service''))))))"

definition evaluate_application_flow ::
  "(pydict \<Rightarrow> bool) \<Rightarrow> (pydict \<Rightarrow> bool \<times> pyval) \<Rightarrow> db \<Rightarrow> pydict \<Rightarrow> db \<times> bool \<times> pyval" where
  "evaluate_application_flow accepts invoke store data =
     (case evaluate_application_try accepts invoke store data of
        Inr r \<Rightarrow> r
      | Inl e \<Rightarrow> (store, False, PStr (''Failed to evaluate application: '' @ exn_str e)))"

text \<open>
  \<^verbatim>\<open>generate_report_flow\<close>. The context that the flow attaches to the evaluation
  record is built by two dictionary comprehensions over the application record; the
  first calls \<^verbatim>\<open>k.endswith\<close> on every key, which only a string has.
\<close>

definition ends_with :: "string \<Rightarrow> string \<Rightarrow> bool" where
  "ends_with suffix s =
     (length suffix \<le> length s \<and> drop (length s - length suffix) s = suffix)"

definition application_context :: "pydict \<Rightarrow> py_exn + pyval" where
  "application_context app_data =
     (if \<forall>k\<in>dom app_data. (case k of KStr s \<Rightarrow> True | _ \<Rightarrow> False) then
        Inr (py_dict
          [(''documents'',
              PDict (\<lambda>k. case k of
                             KStr s \<Rightarrow> if ends_with ''_content'' s then app_data k else None
                           | _ \<Rightarrow> None)),
           (''metadata'',
              PDict (\<lambda>k. if k \<in> {KStr ''submission_date'', KStr ''last_updated'',
                                       KStr ''document_count''}
                          then app_data k else None))])
      else Inl AttributeError)"

text \<open>
  \<open>scan\<close> is the answer of \<^verbatim>\<open>dynamodb_get_all_items\<close>, \<open>generate\<close> builds and uploads
  the report from the evaluation record and the cohort, \<open>s3_bucket\<close> and \<open>s3_prefix\<close>
  come from the configuration. The flow writes the evaluation record first; the handler's
  result for an exception after that write is written at its place.
\<close>

definition generate_report_try ::
  "(pydict \<Rightarrow> bool) \<Rightarrow> bool \<times> pyval \<Rightarrow> (pydict \<Rightarrow> pyval \<Rightarrow> py_exn + pyval) \<Rightarrow> string \<Rightarrow> string
     \<Rightarrow> db \<Rightarrow> pydict \<Rightarrow> py_exn + db \<times> bool \<times> pyval" where
  "generate_report_try accepts scan generate s3_bucket s3_prefix store data =
     (let application_id = dict_get data ''application_id'' PNone in
      if \<not> py_truthy application_id
      then Inr (store, False, PStr ''Missing application_id parameter'')
      else
        py_then (dynamodb_get_item store application_id EvaluationsTable) (\<lambda>found.
          (case found of
             None \<Rightarrow>
               Inr (store, False,
                    PStr (''No evaluation data found for application: '' @ py_text application_id))
           | Some student \<Rightarrow>
               if student = Map.empty
               then Inr (store, False,
                      PStr (''No evaluation data found for application: ''
                            @ py_text application_id))
               else
                 py_then (dynamodb_get_item store application_id ApplicationTable) (\<lambda>app_data.
                 py_then
                   (case app_data of
                      None \<Rightarrow> Inr student
                    | Some a \<Rightarrow>
                        if a = Map.empty then Inr student
                        else py_then (application_context a) (\<lambda>context.
                               Inr (student(KStr ''application_context'' \<mapsto> context))))
                   (\<lambda>student1.
                 (case scan of (status, all_students) \<Rightarrow>
                    if \<not> status
                    then Inr (store, False, PStr ''Failed to retrieve cohort data for comparison'')
                    else
                      py_then (generate student1 all_students) (\<lambda>result.
                      py_then (py_get result ''upload'' (PDict Map.empty)) (\<lambda>upload.
                      py_then (py_get upload ''success'' (PBool False)) (\<lambda>success.
                        if \<not> py_truthy success then
                          py_then (py_get upload ''message'' (PStr ''Unknown error'')) (\<lambda>message.
                            Inr (store, False,
                                 PStr (''Failed to upload report: '' @ py_text message)))
                        else
                          let s3_key = s3_prefix @ ''/'' @ py_text application_id @ ''/report.html'';
                              report_url = ''s3://'' @ s3_bucket @ ''/'' @ s3_key;
                              out = py_dict
                                      [(''application_id'', application_id),
                                       (''report'', PStr report_url),
                                       (''upload_details'', upload)]
                          in
                          py_then
                            (dynamodb_put_item accepts store
                               (student1(KStr ''report'' \<mapsto> PStr report_url))
                               EvaluationsTable) (\<lambda>store1.
                            (case dynamodb_get_item store1 application_id ApplicationTable of
                               Inl e \<Rightarrow>
                                 Inr (store1, False,
                                      PStr (''Failed to generate report: '' @ exn_str e))
                             | Inr None \<Rightarrow> Inr (store1, True, out)
                             | Inr (Some app_student) \<Rightarrow>
                                 if app_student = Map.empty then Inr (store1, True, out)
                                 else
                                   (case dynamodb_put_item accepts store1
                                           (app_student(KStr ''application_status'' \<mapsto>
                                              PStr ''Processing complete''))
                                           ApplicationTable of
                                      Inl e \<Rightarrow>
                                        Inr (store1, False,
                                             PStr (''Failed to generate report: '' @ exn_str e))
                                    | Inr store2 \<Rightarrow> Inr (store2, True, out)))))))))))))"

definition generate_report_flow ::
  "(pydict \<Rightarrow> bool) \<Rightarrow> bool \<times> pyval \<Rightarrow> (pydict \<Rightarrow> pyval \<Rightarrow> py_exn + pyval) \<Rightarrow> string \<Rightarrow> string
     \<Rightarrow> db \<Rightarrow> pydict \<Rightarrow> db \<times> bool \<times> pyval" where
  "generate_report_flow accepts scan generate s3_bucket s3_prefix store data =
     (case generate_report_try accepts scan generate s3_bucket s3_prefix store data of
        Inr r \<Rightarrow> r
      | Inl e \<Rightarrow> (store, False, PStr (''Failed to generate report: '' @ exn_str e)))"

text \<open>The lifecycle status that the store holds for an application.\<close>

definition stored_status :: "db \<Rightarrow> string \<Rightarrow> pyval option" where
  "stored_status store app_id =
     (case store ApplicationTable app_id of
        None \<Rightarrow> None
      | Some student \<Rightarrow> student (KStr ''application_status''))"

section \<open>Writes that are resolved against the state\<close>

text \<open>
  A sequence of writes into a structure, each of which first resolves the place it
  writes to: \<open>res s w\<close> is \<open>None\<close> when the resolution raises, \<open>Some None\<close> when the write
  is dropped, and \<open>Some (Some l)\<close> when it goes to the place \<open>l\<close>, where \<open>put s l w\<close> stores
  the value of \<open>w\<close>. The writes are lawful when storing a value changes no resolution,
  a second write to a place replaces the first, and writes to different places commute.
\<close>

definition lawful :: "('s \<Rightarrow> 'w \<Rightarrow> 'l option option) \<Rightarrow> ('s \<Rightarrow> 'l \<Rightarrow> 'w \<Rightarrow> 's) \<Rightarrow> bool" where
  "lawful res put =
     ((\<forall>s w l w'. res s w = Some (Some l) \<longrightarrow> res (put s l w) w' = res s w')
      \<and> (\<forall>s w l w'. res s w = Some (Some l) \<and> res s w' = Some (Some l)
            \<longrightarrow> put (put s l w) l w' = put s l w')
      \<and> (\<forall>s w l w' l'. res s w = Some (Some l) \<and> res s w' = Some (Some l') \<and> l \<noteq> l'
            \<longrightarrow> put (put s l w) l' w' = put (put s l' w') l w))"

definition step ::
  "('s \<Rightarrow> 'w \<Rightarrow> 'l option option) \<Rightarrow> ('s \<Rightarrow> 'l \<Rightarrow> 'w \<Rightarrow> 's) \<Rightarrow> 's \<Rightarrow> 'w \<Rightarrow> 's option" where
  "step res put s w =
     (case res s w of
        None \<Rightarrow> None
      | Some None \<Rightarrow> Some s
      | Some (Some l) \<Rightarrow> Some (put s l w))"

fun steps ::
  "('s \<Rightarrow> 'w \<Rightarrow> 'l option option) \<Rightarrow> ('s \<Rightarrow> 'l \<Rightarrow> 'w \<Rightarrow> 's) \<Rightarrow> 's \<Rightarrow> 'w list \<Rightarrow> 's option" where
  "steps res put s [] = Some s"
| "steps res put s (w # ws) =
     (case step res put s w of None \<Rightarrow> None | Some s' \<Rightarrow> steps res put s' ws)"

text \<open>The write \<open>w\<close> with its place resolved in a fixed state \<open>s\<close>, applied to \<open>t\<close>.\<close>

definition resolved_write ::
  "('s \<Rightarrow> 'w \<Rightarrow> 'l option option) \<Rightarrow> ('s \<Rightarrow> 'l \<Rightarrow> 'w \<Rightarrow> 's) \<Rightarrow> 's \<Rightarrow> 'w \<Rightarrow> 's \<Rightarrow> 's" where
  "resolved_write res put s w t =
     (case res s w of Some (Some l) \<Rightarrow> put t l w | _ \<Rightarrow> t)"

section \<open>The writes of the consolidation loop\<close>

text \<open>The value of a step, when it raises nothing.\<close>

fun value_of :: "py_exn + 'a \<Rightarrow> 'a option" where
  "value_of (Inl e) = None"
| "value_of (Inr x) = Some x"

text \<open>
  The place inside a dictionary or a list that an item assignment reaches: a key, or a
  position counted from the start.
\<close>

datatype slot = SKey pykey | SPos nat

fun slot_of :: "pyval \<Rightarrow> pyval \<Rightarrow> slot option" where
  "slot_of (PDict e) k = map_option SKey (value_of (key_of k))"
| "slot_of (PList ys) k =
     (case as_index k of
        None \<Rightarrow> None
      | Some i \<Rightarrow> map_option SPos (py_index (length ys) i))"
| "slot_of _ k = None"

fun put_slot :: "pyval \<Rightarrow> slot \<Rightarrow> pyval \<Rightarrow> pyval" where
  "put_slot (PDict e) (SKey k) v = PDict (e(k \<mapsto> v))"
| "put_slot (PList ys) (SPos p) v = PList (ys[p := v])"
| "put_slot x sl v = x"

fun get_slot :: "pyval \<Rightarrow> slot \<Rightarrow> pyval" where
  "get_slot (PDict e) (SKey k) = (case e k of None \<Rightarrow> PNone | Some v \<Rightarrow> v)"
| "get_slot (PList ys) (SPos p) = (if p < length ys then ys ! p else PNone)"
| "get_slot x sl = PNone"

fun valid_slot :: "pyval \<Rightarrow> slot \<Rightarrow> bool" where
  "valid_slot (PDict e) (SKey k) = (e k \<noteq> None)"
| "valid_slot (PList ys) (SPos p) = (p < length ys)"
| "valid_slot x sl = False"

text \<open>
  The entry \<^verbatim>\<open>lst[idx]\<close> that the guarded write of a list branch reaches: nothing when
  the guard \<^verbatim>\<open>idx < len(lst)\<close> fails, a fault when reading the entry or writing into
  it must raise.
\<close>

fun entry_slot :: "pyval \<Rightarrow> int \<Rightarrow> slot option option" where
  "entry_slot (PList xs) idx =
     (if idx < int (length xs)
      then map_option (\<lambda>p. Some (SPos p)) (py_index (length xs) idx)
      else Some None)"
| "entry_slot (PDict d) idx =
     (if idx < int (card (dom d))
      then (case d (KNum (of_int idx)) of
              None \<Rightarrow> None
            | Some v \<Rightarrow> Some (Some (SKey (KNum (of_int idx)))))
      else Some None)"
| "entry_slot (PStr s) idx = (if idx < int (length s) then None else Some None)"
| "entry_slot _ idx = None"

text \<open>A write into an entry of a list section: index, content key and content.\<close>

type_synonym indexed_write = "int \<times> pyval \<times> pyval"

definition indexed_res :: "pyval \<Rightarrow> indexed_write \<Rightarrow> (slot \<times> slot) option option" where
  "indexed_res lst w =
     (case w of (idx, k, v) \<Rightarrow>
        (case entry_slot lst idx of
           None \<Rightarrow> None
         | Some None \<Rightarrow> Some None
         | Some (Some sl) \<Rightarrow>
             (case slot_of (get_slot lst sl) k of
                None \<Rightarrow> None
              | Some sl2 \<Rightarrow> Some (Some (sl, sl2)))))"

definition indexed_put :: "pyval \<Rightarrow> slot \<times> slot \<Rightarrow> indexed_write \<Rightarrow> pyval" where
  "indexed_put lst l w =
     (case l of (sl, sl2) \<Rightarrow>
        (case w of (idx, k, v) \<Rightarrow> put_slot lst sl (put_slot (get_slot lst sl) sl2 v)))"

text \<open>A write into the personal information: content key and content.\<close>

definition personal_res :: "pyval \<Rightarrow> pyval \<times> pyval \<Rightarrow> slot option option" where
  "personal_res info w = (case w of (k, v) \<Rightarrow> map_option Some (slot_of info k))"

definition personal_put :: "pyval \<Rightarrow> slot \<Rightarrow> pyval \<times> pyval \<Rightarrow> pyval" where
  "personal_put info sl w = (case w of (k, v) \<Rightarrow> put_slot info sl v)"

text \<open>
  The part of the project branch that works on the research experience:
  \<^verbatim>\<open>if "projects" in research: if idx < len(research["projects"]): ...\<close>
\<close>

definition project_write :: "pyval \<Rightarrow> int \<Rightarrow> pyval \<Rightarrow> pyval \<Rightarrow> py_exn + pyval" where
  "project_write research idx content_key content =
     py_then (py_str_in ''projects'' research) (\<lambda>has_projects.
       if has_projects then
         py_then (py_getitem research (PStr ''projects'')) (\<lambda>projects.
         py_then (store_indexed projects idx content_key content) (\<lambda>projects'.
           py_setitem research (PStr ''projects'') projects'))
       else Inr research)"

definition project_res :: "pyval \<Rightarrow> indexed_write \<Rightarrow> (slot \<times> slot) option option" where
  "project_res research w =
     (case value_of (py_str_in ''projects'' research) of
        None \<Rightarrow> None
      | Some has_projects \<Rightarrow>
          if has_projects then
            (case value_of (py_getitem research (PStr ''projects'')) of
               None \<Rightarrow> None
             | Some projects \<Rightarrow> indexed_res projects w)
          else Some None)"

definition project_put :: "pyval \<Rightarrow> slot \<times> slot \<Rightarrow> indexed_write \<Rightarrow> pyval" where
  "project_put research l w =
     (case research of
        PDict r \<Rightarrow>
          (case r (KStr ''projects'') of
             None \<Rightarrow> research
           | Some projects \<Rightarrow> PDict (r(KStr ''projects'' \<mapsto> indexed_put projects l w)))
      | _ \<Rightarrow> research)"

text \<open>
  What a turn of the loop does to the record, read off the wrapper alone: nothing, a
  write of a top-level field, or a write into one of the three sections. The counter that
  the turn moves is read off the wrapper as well.
\<close>

datatype action =
    NoWrite
  | MainWrite pykey pyval
  | PersonalWrite pyval pyval
  | ProjectWrite int pyval pyval
  | WorkWrite int pyval pyval

datatype tally = Successful | Failed | Skipped

definition main_action :: "pyval \<Rightarrow> pyval \<Rightarrow> py_exn + action" where
  "main_action document content =
     py_then (py_get document ''content_key'' PNone) (\<lambda>content_key.
       if py_truthy content_key
       then py_then (key_of content_key) (\<lambda>k. Inr (MainWrite k content))
       else Inr NoWrite)"

definition nested_action :: "pyval \<Rightarrow> pyval \<Rightarrow> py_exn + action" where
  "nested_action document content =
     py_then (py_get document ''parent_path'' (PStr [])) (\<lambda>parent_path.
     py_then (py_get document ''content_key'' PNone) (\<lambda>content_key.
     py_then (py_str_in ''personal_information'' parent_path) (\<lambda>is_personal.
       if is_personal then Inr (PersonalWrite content_key content)
       else
         py_then (py_str_in ''research_experience.projects'' parent_path) (\<lambda>is_project.
           if is_project then
             py_then (py_split_dot parent_path) (\<lambda>path_parts.
               if 3 \<le> length path_parts
               then py_then (py_int (path_parts ! 2)) (\<lambda>idx.
                      Inr (ProjectWrite idx content_key content))
               else Inr NoWrite)
           else
             py_then (py_str_in ''work_experience'' parent_path) (\<lambda>is_work.
               if is_work then
                 py_then (py_split_dot parent_path) (\<lambda>path_parts.
                   if 2 \<le> length path_parts
                   then py_then (py_int (path_parts ! 1)) (\<lambda>idx.
                          Inr (WorkWrite idx content_key content))
                   else Inr NoWrite)
               else Inr NoWrite)))))"

definition classify :: "pyval \<Rightarrow> py_exn + tally \<times> action" where
  "classify result_wrapper =
     py_then (wrapper_result result_wrapper) (\<lambda>result.
     py_then (py_get result ''status'' PNone) (\<lambda>status.
       if status = PStr ''success'' then
         py_then (py_get result ''document'' (PDict Map.empty)) (\<lambda>document.
         py_then (py_get result ''content'' (PStr [])) (\<lambda>content.
         py_then (py_get document ''document_type'' PNone) (\<lambda>document_type.
         py_then
           (if document_type = PStr ''main'' then main_action document content
            else if document_type = PStr ''nested'' then nested_action document content
            else Inr NoWrite)
           (\<lambda>act. Inr (Successful, act)))))
       else if status = PStr ''failed'' then Inr (Failed, NoWrite)
       else Inr (Skipped, NoWrite)))"

fun perform :: "action \<Rightarrow> pydict \<Rightarrow> py_exn + pydict" where
  "perform NoWrite student = Inr student"
| "perform (MainWrite k v) student = Inr (student(k \<mapsto> v))"
| "perform (PersonalWrite k v) student = store_personal student k v"
| "perform (ProjectWrite idx k v) student =
     (case student (KStr ''research_experience'') of
        None \<Rightarrow> Inr student
      | Some research \<Rightarrow>
          py_then (project_write research idx k v) (\<lambda>research'.
            Inr (student(KStr ''research_experience'' \<mapsto> research'))))"
| "perform (WorkWrite idx k v) student =
     (case student (KStr ''work_experience'') of
        None \<Rightarrow> Inr student
      | Some work \<Rightarrow>
          py_then (store_indexed work idx k v) (\<lambda>work'.
            Inr (student(KStr ''work_experience'' \<mapsto> work'))))"

fun count_turn :: "tally \<Rightarrow> nat \<times> nat \<times> nat \<Rightarrow> nat \<times> nat \<times> nat" where
  "count_turn Successful (a, b, c) = (a + 1, b, c)"
| "count_turn Failed (a, b, c) = (a, b + 1, c)"
| "count_turn Skipped (a, b, c) = (a, b, c + 1)"

text \<open>
  The same per top-level key: the key that an action addresses, and what the action makes
  of the value under that key (\<open>None\<close> for an absent key; the outer \<open>None\<close> of the result
  is a fault).
\<close>

fun akey :: "action \<Rightarrow> pykey" where
  "akey NoWrite = KNone"
| "akey (MainWrite k v) = k"
| "akey (PersonalWrite k v) = KStr ''personal_information''"
| "akey (ProjectWrite idx k v) = KStr ''research_experience''"
| "akey (WorkWrite idx k v) = KStr ''work_experience''"

definition personal_value :: "pyval option \<Rightarrow> pyval" where
  "personal_value x = (case x of None \<Rightarrow> PDict Map.empty | Some info \<Rightarrow> info)"

fun atrans :: "action \<Rightarrow> pyval option \<Rightarrow> pyval option option" where
  "atrans NoWrite x = Some x"
| "atrans (MainWrite k v) x = Some (Some v)"
| "atrans (PersonalWrite k v) x =
     map_option Some (step personal_res personal_put (personal_value x) (k, v))"
| "atrans (ProjectWrite idx k v) x =
     (case x of
        None \<Rightarrow> Some None
      | Some research \<Rightarrow> map_option Some (step project_res project_put research (idx, k, v)))"
| "atrans (WorkWrite idx k v) x =
     (case x of
        None \<Rightarrow> Some None
      | Some work \<Rightarrow> map_option Some (step indexed_res indexed_put work (idx, k, v)))"

fun run :: "action list \<Rightarrow> pydict \<Rightarrow> pydict option" where
  "run [] student = Some student"
| "run (a # as) student =
     (case atrans a (student (akey a)) of
        None \<Rightarrow> None
      | Some y \<Rightarrow> run as (student(akey a := y)))"

fun krun :: "pykey \<Rightarrow> action list \<Rightarrow> pyval option \<Rightarrow> pyval option option" where
  "krun key [] x = Some x"
| "krun key (a # as) x =
     (if akey a = key
      then (case atrans a x of None \<Rightarrow> None | Some y \<Rightarrow> krun key as y)
      else krun key as x)"

text \<open>The actions and counters of a list of wrappers, when every wrapper can be read.\<close>

fun classify_all :: "pyval list \<Rightarrow> (tally \<times> action) list option" where
  "classify_all [] = Some []"
| "classify_all (w # ws) =
     (case value_of (classify w) of
        None \<Rightarrow> None
      | Some ta \<Rightarrow> map_option ((#) ta) (classify_all ws))"

text \<open>
  The writes into one section as resolved writes on the value under the section's key:
  the place that an action reaches in the value \<open>x\<close> under \<open>key\<close> (an entry of the personal
  information, or an entry of an entry of a list), and the value after the action has
  stored its content there. Actions on other keys, and the actions that replace the
  whole value, reach no place inside it.
\<close>

fun ares :: "pykey \<Rightarrow> pyval option \<Rightarrow> action \<Rightarrow> (slot + slot \<times> slot) option option" where
  "ares key x NoWrite = Some None"
| "ares key x (MainWrite k v) = Some None"
| "ares key x (PersonalWrite k v) =
     (if key = KStr ''personal_information''
      then map_option (map_option Inl) (personal_res (personal_value x) (k, v))
      else Some None)"
| "ares key x (ProjectWrite idx k v) =
     (if key = KStr ''research_experience''
      then (case x of
              None \<Rightarrow> Some None
            | Some research \<Rightarrow> map_option (map_option Inr) (project_res research (idx, k, v)))
      else Some None)"
| "ares key x (WorkWrite idx k v) =
     (if key = KStr ''work_experience''
      then (case x of
              None \<Rightarrow> Some None
            | Some work \<Rightarrow> map_option (map_option Inr) (indexed_res work (idx, k, v)))
      else Some None)"

definition aput :: "pykey \<Rightarrow> pyval option \<Rightarrow> slot + slot \<times> slot \<Rightarrow> action \<Rightarrow> pyval option" where
  "aput key x l a =
     (case a of
        PersonalWrite k v \<Rightarrow>
          (case l of
             Inl sl \<Rightarrow> Some (personal_put (personal_value x) sl (k, v))
           | Inr l2 \<Rightarrow> x)
      | ProjectWrite idx k v \<Rightarrow>
          (case (x, l) of
             (Some research, Inr l2) \<Rightarrow> Some (project_put research l2 (idx, k, v))
           | _ \<Rightarrow> x)
      | WorkWrite idx k v \<Rightarrow>
          (case (x, l) of
             (Some work, Inr l2) \<Rightarrow> Some (indexed_put work l2 (idx, k, v))
           | _ \<Rightarrow> x)
      | _ \<Rightarrow> x)"

fun is_main :: "action \<Rightarrow> bool" where
  "is_main (MainWrite k v) = True"
| "is_main _ = False"



text \<open>The status that a successful consolidation leaves in the record.\<close>

definition final_write :: action where
  "final_write = MainWrite (KStr ''application_status'') (PStr ''Evaluation in-progress'')"

section \<open>Concrete inputs\<close>

text \<open>Requests to the extraction unit: an empty container, a task that is not a dictionary,
  and a well-formed locator.\<close>

definition request_empty_bucket :: pydict where
  "request_empty_bucket =
     [KStr ''application_id'' \<mapsto> PStr ''A1'',
      KStr ''document'' \<mapsto>
        py_dict [(''document_key'', PStr ''sop''), (''s3_uri'', PStr ''s3:///k.pdf'')]]"

definition request_no_dict :: pydict where
  "request_no_dict =
     [KStr ''application_id'' \<mapsto> PStr ''A1'', KStr ''document'' \<mapsto> PStr ''sop'']"

definition request_good :: pydict where
  "request_good =
     [KStr ''application_id'' \<mapsto> PStr ''A1'',
      KStr ''document'' \<mapsto>
        py_dict [(''document_key'', PStr ''sop''), (''s3_uri'', PStr ''s3://b/k'')]]"

text \<open>
  An application record with two documents in the flat mapping (one of them empty) and a
  work history of two entries, and a store that holds it.
\<close>

definition student_1 :: pydict where
  "student_1 =
     [KStr ''application_id'' \<mapsto> PStr ''A1'',
      KStr ''application_status'' \<mapsto> PStr ''Application processing'',
      KStr ''documents'' \<mapsto>
        py_dict [(''transcript'', PStr ''s3://b/t.pdf''), (''sop'', PStr [])],
      KStr ''work_experience'' \<mapsto>
        PList [py_dict [(''certificate_document'', PStr ''s3://b/c0.pdf'')],
               py_dict [(''employer'', PStr ''ACME'')]]]"

definition store_1 :: db where
  "store_1 = (\<lambda>t. Map.empty)(ApplicationTable := [''A1'' \<mapsto> student_1])"

text \<open>Result wrappers as the parallel map state delivers them.\<close>

definition wrap :: "pyval \<Rightarrow> pyval" where
  "wrap result = py_dict [(''Payload'', py_dict [(''result'', result)])]"

definition main_success :: "string \<Rightarrow> string \<Rightarrow> pyval" where
  "main_success content_key content =
     wrap (py_dict
       [(''status'', PStr ''success''),
        (''document'', py_dict
           [(''document_type'', PStr ''main''), (''content_key'', PStr content_key)]),
        (''content'', PStr content)])"

definition nested_success :: "string \<Rightarrow> string \<Rightarrow> string \<Rightarrow> pyval" where
  "nested_success parent_path content_key content =
     wrap (py_dict
       [(''status'', PStr ''success''),
        (''document'', py_dict
           [(''document_type'', PStr ''nested''), (''parent_path'', PStr parent_path),
            (''content_key'', PStr content_key)]),
        (''content'', PStr content)])"

definition failed_result :: pyval where
  "failed_result =
     wrap (py_dict
       [(''status'', PStr ''failed''), (''error'', PStr ''Invalid S3 URI''),
        (''content'', PStr [])])"

definition consolidate_request :: "pyval list \<Rightarrow> pydict" where
  "consolidate_request wrappers =
     [KStr ''application_id'' \<mapsto> PStr ''A1'', KStr ''extraction_results'' \<mapsto> PList wrappers]"

text \<open>A record with one research project.\<close>

definition student_2 :: pydict where
  "student_2 =
     [KStr ''application_id'' \<mapsto> PStr ''A2'',
      KStr ''research_experience'' \<mapsto>
        py_dict [(''projects'',
          PList [py_dict [(''publication_document'', PStr ''s3://b/p0.pdf'')]])]]"

text \<open>The store after consolidation: the record waits for its evaluation.\<close>

definition student_waiting :: pydict where
  "student_waiting = student_1(KStr ''application_status'' \<mapsto> PStr ''Evaluation in-progress'')"

definition store_waiting :: db where
  "store_waiting = (\<lambda>t. Map.empty)(ApplicationTable := [''A1'' \<mapsto> student_waiting])"

text \<open>A record whose transcript locator is not a storage address.\<close>

definition student_bad_locator :: pydict where
  "student_bad_locator =
     [KStr ''application_id'' \<mapsto> PStr ''A3'',
      KStr ''documents'' \<mapsto> py_dict [(''transcript'', PStr ''transcript.pdf'')]]"

definition no_results :: extraction_results where
  "no_results = \<lparr>successful_list = [], failed_list = [], skipped_list = []\<rparr>"

text \<open>
  Two successful results, for the statement of purpose and for the certificate of the
  first work entry, and the record and store that their consolidation leaves.
\<close>

definition sop_result :: pyval where
  "sop_result = main_success ''sop_content'' ''sop text''"

definition certificate_result :: pyval where
  "certificate_result =
     nested_success ''work_experience.0'' ''certificate_content'' ''cert text''"

definition student_consolidated :: pydict where
  "student_consolidated =
     student_1
       (KStr ''sop_content'' \<mapsto> PStr ''sop text'',
        KStr ''work_experience'' \<mapsto>
          PList [py_dict [(''certificate_document'', PStr ''s3://b/c0.pdf''),
                          (''certificate_content'', PStr ''cert text'')],
                 py_dict [(''employer'', PStr ''ACME'')]],
        KStr ''application_status'' \<mapsto> PStr ''Evaluation in-progress'')"

definition store_consolidated :: db where
  "store_consolidated = (\<lambda>t. Map.empty)(ApplicationTable := [''A1'' \<mapsto> student_consolidated])"

definition summary_2 :: pyval where
  "summary_2 =
     py_dict
       [(''application_id'', PStr ''A1''),
        (''summary'', py_dict
           [(''successful'', PNum 2), (''failed'', PNum 0),
            (''skipped'', PNum 0), (''total'', PNum 2)])]"

text \<open>
  A result for the third work entry of a record that has two, and the summary of a run
  over that single result.
\<close>

definition late_certificate_result :: pyval where
  "late_certificate_result =
     nested_success ''work_experience.2'' ''certificate_content'' ''cert text''"

definition summary_1 :: pyval where
  "summary_1 =
     py_dict
       [(''application_id'', PStr ''A1''),
        (''summary'', py_dict
           [(''successful'', PNum 1), (''failed'', PNum 0),
            (''skipped'', PNum 0), (''total'', PNum 1)])]"

text \<open>
  A stored record with a transcript whose work experience is \<^verbatim>\<open>null\<close>, and a store
  that holds it.
\<close>

definition student_null_work :: pydict where
  "student_null_work =
     [KStr ''application_id'' \<mapsto> PStr ''A4'',
      KStr ''documents'' \<mapsto> py_dict [(''transcript'', PStr ''s3://b/t.pdf'')],
      KStr ''work_experience'' \<mapsto> PNone]"

definition store_null_work :: db where
  "store_null_work = (\<lambda>t. Map.empty)(ApplicationTable := [''A4'' \<mapsto> student_null_work])"

subsection \<open>Facts about the statistics\<close>

lemma length_valid_values_le: "length (valid_values vs) \<le> length vs"
  by (induction vs rule: valid_values.induct) auto

lemma card_below_eq_length_filter:
  "card {i. i < length xs \<and> P (xs ! i)} = length (filter P xs)"
  by (simp add: length_filter_conv_card)

lemma percentileofscore_strict_rank:
  "percentileofscore_strict xs v = strict_percentile_rank v xs"
proof -
  have "card {i. i < length xs \<and> xs ! i < v} = length (filter (\<lambda>x. x < v) xs)"
    by (rule card_below_eq_length_filter)
  then show ?thesis
    unfolding percentileofscore_strict_def strict_percentile_rank_def by simp
qed

lemma percentileofscore_strict_bounds:
  assumes "xs \<noteq> []"
  shows "0 \<le> percentileofscore_strict xs v" and "percentileofscore_strict xs v \<le> 100"
proof -
  have le: "length (filter (\<lambda>x. x < v) xs) \<le> length xs"
    by (rule length_filter_le)
  have pos: "0 < real (length xs)"
    using assms by simp
  show "0 \<le> percentileofscore_strict xs v"
    by (simp add: percentileofscore_strict_def)
  have "real (length (filter (\<lambda>x. x < v) xs)) / real (length xs) \<le> 1"
    using le pos by (simp add: divide_le_eq)
  then have "real (length (filter (\<lambda>x. x < v) xs)) / real (length xs) * 100 \<le> 1 * 100"
    by (rule mult_right_mono) simp
  then show "percentileofscore_strict xs v \<le> 100"
    unfolding percentileofscore_strict_def by simp
qed

lemma sum_list_squares_zero:
  fixes f :: "real \<Rightarrow> real"
  shows "sum_list (map (\<lambda>x. (f x)\<^sup>2) xs) = 0 \<longleftrightarrow> (\<forall>x\<in>set xs. f x = 0)"
proof (induction xs)
  case Nil
  then show ?case by simp
next
  case (Cons a xs)
  have nn: "0 \<le> sum_list (map (\<lambda>x. (f x)\<^sup>2) xs)"
    by (rule sum_list_nonneg) auto
  have "(f a)\<^sup>2 + sum_list (map (\<lambda>x. (f x)\<^sup>2) xs) = 0
          \<longleftrightarrow> (f a)\<^sup>2 = 0 \<and> sum_list (map (\<lambda>x. (f x)\<^sup>2) xs) = 0"
    using nn by (simp add: add_nonneg_eq_0_iff)
  with Cons.IH show ?case by simp
qed

lemma stdev_zero_iff:
  assumes "2 \<le> length xs"
  shows "stdev xs = 0 \<longleftrightarrow> (\<forall>x\<in>set xs. x = mean xs)"
proof -
  have "0 < real (length xs - 1)"
    using assms by simp
  then have "stdev xs = 0 \<longleftrightarrow> sum_list (map (\<lambda>x. (x - mean xs)\<^sup>2) xs) = 0"
    by (simp add: stdev_def)
  then show ?thesis
    by (simp add: sum_list_squares_zero)
qed

lemma mean_all_equal:
  assumes "xs \<noteq> []" and "\<forall>x\<in>set xs. x = c"
  shows "mean xs = c"
proof -
  have "map (\<lambda>x. c) xs = xs"
    using assms(2) by (simp add: map_idI)
  then have "sum_list xs = sum_list (map (\<lambda>x. c) xs)"
    by simp
  also have "\<dots> = real (length xs) * c"
    by (simp add: sum_list_triv)
  finally show ?thesis
    using assms(1) by (simp add: mean_def)
qed

lemma stdev_zero_all_equal:
  assumes "2 \<le> length xs"
  shows "stdev xs = 0 \<longleftrightarrow> (\<forall>x\<in>set xs. \<forall>y\<in>set xs. x = y)"
proof
  assume "stdev xs = 0"
  then have "\<forall>x\<in>set xs. x = mean xs"
    using assms by (simp add: stdev_zero_iff)
  then show "\<forall>x\<in>set xs. \<forall>y\<in>set xs. x = y"
    by metis
next
  assume eq: "\<forall>x\<in>set xs. \<forall>y\<in>set xs. x = y"
  from assms obtain a ys where xs: "xs = a # ys"
    by (cases xs) auto
  have "\<forall>x\<in>set xs. x = a"
    using eq xs by simp
  moreover have "xs \<noteq> []"
    using xs by simp
  ultimately have "mean xs = a"
    by (rule mean_all_equal[rotated])
  with \<open>\<forall>x\<in>set xs. x = a\<close> have "\<forall>x\<in>set xs. x = mean xs"
    by simp
  then show "stdev xs = 0"
    using assms by (simp add: stdev_zero_iff)
qed

text \<open>
  Claim C8. For a numeric value and a sample with at least two valid entries,
  \<open>calculate_percentile\<close> returns the strict percentile rank of the value among the valid
  entries, and the result lies between 0 and 100; for a sample with fewer than two valid
  entries it returns \<open>None\<close>.
\<close>

theorem calculate_percentile_rank:
  "(2 \<le> length (valid_values sample) \<longrightarrow>
      calculate_percentile (Some v) sample
        = Some (strict_percentile_rank v (valid_values sample))
      \<and> 0 \<le> strict_percentile_rank v (valid_values sample)
      \<and> strict_percentile_rank v (valid_values sample) \<le> 100)
   \<and> (length (valid_values sample) < 2 \<longrightarrow> calculate_percentile value sample = None)"
proof (intro conjI impI)
  assume two: "2 \<le> length (valid_values sample)"
  then have ne: "valid_values sample \<noteq> []"
    by auto
  have len: "2 \<le> length sample"
    using two length_valid_values_le[of sample] by simp
  then have ne': "sample \<noteq> []"
    by auto
  have lo: "0 \<le> percentileofscore_strict (valid_values sample) v"
    and hi: "percentileofscore_strict (valid_values sample) v \<le> 100"
    using percentileofscore_strict_bounds[OF ne] by simp_all
  show "calculate_percentile (Some v) sample
          = Some (strict_percentile_rank v (valid_values sample))"
    using two len ne' lo hi
    by (simp add: calculate_percentile_def Let_def percentileofscore_strict_rank
        max_def min_def)
  show "0 \<le> strict_percentile_rank v (valid_values sample)"
    using lo by (simp add: percentileofscore_strict_rank)
  show "strict_percentile_rank v (valid_values sample) \<le> 100"
    using hi by (simp add: percentileofscore_strict_rank)
next
  assume "length (valid_values sample) < 2"
  then show "calculate_percentile value sample = None"
    by (simp add: calculate_percentile_def Let_def)
qed

theorem calculate_percentile_rank_witness:
  "calculate_percentile (Some 2) [Some 1, None, Some 2, Some 3, Some 5] = Some 25
   \<and> calculate_percentile (Some 2) [Some 1, None] = None"
proof -
  let ?s = "[Some 1, None, Some 2, Some 3, Some (5::real)]"
  have two: "2 \<le> length (valid_values ?s)"
    by simp
  have "strict_percentile_rank 2 (valid_values ?s) = percentileofscore_strict [1, 2, 3, 5] 2"
    by (simp add: percentileofscore_strict_rank)
  also have "\<dots> = 25"
    by (simp add: percentileofscore_strict_def)
  finally have r: "strict_percentile_rank 2 (valid_values ?s) = 25" .
  have one: "length (valid_values [Some (1::real), None]) < 2"
    by simp
  show ?thesis
    using calculate_percentile_rank[of ?s 2 "Some 2"] two r
      calculate_percentile_rank[of "[Some 1, None]" 2 "Some 2"] one
    by simp
qed

text \<open>
  Claim C9. For a sample with at least two valid entries that are all equal (standard
  deviation 0) \<open>calculate_z_score\<close> returns 0, whatever the value; for a sample with fewer
  than two valid entries it returns \<open>None\<close>; otherwise, for a numeric value, it returns
  \<open>(value - mean) / stdev\<close>, with a non-zero deviation.
\<close>

theorem calculate_z_score_cases:
  "(2 \<le> length (valid_values sample)
      \<and> (\<forall>x\<in>set (valid_values sample). \<forall>y\<in>set (valid_values sample). x = y)
      \<longrightarrow> calculate_z_score value sample = Some 0)
   \<and> (length (valid_values sample) < 2 \<longrightarrow> calculate_z_score value sample = None)
   \<and> (2 \<le> length (valid_values sample)
      \<and> \<not> (\<forall>x\<in>set (valid_values sample). \<forall>y\<in>set (valid_values sample). x = y)
      \<longrightarrow> stdev (valid_values sample) \<noteq> 0
        \<and> calculate_z_score (Some v) sample
            = Some ((v - mean (valid_values sample)) / stdev (valid_values sample)))"
proof (intro conjI impI)
  assume h: "2 \<le> length (valid_values sample)
      \<and> (\<forall>x\<in>set (valid_values sample). \<forall>y\<in>set (valid_values sample). x = y)"
  then have sd: "stdev (valid_values sample) = 0"
    by (simp add: stdev_zero_all_equal)
  have "2 \<le> length sample"
    using h length_valid_values_le[of sample] by simp
  then show "calculate_z_score value sample = Some 0"
    using h sd by (auto simp add: calculate_z_score_def Let_def)
next
  assume "length (valid_values sample) < 2"
  then show "calculate_z_score value sample = None"
    by (simp add: calculate_z_score_def Let_def)
next
  assume h: "2 \<le> length (valid_values sample)
      \<and> \<not> (\<forall>x\<in>set (valid_values sample). \<forall>y\<in>set (valid_values sample). x = y)"
  then show sd: "stdev (valid_values sample) \<noteq> 0"
    by (simp add: stdev_zero_all_equal)
  have "2 \<le> length sample"
    using h length_valid_values_le[of sample] by simp
  then show "calculate_z_score (Some v) sample
      = Some ((v - mean (valid_values sample)) / stdev (valid_values sample))"
    using h sd by (auto simp add: calculate_z_score_def Let_def)
qed

theorem calculate_z_score_cases_witness:
  "calculate_z_score (Some 9) [Some 4, None, Some 4, Some 4] = Some 0
   \<and> calculate_z_score (Some 9) [None, Some 4] = None
   \<and> calculate_z_score (Some 3) [Some 1, Some 3] = Some (1 / sqrt 2)"
proof -
  let ?a = "[Some 4, None, Some 4, Some (4::real)]"
  let ?b = "[None, Some (4::real)]"
  let ?c = "[Some 1, Some (3::real)]"
  have m: "mean [1, 3] = 2"
    by (simp add: mean_def)
  have s: "stdev [1, 3] = sqrt 2"
    by (simp add: stdev_def m)
  have uneq: "\<not> (\<forall>x\<in>set (valid_values ?c). \<forall>y\<in>set (valid_values ?c). x = y)"
    by simp
  show ?thesis
    using calculate_z_score_cases[of ?a "Some 9" 9]
      calculate_z_score_cases[of ?b "Some 9" 9]
      calculate_z_score_cases[of ?c "Some 3" 3] uneq m s
    by simp
qed

section \<open>Facts about the extraction unit\<close>

lemma py_truthy_dict: "d k = Some v \<Longrightarrow> py_truthy (PDict d)"
  by auto

lemma py_split1_sep:
  assumes "sep \<notin> set b"
  shows "py_split1 sep (b @ sep # k) = [b, k]"
proof -
  have all: "\<forall>x\<in>set b. x \<noteq> sep"
    using assms by blast
  have d: "dropWhile (\<lambda>c. c \<noteq> sep) (b @ sep # k) = sep # k"
    using all by (simp add: dropWhile_append3)
  have t: "takeWhile (\<lambda>c. c \<noteq> sep) (b @ sep # k) = b"
    using all by (simp add: takeWhile_tail)
  show ?thesis
    by (simp add: py_split1_def d t)
qed

lemma py_split1_cases:
  "(py_split1 sep s = [s] \<and> sep \<notin> set s)
   \<or> (\<exists>b k. sep \<notin> set b \<and> s = b @ sep # k \<and> py_split1 sep s = [b, k])"
proof (cases "sep \<in> set s")
  case True
  then obtain b k where s: "s = b @ sep # k" and nb: "sep \<notin> set b"
    by (meson split_list_first)
  then show ?thesis
    using py_split1_sep[OF nb, of k] by blast
next
  case False
  then have "\<forall>x\<in>set s. x \<noteq> sep"
    by blast
  then have dw: "dropWhile (\<lambda>c. c \<noteq> sep) s = []"
    by simp
  have "py_split1 sep s = [s]"
    unfolding py_split1_def dw by simp
  then show ?thesis
    using False by blast
qed

lemma parse_s3_uri_well_formed:
  assumes "well_formed_locator u"
  shows "\<exists>b k. b \<noteq> [] \<and> k \<noteq> [] \<and> parse_s3_uri u = (Some b, Some k)
           \<and> u = PStr (''s3://'' @ b @ ''/'' @ k)"
proof -
  from assms obtain b k where b: "b \<noteq> []" and k: "k \<noteq> []" and nb: "CHR ''/'' \<notin> set b"
    and u: "u = PStr (''s3://'' @ b @ ''/'' @ k)"
    unfolding well_formed_locator_def by blast
  have sp: "py_split1 CHR ''/'' (b @ CHR ''/'' # k) = [b, k]"
    by (rule py_split1_sep[OF nb])
  have "parse_s3_uri u = (Some b, Some k)"
    using b k sp by (simp add: parse_s3_uri_def u Let_def)
  then show ?thesis
    using b k u by blast
qed

lemma parse_s3_uri_accepts:
  assumes "parse_s3_uri u = (bucket, key)" and "\<not> falsy_str bucket" and "\<not> falsy_str key"
  shows "well_formed_locator u"
proof -
  from assms obtain s where u: "u = PStr s"
    by (cases u) (auto simp: parse_s3_uri_def falsy_str_def)
  have pre: "take 5 s = ''s3://''" and ne: "drop 5 s \<noteq> []"
    using assms unfolding u parse_s3_uri_def falsy_str_def Let_def
    by (auto split: if_splits)
  let ?path = "drop 5 s"
  have s: "s = ''s3://'' @ ?path"
    using pre append_take_drop_id[of 5 s] by simp
  have sne: "s \<noteq> []"
    using ne by auto
  from py_split1_cases[of "CHR ''/''" ?path]
  show ?thesis
  proof
    assume "py_split1 CHR ''/'' ?path = [?path] \<and> CHR ''/'' \<notin> set ?path"
    then have "parse_s3_uri u = (Some ?path, Some [])"
      using pre ne sne by (simp add: parse_s3_uri_def u Let_def)
    then show ?thesis
      using assms by (simp add: falsy_str_def)
  next
    assume "\<exists>b k. CHR ''/'' \<notin> set b \<and> ?path = b @ CHR ''/'' # k
              \<and> py_split1 CHR ''/'' ?path = [b, k]"
    then obtain b k where nb: "CHR ''/'' \<notin> set b" and p: "?path = b @ CHR ''/'' # k"
      and sp: "py_split1 CHR ''/'' ?path = [b, k]"
      by blast
    have "parse_s3_uri u = (if b \<noteq> [] then Some b else None, Some k)"
      using pre ne sne sp by (simp add: parse_s3_uri_def u Let_def)
    then have "b \<noteq> []" and "k \<noteq> []"
      using assms by (auto simp: falsy_str_def split: if_splits)
    moreover have "u = PStr (''s3://'' @ b @ ''/'' @ k)"
      using s p u by simp
    ultimately show ?thesis
      using nb unfolding well_formed_locator_def by blast
  qed
qed

lemma dict_get_truthy_default:
  "py_truthy (dict_get d k PNone) \<Longrightarrow> dict_get d k dflt = dict_get d k PNone"
  by (auto simp: dict_get_def split: option.splits)

lemma extract_invalid_locator:
  assumes id: "py_truthy (dict_get data ''application_id'' PNone)"
    and doc: "dict_get data ''document'' PNone = PDict doc"
    and tr: "py_truthy (PDict doc)"
    and bad: "\<not> well_formed_locator (dict_get doc ''s3_uri'' PNone)"
  shows "extract_single_document_flow analyze data = (True, failed_outcome data ''Invalid S3 URI'')"
proof -
  obtain b k where p: "parse_s3_uri (dict_get doc ''s3_uri'' PNone) = (b, k)"
    by (cases "parse_s3_uri (dict_get doc ''s3_uri'' PNone)")
  have f: "falsy_str b \<or> falsy_str k"
    using parse_s3_uri_accepts[OF p] bad by blast
  have d: "dict_get data ''document'' (PDict Map.empty) = PDict doc"
    using dict_get_truthy_default[of data "''document''"] doc tr by simp
  have "extract_single_document_try analyze data
          = Inr (True, failed_outcome data ''Invalid S3 URI'')"
    using id doc tr p f d
    by (simp add: extract_single_document_try_def Let_def py_then_def failed_outcome_def)
  then show ?thesis
    by (simp add: extract_single_document_flow_def)
qed

lemma extract_capability_fault:
  assumes id: "py_truthy (dict_get data ''application_id'' PNone)"
    and doc: "dict_get data ''document'' PNone = PDict doc"
    and tr: "py_truthy (PDict doc)"
    and uri: "dict_get doc ''s3_uri'' PNone = PStr (''s3://'' @ b @ ''/'' @ k)"
    and b: "b \<noteq> []" "CHR ''/'' \<notin> set b" and k: "k \<noteq> []"
    and an: "analyze b k = Inl msg"
  shows "extract_single_document_flow analyze data = (True, failed_outcome data msg)"
proof -
  have wf: "well_formed_locator (dict_get doc ''s3_uri'' PNone)"
    unfolding well_formed_locator_def using uri b k by blast
  from parse_s3_uri_well_formed[OF wf] obtain b' k' where
    "b' \<noteq> []" "k' \<noteq> []" and p: "parse_s3_uri (dict_get doc ''s3_uri'' PNone) = (Some b', Some k')"
    and u: "dict_get doc ''s3_uri'' PNone = PStr (''s3://'' @ b' @ ''/'' @ k')"
    by blast
  have sp: "py_split1 CHR ''/'' (b @ CHR ''/'' # k) = [b, k]"
    by (rule py_split1_sep[OF b(2)])
  have p': "parse_s3_uri (dict_get doc ''s3_uri'' PNone) = (Some b, Some k)"
    using b k sp by (simp add: parse_s3_uri_def uri Let_def)
  have d: "dict_get data ''document'' (PDict Map.empty) = PDict doc"
    using dict_get_truthy_default[of data "''document''"] doc tr by simp
  have t: "textractor_document_analysis analyze b k = (''FAILED'', msg)"
    using b k an by (simp add: textractor_document_analysis_def)
  have "extract_single_document_try analyze data = Inr (True, failed_outcome data msg)"
    using id doc tr p' b k d t
    by (simp add: extract_single_document_try_def Let_def py_then_def failed_outcome_def
        falsy_str_def)
  then show ?thesis
    by (simp add: extract_single_document_flow_def)
qed

lemma extract_try_outcome:
  assumes id: "py_truthy (dict_get data ''application_id'' PNone)"
    and tr: "py_truthy (dict_get data ''document'' PNone)"
    and r: "extract_single_document_try analyze data = Inr r"
  shows "\<exists>out. r = (True, PDict out)
           \<and> (out (KStr ''status'') = Some (PStr ''success'')
              \<or> (out (KStr ''status'') = Some (PStr ''failed'')
                  \<and> out (KStr ''error'') \<noteq> None
                  \<and> out (KStr ''content'') = Some (PStr [])))"
proof (cases "dict_get data ''document'' PNone")
  case (PDict doc)
  obtain b k where p: "parse_s3_uri (dict_get doc ''s3_uri'' PNone) = (b, k)"
    by (cases "parse_s3_uri (dict_get doc ''s3_uri'' PNone)")
  obtain st res where t: "textractor_document_analysis analyze
      (case b of None \<Rightarrow> [] | Some b \<Rightarrow> b) (case k of None \<Rightarrow> [] | Some k \<Rightarrow> k) = (st, res)"
    by (cases "textractor_document_analysis analyze
      (case b of None \<Rightarrow> [] | Some b \<Rightarrow> b) (case k of None \<Rightarrow> [] | Some k \<Rightarrow> k)")
  show ?thesis
    using id tr r PDict p t
    by (auto simp: extract_single_document_try_def Let_def py_then_def py_dict_def
        split: if_splits)
qed (use assms in \<open>auto simp: extract_single_document_try_def Let_def py_then_def\<close>)

text \<open>
  Claim C7. A request that carries an application id and a task: when the task's locator
  is not of the form \<^verbatim>\<open>s3://container/key\<close> with a non-empty container and a non-empty
  key, the unit returns the failed outcome with the error \<^verbatim>\<open>Invalid S3 URI\<close> and empty
  content; a fault of the capability on a well-formed locator gives the failed outcome
  with the capability's message; every exception inside the unit gives the failed outcome
  with the exception's description; and in every case the unit returns an outcome that is
  a success or a failure with an error and empty content: no fault reaches the caller.
\<close>

theorem extract_single_document_flow_failed:
  assumes "py_truthy (dict_get data ''application_id'' PNone)"
    and "py_truthy (dict_get data ''document'' PNone)"
  shows "(\<forall>doc. dict_get data ''document'' PNone = PDict doc
             \<and> \<not> well_formed_locator (dict_get doc ''s3_uri'' PNone)
           \<longrightarrow> extract_single_document_flow analyze data
                 = (True, failed_outcome data ''Invalid S3 URI''))
       \<and> (\<forall>doc b k msg. dict_get data ''document'' PNone = PDict doc
             \<and> dict_get doc ''s3_uri'' PNone = PStr (''s3://'' @ b @ ''/'' @ k)
             \<and> b \<noteq> [] \<and> CHR ''/'' \<notin> set b \<and> k \<noteq> [] \<and> analyze b k = Inl msg
           \<longrightarrow> extract_single_document_flow analyze data = (True, failed_outcome data msg))
       \<and> (\<forall>e. extract_single_document_try analyze data = Inl e
           \<longrightarrow> extract_single_document_flow analyze data
                 = (True, failed_outcome data (exn_str e)))
       \<and> (\<exists>out. extract_single_document_flow analyze data = (True, PDict out)
             \<and> (out (KStr ''status'') = Some (PStr ''success'')
                \<or> (out (KStr ''status'') = Some (PStr ''failed'')
                    \<and> out (KStr ''error'') \<noteq> None
                    \<and> out (KStr ''content'') = Some (PStr []))))"
proof (intro conjI allI impI)
  fix doc
  assume h: "dict_get data ''document'' PNone = PDict doc
             \<and> \<not> well_formed_locator (dict_get doc ''s3_uri'' PNone)"
  then have "py_truthy (PDict doc)"
    using assms(2) by simp
  then show "extract_single_document_flow analyze data
                 = (True, failed_outcome data ''Invalid S3 URI'')"
    using extract_invalid_locator[OF assms(1)] h by blast
next
  fix doc b k msg
  assume h: "dict_get data ''document'' PNone = PDict doc
             \<and> dict_get doc ''s3_uri'' PNone = PStr (''s3://'' @ b @ ''/'' @ k)
             \<and> b \<noteq> [] \<and> CHR ''/'' \<notin> set b \<and> k \<noteq> [] \<and> analyze b k = Inl msg"
  then have "py_truthy (PDict doc)"
    using assms(2) by simp
  then show "extract_single_document_flow analyze data = (True, failed_outcome data msg)"
    using extract_capability_fault[OF assms(1), of doc b k analyze msg] h by blast
next
  fix e
  assume "extract_single_document_try analyze data = Inl e"
  then show "extract_single_document_flow analyze data
                 = (True, failed_outcome data (exn_str e))"
    by (simp add: extract_single_document_flow_def failed_outcome_def)
next
  show "\<exists>out. extract_single_document_flow analyze data = (True, PDict out)
             \<and> (out (KStr ''status'') = Some (PStr ''success'')
                \<or> (out (KStr ''status'') = Some (PStr ''failed'')
                    \<and> out (KStr ''error'') \<noteq> None
                    \<and> out (KStr ''content'') = Some (PStr [])))"
  proof (cases "extract_single_document_try analyze data")
    case (Inl e)
    then show ?thesis
      by (simp add: extract_single_document_flow_def py_dict_def)
  next
    case (Inr r)
    from extract_try_outcome[OF assms Inr] show ?thesis
      using Inr by (auto simp: extract_single_document_flow_def)
  qed
qed

theorem extract_single_document_flow_failed_witness:
  "extract_single_document_flow (\<lambda>b k. Inl ''timeout'') request_empty_bucket
     = (True, failed_outcome request_empty_bucket ''Invalid S3 URI'')
   \<and> extract_single_document_flow (\<lambda>b k. Inl ''timeout'') request_good
     = (True, failed_outcome request_good ''timeout'')
   \<and> extract_single_document_flow (\<lambda>b k. Inl ''timeout'') request_no_dict
     = (True, failed_outcome request_no_dict ''AttributeError'')"
proof -
  let ?an = "\<lambda>(b::string) (k::string). (Inl ''timeout'' :: string + string)"
  let ?doc1 = "[KStr ''s3_uri'' \<mapsto> PStr ''s3:///k.pdf'', KStr ''document_key'' \<mapsto> PStr ''sop'']"
  let ?doc2 = "[KStr ''s3_uri'' \<mapsto> PStr ''s3://b/k'', KStr ''document_key'' \<mapsto> PStr ''sop'']"
  have bad: "\<not> well_formed_locator (dict_get ?doc1 ''s3_uri'' PNone)"
    by (auto simp: well_formed_locator_def Cons_eq_append_conv dict_get_def)
  have a1: "py_truthy (dict_get request_empty_bucket ''application_id'' PNone)"
    by (simp add: request_empty_bucket_def dict_get_def)
  have g1: "dict_get request_empty_bucket ''document'' PNone = PDict ?doc1"
    by (simp add: request_empty_bucket_def dict_get_def py_dict_def)
  have d1: "py_truthy (dict_get request_empty_bucket ''document'' PNone)"
    unfolding g1 by (rule py_truthy_dict[of _ "KStr ''s3_uri''"]) simp
  have a2: "py_truthy (dict_get request_good ''application_id'' PNone)"
    by (simp add: request_good_def dict_get_def)
  have g2: "dict_get request_good ''document'' PNone = PDict ?doc2"
    by (simp add: request_good_def dict_get_def py_dict_def)
  have d2: "py_truthy (dict_get request_good ''document'' PNone)"
    unfolding g2 by (rule py_truthy_dict[of _ "KStr ''s3_uri''"]) simp
  have u2: "dict_get ?doc2 ''s3_uri'' PNone = PStr (''s3://'' @ ''b'' @ ''/'' @ ''k'')"
    by (simp add: dict_get_def)
  have a3: "py_truthy (dict_get request_no_dict ''application_id'' PNone)"
    and d3: "py_truthy (dict_get request_no_dict ''document'' PNone)"
    by (simp_all add: request_no_dict_def dict_get_def)
  have e3: "extract_single_document_try ?an request_no_dict = Inl AttributeError"
    by (simp add: extract_single_document_try_def request_no_dict_def dict_get_def
        py_then_def)
  have t1: "extract_single_document_flow ?an request_empty_bucket
     = (True, failed_outcome request_empty_bucket ''Invalid S3 URI'')"
    using extract_single_document_flow_failed[OF a1 d1, of ?an] g1 bad by blast
  have t2: "extract_single_document_flow ?an request_good
     = (True, failed_outcome request_good ''timeout'')"
    using extract_single_document_flow_failed[OF a2 d2, of ?an, THEN conjunct2, THEN conjunct1,
        rule_format, of ?doc2 "''b''" "''k''" "''timeout''"] g2 u2
    by simp
  have t3: "extract_single_document_flow ?an request_no_dict
     = (True, failed_outcome request_no_dict ''AttributeError'')"
    using extract_single_document_flow_failed[OF a3 d3, of ?an] e3 by simp
  show ?thesis
    using t1 t2 t3 by simp
qed
section \<open>Facts about consolidation\<close>

lemma py_then_Inr [simp]: "py_then (Inr x) f = f x"
  by (simp add: py_then_def)

lemma py_then_Inl [simp]: "py_then (Inl e) f = Inl e"
  by (simp add: py_then_def)

lemma py_then_eq_Inr:
  "py_then m f = Inr y \<longleftrightarrow> (\<exists>x. m = Inr x \<and> f x = Inr y)"
  by (cases m) auto

lemma consolidate_result_status:
  "consolidate_result (student, a, b, c) w =
     py_then (wrapper_result w) (\<lambda>result.
     py_then (py_get result ''status'' PNone) (\<lambda>status.
       if status = PStr ''success'' then
         py_then (py_get result ''document'' (PDict Map.empty)) (\<lambda>document.
         py_then (py_get result ''content'' (PStr [])) (\<lambda>content.
         py_then (py_get document ''document_type'' PNone) (\<lambda>document_type.
         py_then
           (if document_type = PStr ''main'' then store_main student document content
            else if document_type = PStr ''nested'' then store_nested student document content
            else Inr student)
           (\<lambda>student'. Inr (student', a + 1, b, c)))))
       else if status = PStr ''failed'' then Inr (student, a, b + 1, c)
       else Inr (student, a, b, c + 1)))"
  by (cases "py_get w ''Payload'' (PDict Map.empty)")
     (simp_all add: consolidate_result_def wrapper_result_def)

lemma consolidate_result_failed:
  assumes "wrapper_status w = Inr (PStr ''failed'')"
  shows "consolidate_result (student, a, b, c) w = Inr (student, a, b + 1, c)"
  using assms unfolding consolidate_result_status wrapper_status_def
  by (cases "wrapper_result w") auto

lemma consolidate_result_skipped:
  assumes "wrapper_status w = Inr status" "status \<noteq> PStr ''success''" "status \<noteq> PStr ''failed''"
  shows "consolidate_result (student, a, b, c) w = Inr (student, a, b, c + 1)"
  using assms unfolding consolidate_result_status wrapper_status_def
  by (cases "wrapper_result w") auto

lemma consolidate_result_raises:
  assumes "wrapper_status w = Inl e"
  shows "consolidate_result st w = Inl e"
proof -
  obtain student a b c where st: "st = (student, a, b, c)"
    by (cases st) auto
  show ?thesis
    using assms unfolding st consolidate_result_status wrapper_status_def
    by (cases "wrapper_result w") auto
qed

lemma consolidate_result_count:
  assumes "consolidate_result (student, a, b, c) w = Inr (student', a', b', c')"
  shows "a' + b' + c' = a + b + c + 1"
  using assms unfolding consolidate_result_status
  by (auto simp: py_then_eq_Inr split: if_splits)

lemma consolidate_loop_count:
  "consolidate_loop (student, a, b, c) ws = Inr (student', a', b', c')
     \<Longrightarrow> a' + b' + c' = a + b + c + length ws"
proof (induction ws arbitrary: student a b c)
  case Nil
  then show ?case by simp
next
  case (Cons w ws)
  from Cons.prems obtain st where s1: "consolidate_result (student, a, b, c) w = Inr st"
    and s2: "consolidate_loop st ws = Inr (student', a', b', c')"
    by (auto simp: py_then_eq_Inr)
  obtain s1' a1 b1 c1 where st: "st = (s1', a1, b1, c1)"
    by (cases st) auto
  have "a1 + b1 + c1 = a + b + c + 1"
    using consolidate_result_count s1 st by blast
  moreover have "a' + b' + c' = a1 + b1 + c1 + length ws"
    using Cons.IH s2 st by blast
  ultimately show ?case by simp
qed

lemma wrapper_status_missing_payload:
  "d (KStr ''Payload'') = None \<Longrightarrow> wrapper_status (PDict d) = Inr PNone"
  by (simp add: wrapper_status_def wrapper_result_def dict_get_def)

lemma wrapper_status_missing_result:
  "d (KStr ''Payload'') = Some (PDict p) \<Longrightarrow> p (KStr ''result'') = None
     \<Longrightarrow> wrapper_status (PDict d) = Inr PNone"
  by (simp add: wrapper_status_def wrapper_result_def dict_get_def)

lemma flow_success_summary:
  assumes ok: "consolidate_extraction_results_flow accepts store data = (store', True, out)"
    and ws: "dict_get data ''extraction_results'' (PList []) = PList wrappers"
  shows "\<exists>a b c. summary_of out
            = Some (PNum (real a), PNum (real b), PNum (real c), PNum (real (length wrappers)))
          \<and> a + b + c = length wrappers"
proof -
  have t: "consolidate_extraction_results_try accepts store data = Inr (store', True, out)"
    using ok unfolding consolidate_extraction_results_flow_def
    by (cases "consolidate_extraction_results_try accepts store data") auto
  then obtain student st s'' where
    loop: "consolidate_loop (student, 0, 0, 0) wrappers = Inr st"
    and out: "out = (case st of (student', successful, failed, skipped) \<Rightarrow> py_dict
                               [(''application_id'', dict_get data ''application_id'' PNone),
                                (''summary'', py_dict
                                   [(''successful'', PNum (real successful)),
                                    (''failed'', PNum (real failed)),
                                    (''skipped'', PNum (real skipped)),
                                    (''total'', PNum (real (length wrappers)))])])"
    unfolding consolidate_extraction_results_try_def Let_def ws
    by (auto simp: py_then_eq_Inr split: if_splits option.splits prod.splits)
  obtain s1 a b c where st: "st = (s1, a, b, c)"
    by (cases st) auto
  have "a + b + c = length wrappers"
    using consolidate_loop_count[of student 0 0 0 wrappers s1 a b c] loop st by simp
  moreover have "summary_of out
            = Some (PNum (real a), PNum (real b), PNum (real c), PNum (real (length wrappers)))"
    by (simp add: out st summary_of_def py_dict_def)
  ultimately show ?thesis by blast
qed

lemma dict_nonempty: "d k = Some v \<Longrightarrow> d \<noteq> Map.empty"
  by auto

lemma dynamodb_put_item_ok:
  assumes "item (KStr ''application_id'') = Some (PStr k)" and "accepts item"
  shows "dynamodb_put_item accepts store item t = Inr (store(t := (store t)(k \<mapsto> item)))"
  using assms dict_nonempty[of item "KStr ''application_id''"]
  by (simp add: dynamodb_put_item_def)

lemma student_1_id: "student_1 (KStr ''application_id'') = Some (PStr ''A1'')"
  by (simp add: student_1_def)

lemma student_1_nonempty: "student_1 \<noteq> Map.empty"
  using dict_nonempty[of student_1 "KStr ''application_id''"] student_1_id by simp

lemma get_student_1:
  "dynamodb_get_item store_1 (PStr ''A1'') ApplicationTable = Inr (Some student_1)"
  by (simp add: dynamodb_get_item_def store_1_def)

lemma wrapper_status_examples:
  "wrapper_status (main_success k c) = Inr (PStr ''success'')"
  "wrapper_status failed_result = Inr (PStr ''failed'')"
  "wrapper_status (PDict Map.empty) = Inr PNone"
  "wrapper_status (py_dict [(''Payload'', PStr ''timeout'')]) = Inl AttributeError"
  by (simp_all add: wrapper_status_def wrapper_result_def main_success_def failed_result_def
      wrap_def py_dict_def dict_get_def)

lemma consolidate_main_success:
  "k \<noteq> [] \<Longrightarrow> consolidate_result (student, a, b, c) (main_success k content)
     = Inr (student(KStr k \<mapsto> PStr content), a + 1, b, c)"
  by (simp add: consolidate_result_status wrapper_result_def main_success_def wrap_def
      py_dict_def dict_get_def store_main_def)

lemma flow_mixed:
  "\<exists>store' out. consolidate_extraction_results_flow (\<lambda>item. True) store_1
     (consolidate_request [main_success ''sop_content'' ''text'', failed_result, PDict Map.empty])
   = (store', True, out)"
proof -
  have l: "consolidate_loop (student_1, 0, 0, 0)
             [main_success ''sop_content'' ''text'', failed_result, PDict Map.empty]
           = Inr (student_1(KStr ''sop_content'' \<mapsto> PStr ''text''), 1, 1, 1)"
    by (simp add: consolidate_main_success
        consolidate_result_failed[OF wrapper_status_examples(2)]
        consolidate_result_skipped[OF wrapper_status_examples(3)])
  have p': "dynamodb_put_item (\<lambda>item. True) store_1
        (student_1(KStr ''sop_content'' \<mapsto> PStr ''text'',
           KStr ''application_status'' \<mapsto> PStr ''Evaluation in-progress'')) ApplicationTable
        = Inr (store_1(ApplicationTable := (store_1 ApplicationTable)(''A1'' \<mapsto>
            student_1(KStr ''sop_content'' \<mapsto> PStr ''text'',
           KStr ''application_status'' \<mapsto> PStr ''Evaluation in-progress''))))"
    by (rule dynamodb_put_item_ok) (simp_all add: student_1_id)
  show ?thesis
    by (simp add: consolidate_extraction_results_flow_def consolidate_extraction_results_try_def
        consolidate_request_def dict_get_def get_student_1 student_1_nonempty l p'
        del: consolidate_loop.simps)
qed
lemma store_indexed_out_of_range:
  "int (length xs) \<le> idx \<Longrightarrow> store_indexed (PList xs) idx content_key content = Inr (PList xs)"
  by (simp add: store_indexed_def)

lemma store_work_out_of_range:
  assumes "2 \<le> length parts" and "py_int (parts ! 1) = Inr idx"
    and "student (KStr ''work_experience'') = Some (PList xs)" and "int (length xs) \<le> idx"
  shows "store_work student parts content_key content = Inr student"
proof -
  have "student(KStr ''work_experience'' \<mapsto> PList xs) = student"
    using assms(3) by (rule map_upd_triv)
  then show ?thesis
    using assms by (simp add: store_work_def store_indexed_out_of_range)
qed

lemma store_project_out_of_range:
  assumes "3 \<le> length parts" and "py_int (parts ! 2) = Inr idx"
    and "student (KStr ''research_experience'') = Some (PDict research)"
    and "research (KStr ''projects'') = Some (PList xs)" and "int (length xs) \<le> idx"
  shows "store_project student parts content_key content = Inr student"
proof -
  have r: "research(KStr ''projects'' \<mapsto> PList xs) = research"
    using assms(4) by (rule map_upd_triv)
  have s: "student(KStr ''research_experience'' \<mapsto> PDict research) = student"
    using assms(3) by (rule map_upd_triv)
  show ?thesis
    using assms r s by (simp add: store_project_def store_indexed_out_of_range)
qed

lemma consolidate_result_nested:
  assumes "successful_nested w pp"
  shows "\<exists>document content.
           document (KStr ''parent_path'') = Some (PStr pp)
           \<and> consolidate_result (student, a, b, c) w =
               py_then (store_nested student (PDict document) content)
                 (\<lambda>student'. Inr (student', a + 1, b, c))"
proof -
  from assms obtain result document where
    r: "wrapper_result w = Inr (PDict result)"
    and st: "result (KStr ''status'') = Some (PStr ''success'')"
    and d: "result (KStr ''document'') = Some (PDict document)"
    and ty: "document (KStr ''document_type'') = Some (PStr ''nested'')"
    and pp: "document (KStr ''parent_path'') = Some (PStr pp)"
    unfolding successful_nested_def by blast
  have "consolidate_result (student, a, b, c) w =
          py_then (store_nested student (PDict document) (dict_get result ''content'' (PStr [])))
            (\<lambda>student'. Inr (student', a + 1, b, c))"
    using r st d ty by (simp add: consolidate_result_status dict_get_def)
  then show ?thesis
    using pp by blast
qed

lemma store_nested_work:
  assumes "document (KStr ''parent_path'') = Some (PStr pp)"
    and "\<not> is_substr ''personal_information'' pp"
    and "\<not> is_substr ''research_experience.projects'' pp"
    and "is_substr ''work_experience'' pp"
  shows "store_nested student (PDict document) content
          = store_work student (py_split CHR ''.'' pp)
              (dict_get document ''content_key'' PNone) content"
  using assms by (simp add: store_nested_def dict_get_def)

lemma store_nested_project:
  assumes "document (KStr ''parent_path'') = Some (PStr pp)"
    and "\<not> is_substr ''personal_information'' pp"
    and "is_substr ''research_experience.projects'' pp"
  shows "store_nested student (PDict document) content
          = store_project student (py_split CHR ''.'' pp)
              (dict_get document ''content_key'' PNone) content"
  using assms by (simp add: store_nested_def dict_get_def)

text \<open>
  Claim C3, as amended. A successful result for a nested document whose \<^verbatim>\<open>parent_path\<close>
  leads to the work-experience list, or to the project list, with an index that is not
  below the current length of that list: the turn of the loop raises nothing, returns the
  record unchanged (so the list keeps its elements and its length), and counts the result
  among the successful ones, as it does for a write that took place; the failure counter
  does not move. The loop has no counter for a dropped write.
\<close>

theorem consolidate_shrunk_list:
  "(successful_nested w pp
      \<and> \<not> is_substr ''personal_information'' pp
      \<and> \<not> is_substr ''research_experience.projects'' pp
      \<and> is_substr ''work_experience'' pp
      \<and> 2 \<le> length (py_split CHR ''.'' pp)
      \<and> py_int (py_split CHR ''.'' pp ! 1) = Inr idx
      \<and> student (KStr ''work_experience'') = Some (PList xs)
      \<and> int (length xs) \<le> idx
    \<longrightarrow> consolidate_result (student, a, b, c) w = Inr (student, a + 1, b, c))
   \<and> (successful_nested w pp
      \<and> \<not> is_substr ''personal_information'' pp
      \<and> is_substr ''research_experience.projects'' pp
      \<and> 3 \<le> length (py_split CHR ''.'' pp)
      \<and> py_int (py_split CHR ''.'' pp ! 2) = Inr idx
      \<and> student (KStr ''research_experience'') = Some (PDict research)
      \<and> research (KStr ''projects'') = Some (PList xs)
      \<and> int (length xs) \<le> idx
    \<longrightarrow> consolidate_result (student, a, b, c) w = Inr (student, a + 1, b, c))"
proof (intro conjI impI)
  assume h: "successful_nested w pp
      \<and> \<not> is_substr ''personal_information'' pp
      \<and> \<not> is_substr ''research_experience.projects'' pp
      \<and> is_substr ''work_experience'' pp
      \<and> 2 \<le> length (py_split CHR ''.'' pp)
      \<and> py_int (py_split CHR ''.'' pp ! 1) = Inr idx
      \<and> student (KStr ''work_experience'') = Some (PList xs)
      \<and> int (length xs) \<le> idx"
  then obtain document content where
    pp: "document (KStr ''parent_path'') = Some (PStr pp)"
    and r: "consolidate_result (student, a, b, c) w =
               py_then (store_nested student (PDict document) content)
                 (\<lambda>student'. Inr (student', a + 1, b, c))"
    using consolidate_result_nested[of w pp student a b c] by blast
  have "store_nested student (PDict document) content = Inr student"
    using h pp store_nested_work[of document pp student content]
      store_work_out_of_range[of "py_split CHR ''.'' pp" idx student xs]
    by simp
  then show "consolidate_result (student, a, b, c) w = Inr (student, a + 1, b, c)"
    using r by simp
next
  assume h: "successful_nested w pp
      \<and> \<not> is_substr ''personal_information'' pp
      \<and> is_substr ''research_experience.projects'' pp
      \<and> 3 \<le> length (py_split CHR ''.'' pp)
      \<and> py_int (py_split CHR ''.'' pp ! 2) = Inr idx
      \<and> student (KStr ''research_experience'') = Some (PDict research)
      \<and> research (KStr ''projects'') = Some (PList xs)
      \<and> int (length xs) \<le> idx"
  then obtain document content where
    pp: "document (KStr ''parent_path'') = Some (PStr pp)"
    and r: "consolidate_result (student, a, b, c) w =
               py_then (store_nested student (PDict document) content)
                 (\<lambda>student'. Inr (student', a + 1, b, c))"
    using consolidate_result_nested[of w pp student a b c] by blast
  have "store_nested student (PDict document) content = Inr student"
    using h pp store_nested_project[of document pp student content]
      store_project_out_of_range[of "py_split CHR ''.'' pp" idx student research xs]
    by simp
  then show "consolidate_result (student, a, b, c) w = Inr (student, a + 1, b, c)"
    using r by simp
qed

lemma successful_nested_example:
  "successful_nested (nested_success pp k content) pp"
  by (simp add: successful_nested_def nested_success_def wrap_def wrapper_result_def
      py_dict_def dict_get_def)

lemma py_int_digit:
  "py_int ''1'' = Inr 1" "py_int ''2'' = Inr 2" "py_int ''0'' = Inr 0"
  by (simp_all add: py_int_def py_strip_def py_space_def py_unsigned_def digit_val_def
      max_str_digits_def)

theorem consolidate_shrunk_list_witness:
  "consolidate_result (student_1, 0, 0, 0)
      (nested_success ''work_experience.2'' ''certificate_content'' ''text'')
     = Inr (student_1, 1, 0, 0)
   \<and> consolidate_result (student_2, 0, 0, 0)
      (nested_success ''research_experience.projects.1'' ''report_content'' ''text'')
     = Inr (student_2, 1, 0, 0)"
proof -
  let ?w1 = "nested_success ''work_experience.2'' ''certificate_content'' ''text''"
  let ?w2 = "nested_success ''research_experience.projects.1'' ''report_content'' ''text''"
  have w1: "student_1 (KStr ''work_experience'')
      = Some (PList [py_dict [(''certificate_document'', PStr ''s3://b/c0.pdf'')],
               py_dict [(''employer'', PStr ''ACME'')]])"
    by (simp add: student_1_def)
  have w2: "student_2 (KStr ''research_experience'')
      = Some (PDict [KStr ''projects'' \<mapsto>
          PList [py_dict [(''publication_document'', PStr ''s3://b/p0.pdf'')]]])"
    by (simp add: student_2_def py_dict_def)
  have t1: "consolidate_result (student_1, 0, 0, 0) ?w1 = Inr (student_1, 0 + 1, 0, 0)"
    by (rule consolidate_shrunk_list[THEN conjunct1, rule_format,
          of _ "''work_experience.2''" 2 _
             "[py_dict [(''certificate_document'', PStr ''s3://b/c0.pdf'')],
               py_dict [(''employer'', PStr ''ACME'')]]"])
       (simp add: successful_nested_example py_int_digit w1)
  have t2: "consolidate_result (student_2, 0, 0, 0) ?w2 = Inr (student_2, 0 + 1, 0, 0)"
    by (rule consolidate_shrunk_list[THEN conjunct2, rule_format,
          of _ "''research_experience.projects.1''" 1 _
             "[KStr ''projects'' \<mapsto>
                PList [py_dict [(''publication_document'', PStr ''s3://b/p0.pdf'')]]]"
             "[py_dict [(''publication_document'', PStr ''s3://b/p0.pdf'')]]"])
       (simp add: successful_nested_example py_int_digit w2)
  show ?thesis
    using t1 t2 by simp
qed

text \<open>
  Claim C10, as amended. For a list of result wrappers, whenever the flow returns a
  summary, successful + failed + skipped = total = length of the list. A wrapper whose
  status is neither \<^verbatim>\<open>success\<close> nor \<^verbatim>\<open>failed\<close> is counted as skipped and leaves the
  record as it is; that includes a wrapper without \<^verbatim>\<open>Payload\<close> and a payload without
  \<^verbatim>\<open>result\<close>. A wrapper, payload or result that is not a dictionary raises, and the
  turn of the loop fails with that exception.
\<close>

theorem consolidate_summary_counts:
  "(dict_get data ''extraction_results'' (PList []) = PList wrappers
      \<and> consolidate_extraction_results_flow accepts store data = (store', True, out)
    \<longrightarrow> (\<exists>successful failed skipped.
           summary_of out = Some (PNum (real successful), PNum (real failed),
                                  PNum (real skipped), PNum (real (length wrappers)))
           \<and> successful + failed + skipped = length wrappers))
   \<and> (wrapper_status w = Inr status \<and> status \<noteq> PStr ''success'' \<and> status \<noteq> PStr ''failed''
    \<longrightarrow> consolidate_result (student, a, b, c) w = Inr (student, a, b, c + 1))
   \<and> (d (KStr ''Payload'') = None \<longrightarrow> wrapper_status (PDict d) = Inr PNone)
   \<and> (d (KStr ''Payload'') = Some (PDict p) \<and> p (KStr ''result'') = None
    \<longrightarrow> wrapper_status (PDict d) = Inr PNone)
   \<and> (wrapper_status w = Inl e \<longrightarrow> consolidate_result (student, a, b, c) w = Inl e)"
proof (intro conjI impI)
  assume "dict_get data ''extraction_results'' (PList []) = PList wrappers
      \<and> consolidate_extraction_results_flow accepts store data = (store', True, out)"
  then show "\<exists>successful failed skipped.
           summary_of out = Some (PNum (real successful), PNum (real failed),
                                  PNum (real skipped), PNum (real (length wrappers)))
           \<and> successful + failed + skipped = length wrappers"
    using flow_success_summary[of accepts store data store' out wrappers] by blast
next
  assume "wrapper_status w = Inr status \<and> status \<noteq> PStr ''success'' \<and> status \<noteq> PStr ''failed''"
  then show "consolidate_result (student, a, b, c) w = Inr (student, a, b, c + 1)"
    using consolidate_result_skipped[of w status student a b c] by blast
next
  assume "d (KStr ''Payload'') = None"
  then show "wrapper_status (PDict d) = Inr PNone"
    by (rule wrapper_status_missing_payload)
next
  assume "d (KStr ''Payload'') = Some (PDict p) \<and> p (KStr ''result'') = None"
  then show "wrapper_status (PDict d) = Inr PNone"
    using wrapper_status_missing_result[of d p] by blast
next
  assume "wrapper_status w = Inl e"
  then show "consolidate_result (student, a, b, c) w = Inl e"
    by (rule consolidate_result_raises)
qed

theorem consolidate_summary_counts_witness:
  "(\<exists>store' out.
      consolidate_extraction_results_flow (\<lambda>item. True) store_1
        (consolidate_request
           [main_success ''sop_content'' ''text'', failed_result, PDict Map.empty])
        = (store', True, out)
      \<and> (\<exists>successful failed skipped.
            summary_of out = Some (PNum (real successful), PNum (real failed),
                                   PNum (real skipped), PNum 3)
            \<and> successful + failed + skipped = 3))
   \<and> consolidate_result (student_1, 0, 0, 0) (PDict Map.empty) = Inr (student_1, 0, 0, 1)
   \<and> consolidate_result (student_1, 0, 0, 0) (py_dict [(''Payload'', PStr ''timeout'')])
        = Inl AttributeError"
proof -
  let ?ws = "[main_success ''sop_content'' ''text'', failed_result, PDict Map.empty]"
  let ?data = "consolidate_request ?ws"
  from flow_mixed obtain store' out where
    f: "consolidate_extraction_results_flow (\<lambda>item. True) store_1 ?data = (store', True, out)"
    by blast
  have g: "dict_get ?data ''extraction_results'' (PList []) = PList ?ws"
    by (simp add: consolidate_request_def dict_get_def)
  have "\<exists>successful failed skipped.
            summary_of out = Some (PNum (real successful), PNum (real failed),
                                   PNum (real skipped), PNum (real (length ?ws)))
            \<and> successful + failed + skipped = length ?ws"
    using consolidate_summary_counts[of ?data ?ws "\<lambda>item. True" store_1 store' out,
        THEN conjunct1] f g by blast
  then have p1: "\<exists>successful failed skipped.
            summary_of out = Some (PNum (real successful), PNum (real failed),
                                   PNum (real skipped), PNum 3)
            \<and> successful + failed + skipped = 3"
    by (simp add: eval_nat_numeral)
  have p2: "consolidate_result (student_1, 0, 0, 0) (PDict Map.empty) = Inr (student_1, 0, 0, 1)"
    using consolidate_summary_counts[of ?data ?ws "\<lambda>item. True" store_1 store' out
        "PDict Map.empty" PNone student_1 0 0 0]
      wrapper_status_examples(3) by simp
  have p3: "consolidate_result (student_1, 0, 0, 0) (py_dict [(''Payload'', PStr ''timeout'')])
        = Inl AttributeError"
    using consolidate_summary_counts[of ?data ?ws "\<lambda>item. True" store_1 store' out
        "py_dict [(''Payload'', PStr ''timeout'')]" _ student_1 0 0 0 _ _ AttributeError]
      wrapper_status_examples(4) by simp
  show ?thesis
    using f p1 p2 p3 by blast
qed

text \<open>
  Claim C10 as stated fails: a wrapper whose \<^verbatim>\<open>Payload\<close> is a string is not counted as
  skipped. The flow fails and returns no summary.
\<close>

theorem consolidate_malformed_payload:
  "consolidate_extraction_results_flow (\<lambda>item. True) store_1
     (consolidate_request [py_dict [(''Payload'', PStr ''timeout'')]])
   = (store_1, False, PStr ''Failed to consolidate results: AttributeError'')"
proof -
  have "consolidate_result (student_1, 0, 0, 0) (py_dict [(''Payload'', PStr ''timeout'')])
          = Inl AttributeError"
    by (rule consolidate_result_raises) (rule wrapper_status_examples)
  then have "consolidate_extraction_results_try (\<lambda>item. True) store_1
     (consolidate_request [py_dict [(''Payload'', PStr ''timeout'')]]) = Inl AttributeError"
    by (simp add: consolidate_extraction_results_try_def consolidate_request_def dict_get_def
        get_student_1 student_1_nonempty)
  then show ?thesis
    by (simp add: consolidate_extraction_results_flow_def)
qed

section \<open>Facts about the resolver\<close>

lemma present_locator_dict:
  "present_locator k (PDict d)
     = Inr (case d (KStr k) of None \<Rightarrow> None | Some v \<Rightarrow> if py_truthy v then Some v else None)"
  by (simp add: present_locator_def split: option.splits)

lemma emit_present_locator:
  assumes "field x k = lo"
  shows "emit (case lo of None \<Rightarrow> None | Some v \<Rightarrow> if py_truthy v then Some v else None) task
     = map (\<lambda>u. task (case lo of None \<Rightarrow> PNone | Some v \<Rightarrow> v))
         (filter (\<lambda>u. case lo of None \<Rightarrow> False | Some v \<Rightarrow> py_truthy v) [()])"
  by (cases lo) (simp_all add: emit_def)

lemma registry_distinct: "distinct (map fst document_mapping)"
  by (simp add: document_mapping_def)

lemma content_key_of_registry:
  "(doc_key, content_key) \<in> set document_mapping \<Longrightarrow> content_key_of doc_key = content_key"
  using registry_distinct by (simp add: content_key_of_def)

lemma has_document_main:
  "student (KStr ''documents'') = Some (PDict d)
     \<Longrightarrow> has_document student (MainDoc k)
         = (case d (KStr k) of None \<Rightarrow> False | Some v \<Rightarrow> py_truthy v)"
  by (simp add: has_document_def field_def)

lemma locator_main:
  "student (KStr ''documents'') = Some (PDict d) \<Longrightarrow> locator student (MainDoc k) = d (KStr k)"
  by (simp add: field_def)

lemma main_documents_dict:
  assumes docs: "student (KStr ''documents'') = Some (PDict d)"
    and sub: "set m \<subseteq> set document_mapping"
  shows "main_documents application_id (PDict d) m
     = Inr (map (task_of application_id student)
             (filter (has_document student) (map (\<lambda>(doc_key, content_key). MainDoc doc_key) m)))"
  using sub
proof (induction m)
  case Nil
  then show ?case by simp
next
  case (Cons p m)
  obtain doc_key content_key where p: "p = (doc_key, content_key)"
    by (cases p)
  have ck: "content_key_of doc_key = content_key"
    using Cons.prems p by (simp add: content_key_of_registry)
  have ih: "main_documents application_id (PDict d) m
     = Inr (map (task_of application_id student)
             (filter (has_document student) (map (\<lambda>(doc_key, content_key). MainDoc doc_key) m)))"
    using Cons by simp
  show ?case
    using docs ck
    by (cases "d (KStr doc_key)")
       (simp_all add: p ih present_locator_dict emit_def has_document_main locator_main
          del: locator.simps)
qed

lemma present_locator_field:
  "is_dict x \<Longrightarrow> present_locator k x
     = Inr (case field x k of None \<Rightarrow> None | Some v \<Rightarrow> if py_truthy v then Some v else None)"
  by (cases x) (simp_all add: is_dict_def present_locator_dict field_def)

lemma emit_field:
  "emit (case lo of None \<Rightarrow> None | Some v \<Rightarrow> if py_truthy v then Some v else None) task
     = (if (case lo of None \<Rightarrow> False | Some v \<Rightarrow> py_truthy v)
        then [task (case lo of None \<Rightarrow> PNone | Some v \<Rightarrow> v)] else [])"
  by (cases lo) (simp_all add: emit_def)

lemma has_document_project:
  "i < length (projects_of student)
     \<Longrightarrow> has_document student (ProjectDoc i f)
         = (case field (projects_of student ! i) f of None \<Rightarrow> False | Some v \<Rightarrow> py_truthy v)"
  by (simp add: has_document_def)

lemma has_document_work:
  "i < length (work_of student)
     \<Longrightarrow> has_document student (WorkDoc i f)
         = (case field (work_of student ! i) f of None \<Rightarrow> False | Some v \<Rightarrow> py_truthy v)"
  by (simp add: has_document_def)

lemma project_documents_dicts:
  assumes "list_all is_dict ps" and "projects_of student = pre @ ps"
  shows "project_documents application_id (length pre) ps
     = Inr (map (task_of application_id student)
             (filter (has_document student)
               (concat (map (\<lambda>i. [ProjectDoc i ''publication_document'',
                                   ProjectDoc i ''report_document''])
                          [length pre..<length pre + length ps]))))"
  using assms
proof (induction ps arbitrary: pre)
  case Nil
  then show ?case by simp
next
  case (Cons p ps)
  have pd: "is_dict p" and rest: "list_all is_dict ps"
    using Cons.prems(1) by simp_all
  have split: "projects_of student = (pre @ [p]) @ ps"
    using Cons.prems(2) by simp
  have ih: "project_documents application_id (Suc (length pre)) ps
     = Inr (map (task_of application_id student)
             (filter (has_document student)
               (concat (map (\<lambda>i. [ProjectDoc i ''publication_document'',
                                   ProjectDoc i ''report_document''])
                          [Suc (length pre)..<Suc (length pre) + length ps]))))"
    using Cons.IH[OF rest split] by simp
  have lt: "length pre < length (projects_of student)"
    using Cons.prems(2) by simp
  have nth: "projects_of student ! length pre = p"
    using Cons.prems(2) by simp
  have up: "[length pre..<length pre + length (p # ps)]
          = length pre # [Suc (length pre)..<Suc (length pre) + length ps]"
    using upt_conv_Cons[of "length pre" "length pre + length (p # ps)"] by simp
  have hp: "has_document student (ProjectDoc (length pre) f)
         = (case field p f of None \<Rightarrow> False | Some v \<Rightarrow> py_truthy v)" for f
    using has_document_project[OF lt, of f] nth by simp
  have lp: "locator student (ProjectDoc (length pre) f) = field p f" for f
    using lt nth by simp
  show ?case
    unfolding up
    by (simp add: ih present_locator_field[OF pd] emit_field hp lp del: locator.simps)
qed

lemma work_documents_dicts:
  assumes "list_all is_dict ws" and "work_of student = pre @ ws"
  shows "work_documents application_id (length pre) ws
     = Inr (map (task_of application_id student)
             (filter (has_document student)
               (concat (map (\<lambda>i. [WorkDoc i ''certificate_document'',
                                   WorkDoc i ''recommendation_document''])
                          [length pre..<length pre + length ws]))))"
  using assms
proof (induction ws arbitrary: pre)
  case Nil
  then show ?case by simp
next
  case (Cons p ws)
  have pd: "is_dict p" and rest: "list_all is_dict ws"
    using Cons.prems(1) by simp_all
  have split: "work_of student = (pre @ [p]) @ ws"
    using Cons.prems(2) by simp
  have ih: "work_documents application_id (Suc (length pre)) ws
     = Inr (map (task_of application_id student)
             (filter (has_document student)
               (concat (map (\<lambda>i. [WorkDoc i ''certificate_document'',
                                   WorkDoc i ''recommendation_document''])
                          [Suc (length pre)..<Suc (length pre) + length ws]))))"
    using Cons.IH[OF rest split] by simp
  have lt: "length pre < length (work_of student)"
    using Cons.prems(2) by simp
  have nth: "work_of student ! length pre = p"
    using Cons.prems(2) by simp
  have up: "[length pre..<length pre + length (p # ws)]
          = length pre # [Suc (length pre)..<Suc (length pre) + length ws]"
    using upt_conv_Cons[of "length pre" "length pre + length (p # ws)"] by simp
  have hp: "has_document student (WorkDoc (length pre) f)
         = (case field p f of None \<Rightarrow> False | Some v \<Rightarrow> py_truthy v)" for f
    using has_document_work[OF lt, of f] nth by simp
  have lp: "locator student (WorkDoc (length pre) f) = field p f" for f
    using lt nth by simp
  show ?case
    unfolding up
    by (simp add: ih present_locator_field[OF pd] emit_field hp lp del: locator.simps)
qed

lemma main_part:
  assumes "record_shape student"
  shows "(case student (KStr ''documents'') of
            None \<Rightarrow> Inr []
          | Some docs \<Rightarrow> main_documents application_id docs document_mapping)
     = Inr (map (task_of application_id student)
             (filter (has_document student)
                (map (\<lambda>(doc_key, content_key). MainDoc doc_key) document_mapping)))"
proof (cases "student (KStr ''documents'')")
  case None
  then have "\<not> has_document student (MainDoc k)" for k
    by (simp add: has_document_def)
  then have "filter (has_document student)
                (map (\<lambda>(doc_key, content_key). MainDoc doc_key) document_mapping) = []"
    by (auto simp: filter_empty_conv)
  then show ?thesis
    using None by simp
next
  case (Some docs)
  then have "is_dict docs"
    using assms by (simp add: record_shape_def)
  then obtain d where d: "docs = PDict d"
    by (cases docs) (simp_all add: is_dict_def)
  show ?thesis
    using Some d main_documents_dict[of student d document_mapping application_id] by simp
qed

lemma personal_part:
  assumes "record_shape student"
  shows "personal_documents application_id student
     = Inr (map (task_of application_id student) (filter (has_document student) [GovernmentId]))"
proof (cases "student (KStr ''personal_information'')")
  case None
  then show ?thesis
    by (simp add: personal_documents_def has_document_def)
next
  case (Some personal_info)
  then have pd: "is_dict personal_info"
    using assms by (simp add: record_shape_def)
  show ?thesis
    using Some
    by (simp add: personal_documents_def present_locator_field[OF pd] emit_field
        has_document_def)
qed

lemma research_part:
  assumes "record_shape student"
  shows "research_documents application_id student
     = Inr (map (task_of application_id student)
             (filter (has_document student)
               (concat (map (\<lambda>i. [ProjectDoc i ''publication_document'',
                                   ProjectDoc i ''report_document''])
                          [0..<length (projects_of student)]))))"
proof (cases "student (KStr ''research_experience'')")
  case None
  then show ?thesis
    by (simp add: research_documents_def projects_of_def)
next
  case (Some research_exp)
  then obtain research where r: "research_exp = PDict research"
    using assms by (cases research_exp) (simp_all add: record_shape_def)
  show ?thesis
  proof (cases "research (KStr ''projects'')")
    case None
    then show ?thesis
      using Some r by (simp add: research_documents_def projects_of_def dict_get_def)
  next
    case (Some projects)
    then obtain ps where ps: "projects = PList ps" and all: "list_all is_dict ps"
      using assms \<open>student (KStr ''research_experience'') = Some research_exp\<close> r
      by (cases projects) (simp_all add: record_shape_def)
    have po: "projects_of student = [] @ ps"
      using \<open>student (KStr ''research_experience'') = Some research_exp\<close> r Some ps
      by (simp add: projects_of_def)
    have "research_documents application_id student = project_documents application_id 0 ps"
      using \<open>student (KStr ''research_experience'') = Some research_exp\<close> r Some ps
      by (simp add: research_documents_def dict_get_def)
    then show ?thesis
      using project_documents_dicts[OF all po, of application_id] po by simp
  qed
qed

lemma work_part:
  assumes "record_shape student"
  shows "work_experience_documents application_id student
     = Inr (map (task_of application_id student)
             (filter (has_document student)
               (concat (map (\<lambda>i. [WorkDoc i ''certificate_document'',
                                   WorkDoc i ''recommendation_document''])
                          [0..<length (work_of student)]))))"
proof (cases "student (KStr ''work_experience'')")
  case None
  then show ?thesis
    by (simp add: work_experience_documents_def work_of_def)
next
  case (Some work_experiences)
  then obtain ws where ws: "work_experiences = PList ws" and all: "list_all is_dict ws"
    using assms by (cases work_experiences) (simp_all add: record_shape_def)
  have wo: "work_of student = [] @ ws"
    using Some ws by (simp add: work_of_def)
  have "work_experience_documents application_id student = work_documents application_id 0 ws"
    using Some ws by (simp add: work_experience_documents_def)
  then show ?thesis
    using work_documents_dicts[OF all wo, of application_id] wo by simp
qed

lemma known_locations_distinct: "distinct (known_locations student)"
proof -
  have m: "distinct (map (\<lambda>(doc_key, content_key). MainDoc doc_key) document_mapping)"
    by (simp add: document_mapping_def)
  have p: "distinct (concat (map (\<lambda>i. [ProjectDoc i ''publication_document'',
                                   ProjectDoc i ''report_document'']) [0..<n]))" for n
    by (induction n) auto
  have w: "distinct (concat (map (\<lambda>i. [WorkDoc i ''certificate_document'',
                                   WorkDoc i ''recommendation_document'']) [0..<n]))" for n
    by (induction n) auto
  show ?thesis
    unfolding known_locations_def using m p w by (auto simp: distinct_append)
qed

lemma resolver_tasks:
  assumes id: "dict_get data ''application_id'' PNone = PStr app_id" and ne: "app_id \<noteq> []"
    and st: "store ApplicationTable app_id = Some student" and nz: "student \<noteq> Map.empty"
    and sh: "record_shape student"
  shows "prepare_document_list_flow store data =
     (True, py_dict
        [(''application_id'', PStr app_id),
         (''documents'', PList (map (task_of (PStr app_id) student)
                                 (filter (has_document student) (known_locations student)))),
         (''total_documents'',
            PNum (real (length (filter (has_document student) (known_locations student)))))])"
proof -
  define tf where "tf = (\<lambda>ls. map (task_of (PStr app_id) student) (filter (has_document student) ls))"
  define A where "A = map (\<lambda>(doc_key, content_key). MainDoc doc_key) document_mapping"
  define C where "C = concat (map (\<lambda>i. [ProjectDoc i ''publication_document'',
                                   ProjectDoc i ''report_document''])
                          [0..<length (projects_of student)])"
  define D where "D = concat (map (\<lambda>i. [WorkDoc i ''certificate_document'',
                                   WorkDoc i ''recommendation_document''])
                          [0..<length (work_of student)])"
  have g: "dynamodb_get_item store (PStr app_id) ApplicationTable = Inr (Some student)"
    using ne st by (simp add: dynamodb_get_item_def)
  have a: "(case student (KStr ''documents'') of
            None \<Rightarrow> Inr []
          | Some docs \<Rightarrow> main_documents (PStr app_id) docs document_mapping) = Inr (tf A)"
    unfolding tf_def A_def by (rule main_part[OF sh])
  have b: "personal_documents (PStr app_id) student = Inr (tf [GovernmentId])"
    unfolding tf_def by (rule personal_part[OF sh])
  have c: "research_documents (PStr app_id) student = Inr (tf C)"
    unfolding tf_def C_def by (rule research_part[OF sh])
  have d: "work_experience_documents (PStr app_id) student = Inr (tf D)"
    unfolding tf_def D_def by (rule work_part[OF sh])
  have k: "known_locations student = A @ [GovernmentId] @ C @ D"
    unfolding known_locations_def A_def C_def D_def by (rule refl)
  have all: "tf A @ tf [GovernmentId] @ tf C @ tf D = tf (known_locations student)"
    unfolding k tf_def by (simp only: filter_append map_append)
  have len: "length (tf (known_locations student))
      = length (filter (has_document student) (known_locations student))"
    unfolding tf_def by (rule length_map)
  have "prepare_document_list_try store data = Inr
     (True, py_dict
        [(''application_id'', PStr app_id),
         (''documents'', PList (tf A @ tf [GovernmentId] @ tf C @ tf D)),
         (''total_documents'', PNum (real (length (tf A @ tf [GovernmentId] @ tf C @ tf D))))])"
    unfolding prepare_document_list_try_def Let_def id
    using ne nz by (simp add: g a b c d del: length_append)
  then have "prepare_document_list_try store data = Inr
     (True, py_dict
        [(''application_id'', PStr app_id),
         (''documents'', PList (tf (known_locations student))),
         (''total_documents'',
            PNum (real (length (filter (has_document student) (known_locations student)))))])"
    unfolding all len .
  then show ?thesis
    unfolding tf_def by (simp add: prepare_document_list_flow_def)
qed

text \<open>
  Claim C6, as amended. For a stored record of the data model's shape (the flat mapping
  and the personal information are objects, the research experience is an object whose
  projects are a list of objects, the work experience is a list of objects, each of them
  possibly absent), the resolver succeeds and its task list is the list of the known
  locations that hold a present, non-empty locator, each turned into its task: one task
  for each such location (the known locations are pairwise distinct, so the number of
  tasks is the number of such locations), none for a location whose locator is empty or
  absent. The known locations are the keys of the registry in the flat mapping and the
  document fields of the nested sections. When no location holds a document the result is
  success with the empty list.
\<close>

theorem prepare_document_list_one_task_per_locator:
  assumes "dict_get data ''application_id'' PNone = PStr app_id" and "app_id \<noteq> []"
    and "store ApplicationTable app_id = Some student" and "student \<noteq> Map.empty"
    and "record_shape student"
  shows "prepare_document_list_flow store data =
     (True, py_dict
        [(''application_id'', PStr app_id),
         (''documents'', PList (map (task_of (PStr app_id) student)
                                 (filter (has_document student) (known_locations student)))),
         (''total_documents'',
            PNum (real (length (filter (has_document student) (known_locations student)))))])
   \<and> distinct (known_locations student)
   \<and> length (filter (has_document student) (known_locations student))
       = card {l \<in> set (known_locations student). has_document student l}
   \<and> ((\<forall>l\<in>set (known_locations student). \<not> has_document student l) \<longrightarrow>
        prepare_document_list_flow store data =
          (True, py_dict
             [(''application_id'', PStr app_id),
              (''documents'', PList []),
              (''total_documents'', PNum 0)]))"
proof (intro conjI impI)
  show f: "prepare_document_list_flow store data =
     (True, py_dict
        [(''application_id'', PStr app_id),
         (''documents'', PList (map (task_of (PStr app_id) student)
                                 (filter (has_document student) (known_locations student)))),
         (''total_documents'',
            PNum (real (length (filter (has_document student) (known_locations student)))))])"
    using assms by (rule resolver_tasks)
  show d: "distinct (known_locations student)"
    by (rule known_locations_distinct)
  have "{l \<in> set (known_locations student). has_document student l}
      = {l. has_document student l} \<inter> set (known_locations student)"
    by blast
  then show "length (filter (has_document student) (known_locations student))
       = card {l \<in> set (known_locations student). has_document student l}"
    using distinct_length_filter[OF d, of "has_document student"] by simp
  assume "\<forall>l\<in>set (known_locations student). \<not> has_document student l"
  then have "filter (has_document student) (known_locations student) = []"
    by (simp add: filter_empty_conv)
  then show "prepare_document_list_flow store data =
          (True, py_dict
             [(''application_id'', PStr app_id),
              (''documents'', PList []),
              (''total_documents'', PNum 0)])"
    using f by simp
qed

lemma str_nat_small: "str_nat 0 = ''0''" "str_nat 1 = ''1''" "str_nat 2 = ''2''"
  by code_simp+

lemma record_shape_student_1: "record_shape student_1"
  by (simp add: record_shape_def student_1_def is_dict_def py_dict_def)

lemma student_1_locations:
  "filter (has_document student_1) (known_locations student_1)
     = [MainDoc ''transcript'', WorkDoc 0 ''certificate_document'']"
proof -
  have w: "work_of student_1 = [py_dict [(''certificate_document'', PStr ''s3://b/c0.pdf'')],
               py_dict [(''employer'', PStr ''ACME'')]]"
    by (simp add: work_of_def student_1_def)
  have p: "projects_of student_1 = []"
    by (simp add: projects_of_def student_1_def)
  have m: "has_document student_1 (MainDoc k) = (k = ''transcript'')" for k
    by (simp add: has_document_def student_1_def field_def py_dict_def)
  have g: "\<not> has_document student_1 GovernmentId"
    by (simp add: has_document_def student_1_def)
  have h: "has_document student_1 (WorkDoc 0 ''certificate_document'')"
    "\<not> has_document student_1 (WorkDoc 0 ''recommendation_document'')"
    "\<not> has_document student_1 (WorkDoc (Suc 0) ''certificate_document'')"
    "\<not> has_document student_1 (WorkDoc (Suc 0) ''recommendation_document'')"
    by (simp_all add: has_document_def w field_def py_dict_def)
  have u: "[0..<2] = [0, Suc 0]"
    by (simp add: upt_rec)
  show ?thesis
    unfolding known_locations_def w p
    by (simp add: m g h document_mapping_def u)
qed

theorem prepare_document_list_one_task_per_locator_witness:
  "prepare_document_list_flow store_1 [KStr ''application_id'' \<mapsto> PStr ''A1''] =
     (True, py_dict
        [(''application_id'', PStr ''A1''),
         (''documents'', PList
            [main_task (PStr ''A1'') ''transcript'' ''transcript_content'' (PStr ''s3://b/t.pdf''),
             nested_task (PStr ''A1'') ''work_experience[0].certificate_document''
               ''certificate_content'' (PStr ''s3://b/c0.pdf'') ''work_experience.0'']),
         (''total_documents'', PNum 2)])"
proof -
  have a: "dict_get [KStr ''application_id'' \<mapsto> PStr ''A1''] ''application_id'' PNone = PStr ''A1''"
    by (simp add: dict_get_def)
  have s: "store_1 ApplicationTable ''A1'' = Some student_1"
    by (simp add: store_1_def)
  have ne: "''A1'' \<noteq> []"
    by simp
  have w: "work_of student_1 = [py_dict [(''certificate_document'', PStr ''s3://b/c0.pdf'')],
               py_dict [(''employer'', PStr ''ACME'')]]"
    by (simp add: work_of_def student_1_def)
  have t1: "task_of (PStr ''A1'') student_1 (MainDoc ''transcript'')
      = main_task (PStr ''A1'') ''transcript'' ''transcript_content'' (PStr ''s3://b/t.pdf'')"
    by (simp add: content_key_of_def document_mapping_def student_1_def field_def py_dict_def)
  have t2: "task_of (PStr ''A1'') student_1 (WorkDoc 0 ''certificate_document'')
      = nested_task (PStr ''A1'') ''work_experience[0].certificate_document''
               ''certificate_content'' (PStr ''s3://b/c0.pdf'') ''work_experience.0''"
    by (simp add: w field_def py_dict_def str_nat_small)
  show ?thesis
    using prepare_document_list_one_task_per_locator[
        of "[KStr ''application_id'' \<mapsto> PStr ''A1'']" "''A1''" store_1 student_1,
        THEN conjunct1] a ne s student_1_nonempty record_shape_student_1
    unfolding student_1_locations by (simp add: t1 t2 del: task_of.simps)
qed

section \<open>Facts about the lifecycle status\<close>

lemma get_item_found:
  "app_id \<noteq> [] \<Longrightarrow> dynamodb_get_item store (PStr app_id) t = Inr (store t app_id)"
  by (simp add: dynamodb_get_item_def)

lemma put_item_result:
  assumes "dynamodb_put_item accepts store item t = Inr store'"
  shows "\<exists>k. item (KStr ''application_id'') = Some (PStr k)
            \<and> store' = store(t := (store t)(k \<mapsto> item))"
  using assms unfolding dynamodb_put_item_def
  by (auto split: if_splits option.splits pyval.splits)

lemma process_start_failed:
  assumes "dict_get data ''application_id'' PNone = PStr app_id" and "app_id \<noteq> []"
    and "store ApplicationTable app_id = Some student"
    and "student (KStr ''application_id'') = Some (PStr app_id)"
    and "accepts (student(KStr ''application_status'' \<mapsto> PStr ''On-hold''))"
  shows "process_application_flow accepts (False, output) store data
     = (store(ApplicationTable := (store ApplicationTable)
           (app_id \<mapsto> student(KStr ''application_status'' \<mapsto> PStr ''On-hold''))),
        False, PStr (''Failed to start processing: '' @ output))"
proof -
  have ne: "student \<noteq> Map.empty"
    using assms(4) by auto
  have p: "dynamodb_put_item accepts store
             (student(KStr ''application_status'' \<mapsto> PStr ''On-hold'')) ApplicationTable
           = Inr (store(ApplicationTable := (store ApplicationTable)
               (app_id \<mapsto> student(KStr ''application_status'' \<mapsto> PStr ''On-hold''))))"
    using assms(4,5) by (intro dynamodb_put_item_ok) simp_all
  show ?thesis
    using assms(1-3) ne
    by (simp add: process_application_flow_def process_application_try_def Let_def
        get_item_found p)
qed

lemma process_started:
  assumes "dict_get data ''application_id'' PNone = PStr app_id" and "app_id \<noteq> []"
    and "store ApplicationTable app_id = Some student"
    and "student (KStr ''application_id'') = Some (PStr app_id)"
    and "process_application_flow accepts (True, output) store data = (store', ok, out)"
  shows "(ok \<longrightarrow> stored_status store' app_id = Some (PStr ''Application processing''))
       \<and> (\<not> ok \<longrightarrow> store' = store)"
proof -
  have ne: "student \<noteq> Map.empty"
    using assms(4) by auto
  let ?item = "student(KStr ''application_status'' \<mapsto> PStr ''Application processing'')"
  show ?thesis
  proof (cases "dynamodb_put_item accepts store ?item ApplicationTable")
    case (Inl e)
    then have "process_application_flow accepts (True, output) store data
        = (store, False, PStr (''Failed to process application: '' @ exn_str e))"
      using assms(1-3) ne
      by (simp add: process_application_flow_def process_application_try_def Let_def
          get_item_found)
    then show ?thesis
      using assms(5) by simp
  next
    case (Inr s1)
    then have s1: "s1 = store(ApplicationTable := (store ApplicationTable)(app_id \<mapsto> ?item))"
      using put_item_result[OF Inr] assms(4) by simp
    have "process_application_flow accepts (True, output) store data
        = (s1, True, PStr ''Application processing initiated successfully'')"
      using assms(1-3) ne Inr
      by (simp add: process_application_flow_def process_application_try_def Let_def
          get_item_found)
    then show ?thesis
      using assms(5) s1 by (auto simp: stored_status_def)
  qed
qed

lemma evaluate_service_failed:
  assumes "dict_get data ''application_id'' PNone = PStr app_id" and "app_id \<noteq> []"
    and "store ApplicationTable app_id = Some student"
    and "student (KStr ''application_id'') = Some (PStr app_id)"
    and "invoke (student(KStr ''application_status'' := None)) = (status, response)"
    and "\<not> status \<or> \<not> is_dict response \<or> response = PDict Map.empty"
  shows "\<exists>out. evaluate_application_flow accepts invoke store data = (store, False, out)"
proof -
  have ne: "student \<noteq> Map.empty"
    using assms(4) by auto
  show ?thesis
    using assms(1-3,5,6) ne
    by (cases response)
       (auto simp: evaluate_application_flow_def evaluate_application_try_def Let_def
          get_item_found is_dict_def)
qed

lemma evaluate_succeeded:
  assumes "dict_get data ''application_id'' PNone = PStr app_id" and "app_id \<noteq> []"
    and "store ApplicationTable app_id = Some student"
    and "student (KStr ''application_id'') = Some (PStr app_id)"
    and "evaluate_application_flow accepts invoke store data = (store', True, out)"
  shows "stored_status store' app_id = Some (PStr ''Generating report'')"
proof -
  have ne: "student \<noteq> Map.empty"
    using assms(4) by auto
  let ?item = "student(KStr ''application_status'' \<mapsto> PStr ''Generating report'')"
  obtain status response where inv: "invoke (student(KStr ''application_status'' := None))
      = (status, response)"
    by (cases "invoke (student(KStr ''application_status'' := None))")
  have t: "evaluate_application_try accepts invoke store data = Inr (store', True, out)"
    using assms(5) unfolding evaluate_application_flow_def
    by (cases "evaluate_application_try accepts invoke store data") auto
  then obtain r s1 where r: "response = PDict r"
    and p1: "dynamodb_put_item accepts store ?item ApplicationTable = Inr s1"
    and p2: "dynamodb_put_item accepts s1 (r(KStr ''application_id'' \<mapsto> PStr app_id))
               EvaluationsTable = Inr store'"
    using assms(1-3) ne inv
    unfolding evaluate_application_try_def Let_def
    by (cases response; cases "dynamodb_put_item accepts store ?item ApplicationTable")
       (auto simp: get_item_found split: if_splits sum.splits)
  have s1: "s1 = store(ApplicationTable := (store ApplicationTable)(app_id \<mapsto> ?item))"
    using put_item_result[OF p1] assms(4) by simp
  have "store' = s1(EvaluationsTable := (s1 EvaluationsTable)
                    (app_id \<mapsto> r(KStr ''application_id'' \<mapsto> PStr app_id)))"
    using put_item_result[OF p2] by simp
  then show ?thesis
    using s1 by (simp add: stored_status_def)
qed

lemma consolidate_failed_store:
  assumes "consolidate_extraction_results_flow accepts store data = (store', False, out)"
  shows "store' = store"
proof (cases "consolidate_extraction_results_try accepts store data")
  case (Inl e)
  then show ?thesis
    using assms by (simp add: consolidate_extraction_results_flow_def)
next
  case (Inr r)
  then have "r = (store', False, out)"
    using assms by (simp add: consolidate_extraction_results_flow_def)
  then show ?thesis
    using Inr unfolding consolidate_extraction_results_try_def Let_def
    by (auto simp: py_then_eq_Inr split: if_splits option.splits prod.splits)
qed

lemma report_after_upload:
  assumes ne: "app_id \<noteq> []"
    and st: "store ApplicationTable app_id = Some student"
    and sid: "student (KStr ''application_id'') = Some (PStr app_id)"
    and p1: "dynamodb_put_item accepts store item EvaluationsTable = Inr store1"
    and r: "(case dynamodb_get_item store1 (PStr app_id) ApplicationTable of
               Inl e \<Rightarrow> Inr (store1, False, PStr (''Failed to generate report: '' @ exn_str e))
             | Inr None \<Rightarrow> Inr (store1, True, out0)
             | Inr (Some app_student) \<Rightarrow>
                 if app_student = Map.empty then Inr (store1, True, out0)
                 else
                   (case dynamodb_put_item accepts store1
                           (app_student(KStr ''application_status'' \<mapsto> PStr ''Processing complete''))
                           ApplicationTable of
                      Inl e \<Rightarrow> Inr (store1, False, PStr (''Failed to generate report: '' @ exn_str e))
                    | Inr store2 \<Rightarrow> Inr (store2, True, out0)))
            = (Inr (store', ok, out) :: py_exn + db \<times> bool \<times> pyval)"
  shows "(\<not> ok \<longrightarrow> store' ApplicationTable = store ApplicationTable)
       \<and> (ok \<longrightarrow> stored_status store' app_id = Some (PStr ''Processing complete''))"
proof -
  have sne: "student \<noteq> Map.empty"
    using sid by auto
  obtain k where s1: "store1 = store(EvaluationsTable := (store EvaluationsTable)(k \<mapsto> item))"
    using put_item_result[OF p1] by blast
  have a1: "store1 ApplicationTable = store ApplicationTable"
    using s1 by simp
  have g: "dynamodb_get_item store1 (PStr app_id) ApplicationTable = Inr (Some student)"
    using ne st a1 by (simp add: get_item_found)
  let ?item = "student(KStr ''application_status'' \<mapsto> PStr ''Processing complete'')"
  show ?thesis
  proof (cases "dynamodb_put_item accepts store1 ?item ApplicationTable")
    case (Inl e)
    then show ?thesis
      using r g sne a1 by auto
  next
    case (Inr s2)
    have "s2 = store1(ApplicationTable := (store1 ApplicationTable)(app_id \<mapsto> ?item))"
      using put_item_result[OF Inr] sid by simp
    then show ?thesis
      using r g sne Inr by (auto simp: stored_status_def)
  qed
qed

lemma report_status:
  assumes id: "dict_get data ''application_id'' PNone = PStr app_id" and ne: "app_id \<noteq> []"
    and st: "store ApplicationTable app_id = Some student"
    and sid: "student (KStr ''application_id'') = Some (PStr app_id)"
    and f: "generate_report_flow accepts scan generate s3_bucket s3_prefix store data
              = (store', ok, out)"
  shows "(\<not> ok \<longrightarrow> store' ApplicationTable = store ApplicationTable)
       \<and> (ok \<longrightarrow> stored_status store' app_id = Some (PStr ''Processing complete''))"
proof (cases "generate_report_try accepts scan generate s3_bucket s3_prefix store data")
  case (Inl e)
  then show ?thesis
    using f by (auto simp: generate_report_flow_def)
next
  case (Inr r)
  then have t: "generate_report_try accepts scan generate s3_bucket s3_prefix store data
      = Inr (store', ok, out)"
    using f by (simp add: generate_report_flow_def)
  show ?thesis
  proof (cases "ok \<or> store' \<noteq> store")
    case False
    then show ?thesis by simp
  next
    case True
    obtain status all_students where sc: "scan = (status, all_students)"
      by (cases scan)
    from t True obtain item store1 out0 where
      p1: "dynamodb_put_item accepts store item EvaluationsTable = Inr store1"
      and r: "(case dynamodb_get_item store1 (PStr app_id) ApplicationTable of
               Inl e \<Rightarrow> Inr (store1, False, PStr (''Failed to generate report: '' @ exn_str e))
             | Inr None \<Rightarrow> Inr (store1, True, out0)
             | Inr (Some app_student) \<Rightarrow>
                 if app_student = Map.empty then Inr (store1, True, out0)
                 else
                   (case dynamodb_put_item accepts store1
                           (app_student(KStr ''application_status'' \<mapsto> PStr ''Processing complete''))
                           ApplicationTable of
                      Inl e \<Rightarrow> Inr (store1, False, PStr (''Failed to generate report: '' @ exn_str e))
                    | Inr store2 \<Rightarrow> Inr (store2, True, out0)))
            = (Inr (store', ok, out) :: py_exn + db \<times> bool \<times> pyval)"
      unfolding generate_report_try_def Let_def id sc
      by (auto simp: py_then_eq_Inr get_item_found ne split: if_splits option.splits)
    show ?thesis
      by (rule report_after_upload[OF ne st sid p1 r])
  qed
qed

text \<open>
  Claim C4, as amended. For a stored application: when the orchestration fails to start,
  the status is set back to \<^verbatim>\<open>On-hold\<close>; when it starts, the status becomes
  \<^verbatim>\<open>Application processing\<close>, and a failure of that flow leaves the store as it was.
  A failure of the evaluation service (the call fails, or its answer is not a non-empty
  object) leaves the store as it was, so the status stays where it is; a successful
  evaluation sets \<^verbatim>\<open>Generating report\<close>. A failed report generation leaves the
  application table as it was; a successful one sets \<^verbatim>\<open>Processing complete\<close>. A
  failed consolidation leaves the store as it was. Only the start failure rolls back.
\<close>

theorem lifecycle_status_on_failure:
  assumes "dict_get data ''application_id'' PNone = PStr app_id" and "app_id \<noteq> []"
    and "store ApplicationTable app_id = Some student"
    and "student (KStr ''application_id'') = Some (PStr app_id)"
  shows
    "(accepts (student(KStr ''application_status'' \<mapsto> PStr ''On-hold'')) \<longrightarrow>
        process_application_flow accepts (False, output) store data
          = (store(ApplicationTable := (store ApplicationTable)
               (app_id \<mapsto> student(KStr ''application_status'' \<mapsto> PStr ''On-hold''))),
             False, PStr (''Failed to start processing: '' @ output)))
   \<and> (\<forall>store' ok out.
        process_application_flow accepts (True, output) store data = (store', ok, out) \<longrightarrow>
          (ok \<longrightarrow> stored_status store' app_id = Some (PStr ''Application processing''))
          \<and> (\<not> ok \<longrightarrow> store' = store))
   \<and> (\<forall>status response.
        invoke (student(KStr ''application_status'' := None)) = (status, response)
        \<and> (\<not> status \<or> \<not> is_dict response \<or> response = PDict Map.empty) \<longrightarrow>
          (\<exists>out. evaluate_application_flow accepts invoke store data = (store, False, out)))
   \<and> (\<forall>store' out.
        evaluate_application_flow accepts invoke store data = (store', True, out) \<longrightarrow>
          stored_status store' app_id = Some (PStr ''Generating report''))
   \<and> (\<forall>store' ok out.
        generate_report_flow accepts scan generate s3_bucket s3_prefix store data
          = (store', ok, out) \<longrightarrow>
          (\<not> ok \<longrightarrow> store' ApplicationTable = store ApplicationTable)
          \<and> (ok \<longrightarrow> stored_status store' app_id = Some (PStr ''Processing complete'')))
   \<and> (\<forall>store' out.
        consolidate_extraction_results_flow accepts store data = (store', False, out) \<longrightarrow>
          store' = store)"
proof (intro conjI allI impI)
  assume "accepts (student(KStr ''application_status'' \<mapsto> PStr ''On-hold''))"
  then show "process_application_flow accepts (False, output) store data
          = (store(ApplicationTable := (store ApplicationTable)
               (app_id \<mapsto> student(KStr ''application_status'' \<mapsto> PStr ''On-hold''))),
             False, PStr (''Failed to start processing: '' @ output))"
    using process_start_failed[of data app_id store student accepts "output"] assms by blast
next
  fix store' ok out
  assume f: "process_application_flow accepts (True, output) store data = (store', ok, out)"
  show "ok \<Longrightarrow> stored_status store' app_id = Some (PStr ''Application processing'')"
    using process_started[of data app_id store student accepts "output" store' ok out] assms f
    by blast
  show "\<not> ok \<Longrightarrow> store' = store"
    using process_started[of data app_id store student accepts "output" store' ok out] assms f
    by blast
next
  fix status response
  assume "invoke (student(KStr ''application_status'' := None)) = (status, response)
        \<and> (\<not> status \<or> \<not> is_dict response \<or> response = PDict Map.empty)"
  then show "\<exists>out. evaluate_application_flow accepts invoke store data = (store, False, out)"
    using evaluate_service_failed[of data app_id store student invoke status response accepts]
      assms by blast
next
  fix store' out
  assume "evaluate_application_flow accepts invoke store data = (store', True, out)"
  then show "stored_status store' app_id = Some (PStr ''Generating report'')"
    using evaluate_succeeded[of data app_id store student accepts invoke store' out] assms
    by blast
next
  fix store' ok out
  assume f: "generate_report_flow accepts scan generate s3_bucket s3_prefix store data
          = (store', ok, out)"
  show "\<not> ok \<Longrightarrow> store' ApplicationTable = store ApplicationTable"
    using report_status[of data app_id store student accepts scan generate s3_bucket s3_prefix
        store' ok out] assms f by blast
  show "ok \<Longrightarrow> stored_status store' app_id = Some (PStr ''Processing complete'')"
    using report_status[of data app_id store student accepts scan generate s3_bucket s3_prefix
        store' ok out] assms f by blast
next
  fix store' out
  assume "consolidate_extraction_results_flow accepts store data = (store', False, out)"
  then show "store' = store"
    by (rule consolidate_failed_store)
qed

lemma student_waiting_id: "student_waiting (KStr ''application_id'') = Some (PStr ''A1'')"
  by (simp add: student_waiting_def student_1_def)

theorem lifecycle_status_on_failure_witness:
  "process_application_flow (\<lambda>item. True) (False, ''denied'') store_1
       [KStr ''application_id'' \<mapsto> PStr ''A1'']
     = (store_1(ApplicationTable := (store_1 ApplicationTable)
          (''A1'' \<mapsto> student_1(KStr ''application_status'' \<mapsto> PStr ''On-hold''))),
        False, PStr ''Failed to start processing: denied'')
   \<and> (\<exists>out. evaluate_application_flow (\<lambda>item. True) (\<lambda>eval_data. (False, PStr ''timeout''))
               store_waiting [KStr ''application_id'' \<mapsto> PStr ''A1'']
             = (store_waiting, False, out))"
proof -
  let ?data = "[KStr ''application_id'' \<mapsto> PStr ''A1'']"
  have a: "dict_get ?data ''application_id'' PNone = PStr ''A1''"
    by (simp add: dict_get_def)
  have ne: "''A1'' \<noteq> []"
    by simp
  have s1: "store_1 ApplicationTable ''A1'' = Some student_1"
    by (simp add: store_1_def)
  have s2: "store_waiting ApplicationTable ''A1'' = Some student_waiting"
    by (simp add: store_waiting_def)
  have p1: "process_application_flow (\<lambda>item. True) (False, ''denied'') store_1 ?data
     = (store_1(ApplicationTable := (store_1 ApplicationTable)
          (''A1'' \<mapsto> student_1(KStr ''application_status'' \<mapsto> PStr ''On-hold''))),
        False, PStr (''Failed to start processing: '' @ ''denied''))"
    using lifecycle_status_on_failure[of ?data "''A1''" store_1 student_1 "\<lambda>item. True"
        "''denied''", THEN conjunct1] a ne s1 student_1_id by blast
  have p2: "\<exists>out. evaluate_application_flow (\<lambda>item. True) (\<lambda>eval_data. (False, PStr ''timeout''))
               store_waiting ?data = (store_waiting, False, out)"
    using lifecycle_status_on_failure[of ?data "''A1''" store_waiting student_waiting
        "\<lambda>item. True" "''denied''" "\<lambda>eval_data. (False, PStr ''timeout'')",
        THEN conjunct2, THEN conjunct2, THEN conjunct1] a ne s2 student_waiting_id by blast
  show ?thesis
    using p1 p2 by simp
qed

text \<open>
  Claim C4 as stated fails: when the evaluation service fails, the flow reports the
  failure and the status stays \<^verbatim>\<open>Evaluation in-progress\<close>, the state in which the
  stage was entered; it is not rolled back.
\<close>

theorem evaluation_failure_keeps_status:
  "evaluate_application_flow (\<lambda>item. True) (\<lambda>eval_data. (False, PStr ''timeout''))
       store_waiting [KStr ''application_id'' \<mapsto> PStr ''A1'']
     = (store_waiting, False, PStr ''Evaluation service failed: timeout'')
   \<and> stored_status store_waiting ''A1'' = Some (PStr ''Evaluation in-progress'')"
proof -
  have g: "dynamodb_get_item store_waiting (PStr ''A1'') ApplicationTable = Inr (Some student_waiting)"
    by (simp add: dynamodb_get_item_def store_waiting_def)
  have ne: "student_waiting \<noteq> Map.empty"
    using dict_nonempty[of student_waiting "KStr ''application_id''"] student_waiting_id
    by simp
  have "evaluate_application_flow (\<lambda>item. True) (\<lambda>eval_data. (False, PStr ''timeout''))
       store_waiting [KStr ''application_id'' \<mapsto> PStr ''A1'']
     = (store_waiting, False, PStr ''Evaluation service failed: timeout'')"
    by (simp add: evaluate_application_flow_def evaluate_application_try_def dict_get_def g ne)
  moreover have "stored_status store_waiting ''A1'' = Some (PStr ''Evaluation in-progress'')"
    by (simp add: stored_status_def store_waiting_def student_waiting_def)
  ultimately show ?thesis by simp
qed

section \<open>Facts about failed extractions\<close>

lemma extract_document_bad_locator:
  assumes "py_truthy s3_uri" and "\<not> well_formed_locator s3_uri"
  shows "extract_document analyze results s3_uri field_name
     = (results\<lparr>failed_list := failed_list results @ [field_name]\<rparr>, PStr [])"
proof -
  obtain b k where p: "parse_s3_uri s3_uri = (b, k)"
    by (cases "parse_s3_uri s3_uri")
  have "falsy_str b \<or> falsy_str k"
    using parse_s3_uri_accepts[OF p] assms(2) by blast
  moreover have "s3_uri \<noteq> PStr []"
    using assms(1) by auto
  ultimately show ?thesis
    using assms(1) p by (simp add: extract_document_def)
qed

lemma extract_document_capability_fault:
  assumes "b \<noteq> []" and "CHR ''/'' \<notin> set b" and "k \<noteq> []" and "analyze b k = Inl msg"
  shows "extract_document analyze results (PStr (''s3://'' @ b @ ''/'' @ k)) field_name
     = (results\<lparr>failed_list := failed_list results @ [field_name]\<rparr>, PStr [])"
proof -
  have sp: "py_split1 CHR ''/'' (b @ CHR ''/'' # k) = [b, k]"
    by (rule py_split1_sep[OF assms(2)])
  have p: "parse_s3_uri (PStr (''s3://'' @ b @ ''/'' @ k)) = (Some b, Some k)"
    using assms(1,3) sp by (simp add: parse_s3_uri_def Let_def)
  have t: "textractor_document_analysis analyze b k = (''FAILED'', msg)"
    using assms by (simp add: textractor_document_analysis_def)
  show ?thesis
    unfolding extract_document_def
    using assms(1,3) p t by (simp add: falsy_str_def)
qed

lemma extract_main_loop_stores:
  assumes "d (KStr doc_key) = Some s3_uri"
    and "extract_document analyze results s3_uri doc_key = (results', extracted)"
    and "extracted \<noteq> PNone"
  shows "extract_main_loop analyze (PDict d) (student, results) ((doc_key, content_key) # rest)
     = extract_main_loop analyze (PDict d) (student(KStr content_key \<mapsto> extracted), results') rest"
  using assms by simp

text \<open>
  Claim C5, as amended. In the consolidation of parallel results, a result with status
  \<^verbatim>\<open>failed\<close> moves the failure counter only and leaves the record as it is. In the
  single-pass flow, an extraction that fails (the locator is not a storage address, or
  the capability reports a fault) files the field name in the failed list only and
  returns the empty string, which the loop over the main documents stores in the content
  field: the field is set, to the empty string and never to an error text.
\<close>

theorem failed_extraction_no_error_text:
  "(wrapper_status w = Inr (PStr ''failed'')
      \<longrightarrow> consolidate_result (student, a, b, c) w = Inr (student, a, b + 1, c))
   \<and> (py_truthy s3_uri \<and> \<not> well_formed_locator s3_uri
      \<longrightarrow> extract_document analyze results s3_uri field_name
            = (results\<lparr>failed_list := failed_list results @ [field_name]\<rparr>, PStr []))
   \<and> (bucket \<noteq> [] \<and> CHR ''/'' \<notin> set bucket \<and> key \<noteq> [] \<and> analyze bucket key = Inl msg
      \<longrightarrow> extract_document analyze results (PStr (''s3://'' @ bucket @ ''/'' @ key)) field_name
            = (results\<lparr>failed_list := failed_list results @ [field_name]\<rparr>, PStr []))
   \<and> (d (KStr doc_key) = Some s3_uri
       \<and> extract_document analyze results s3_uri doc_key = (results', PStr [])
      \<longrightarrow> extract_main_loop analyze (PDict d) (student, results) ((doc_key, content_key) # rest)
            = extract_main_loop analyze (PDict d)
                (student(KStr content_key \<mapsto> PStr []), results') rest)"
proof (intro conjI impI)
  assume "wrapper_status w = Inr (PStr ''failed'')"
  then show "consolidate_result (student, a, b, c) w = Inr (student, a, b + 1, c)"
    by (rule consolidate_result_failed)
next
  assume "py_truthy s3_uri \<and> \<not> well_formed_locator s3_uri"
  then show "extract_document analyze results s3_uri field_name
            = (results\<lparr>failed_list := failed_list results @ [field_name]\<rparr>, PStr [])"
    using extract_document_bad_locator[of s3_uri analyze results field_name] by blast
next
  assume "bucket \<noteq> [] \<and> CHR ''/'' \<notin> set bucket \<and> key \<noteq> [] \<and> analyze bucket key = Inl msg"
  then show "extract_document analyze results (PStr (''s3://'' @ bucket @ ''/'' @ key)) field_name
            = (results\<lparr>failed_list := failed_list results @ [field_name]\<rparr>, PStr [])"
    using extract_document_capability_fault[of bucket key analyze msg results field_name]
    by blast
next
  assume h: "d (KStr doc_key) = Some s3_uri
       \<and> extract_document analyze results s3_uri doc_key = (results', PStr [])"
  show "extract_main_loop analyze (PDict d) (student, results) ((doc_key, content_key) # rest)
            = extract_main_loop analyze (PDict d)
                (student(KStr content_key \<mapsto> PStr []), results') rest"
    using h extract_main_loop_stores[of d doc_key s3_uri analyze results results' "PStr []"
        student content_key rest] by simp
qed

lemma not_wf_plain: "\<not> well_formed_locator (PStr ''transcript.pdf'')"
  by (simp add: well_formed_locator_def)

theorem failed_extraction_no_error_text_witness:
  "consolidate_result (student_1, 0, 0, 0) failed_result = Inr (student_1, 0, 1, 0)
   \<and> extract_document (\<lambda>b k. Inr ''text'') no_results (PStr ''transcript.pdf'') ''transcript''
       = (no_results\<lparr>failed_list := [''transcript'']\<rparr>, PStr [])
   \<and> extract_document (\<lambda>b k. Inl ''timeout'') no_results (PStr ''s3://b/k'') ''transcript''
       = (no_results\<lparr>failed_list := [''transcript'']\<rparr>, PStr [])"
proof -
  have p1: "consolidate_result (student_1, 0, 0, 0) failed_result = Inr (student_1, 0, 0 + 1, 0)"
    using failed_extraction_no_error_text[of failed_result student_1 0 0 0, THEN conjunct1]
      wrapper_status_examples(2) by blast
  have p2: "extract_document (\<lambda>b k. Inr ''text'') no_results (PStr ''transcript.pdf'') ''transcript''
       = (no_results\<lparr>failed_list := failed_list no_results @ [''transcript'']\<rparr>, PStr [])"
    using failed_extraction_no_error_text[of failed_result student_1 0 0 0
        "PStr ''transcript.pdf''" "\<lambda>b k. Inr ''text''" no_results "''transcript''",
        THEN conjunct2, THEN conjunct1] not_wf_plain by simp
  have u: "PStr ''s3://b/k'' = PStr (''s3://'' @ ''b'' @ ''/'' @ ''k'')"
    by simp
  have p3: "extract_document (\<lambda>b k. Inl ''timeout'') no_results (PStr ''s3://b/k'') ''transcript''
       = (no_results\<lparr>failed_list := failed_list no_results @ [''transcript'']\<rparr>, PStr [])"
    unfolding u
    using failed_extraction_no_error_text[of failed_result student_1 0 0 0
        "PStr ''transcript.pdf''" "\<lambda>b k. Inl ''timeout''" no_results "''transcript''"
        "''b''" "''k''" "''timeout''",
        THEN conjunct2, THEN conjunct2, THEN conjunct1] by simp
  show ?thesis
    using p1 p2 p3 by (simp add: no_results_def)
qed

text \<open>
  Claim C5 as stated fails in the single-pass flow: for a transcript whose locator is not
  a storage address the extraction fails, and the record gets the field
  \<^verbatim>\<open>transcript_content\<close> with the empty string.
\<close>

theorem single_pass_failure_sets_field:
  "extract_main_documents (\<lambda>b k. Inr ''text'') (student_bad_locator, no_results)
     = (student_bad_locator(KStr ''transcript_content'' \<mapsto> PStr []),
        no_results\<lparr>failed_list := [''transcript'']\<rparr>)"
proof -
  have e: "extract_document (\<lambda>b k. Inr ''text'') no_results (PStr ''transcript.pdf'') ''transcript''
       = (no_results\<lparr>failed_list := [''transcript'']\<rparr>, PStr [])"
    using extract_document_bad_locator[OF _ not_wf_plain, of "\<lambda>b k. Inr ''text''" no_results
        "''transcript''"]
    by (simp add: no_results_def)
  have d: "dict_get student_bad_locator ''documents'' (PDict Map.empty)
      = PDict [KStr ''transcript'' \<mapsto> PStr ''transcript.pdf'']"
    by (simp add: student_bad_locator_def dict_get_def py_dict_def)
  have t: "py_truthy (PDict [KStr ''transcript'' \<mapsto> PStr ''transcript.pdf''])"
    by simp
  show ?thesis
    using t
    by (simp add: extract_main_documents_def Let_def d document_mapping_def e
        del: py_truthy.simps)
qed

section \<open>Order and repetition of the consolidation\<close>

subsection \<open>Resolved writes\<close>

lemma lawful_res:
  "lawful res put \<Longrightarrow> res s w = Some (Some l) \<Longrightarrow> res (put s l w) w' = res s w'"
  unfolding lawful_def by blast

lemma lawful_same:
  "lawful res put \<Longrightarrow> res s w = Some (Some l) \<Longrightarrow> res s w' = Some (Some l)
     \<Longrightarrow> put (put s l w) l w' = put s l w'"
  unfolding lawful_def by blast

lemma lawful_swap:
  "lawful res put \<Longrightarrow> res s w = Some (Some l) \<Longrightarrow> res s w' = Some (Some l') \<Longrightarrow> l \<noteq> l'
     \<Longrightarrow> put (put s l w) l' w' = put (put s l' w') l w"
  unfolding lawful_def by blast

lemma resolved_write_res:
  assumes "lawful res put" and "\<forall>w. res t w = res s w"
  shows "res (resolved_write res put s w t) w' = res s w'"
proof (cases "res s w")
  case None
  then show ?thesis
    using assms(2) by (simp add: resolved_write_def)
next
  case (Some o1)
  show ?thesis
  proof (cases o1)
    case None
    then show ?thesis
      using Some assms(2) by (simp add: resolved_write_def)
  next
    case (Some l)
    have "res t w = Some (Some l)"
      using assms(2) \<open>res s w = Some o1\<close> Some by simp
    then have "res (put t l w) w' = res t w'"
      by (rule lawful_res[OF assms(1)])
    then show ?thesis
      using \<open>res s w = Some o1\<close> Some assms(2) by (simp add: resolved_write_def)
  qed
qed

lemma fold_resolved_res:
  assumes "lawful res put"
  shows "\<forall>w. res t w = res s w
     \<Longrightarrow> res (fold (resolved_write res put s) ws t) w' = res s w'"
proof (induction ws arbitrary: t)
  case Nil
  then show ?case by simp
next
  case (Cons w ws)
  have "\<forall>w'. res (resolved_write res put s w t) w' = res s w'"
    using resolved_write_res[OF assms Cons.prems] by blast
  then show ?case
    using Cons.IH by simp
qed

lemma step_resolved:
  assumes "\<forall>w. res t w = res s w"
  shows "step res put t w
     = (if res s w = None then None else Some (resolved_write res put s w t))"
  using assms by (auto simp: step_def resolved_write_def split: option.splits)

lemma steps_resolved:
  assumes "lawful res put"
  shows "\<forall>w. res t w = res s w
     \<Longrightarrow> steps res put t ws
         = (if \<forall>w\<in>set ws. res s w \<noteq> None
            then Some (fold (resolved_write res put s) ws t) else None)"
proof (induction ws arbitrary: t)
  case Nil
  then show ?case by simp
next
  case (Cons w ws)
  show ?case
  proof (cases "res s w = None")
    case True
    then show ?thesis
      using step_resolved[OF Cons.prems, of put w] by simp
  next
    case False
    have inv: "\<forall>w'. res (resolved_write res put s w t) w' = res s w'"
      using resolved_write_res[OF assms Cons.prems] by blast
    have st: "step res put t w = Some (resolved_write res put s w t)"
      using False step_resolved[OF Cons.prems, of put w] by simp
    show ?thesis
      using False Cons.IH[OF inv] by (auto simp: st)
  qed
qed

lemma resolved_write_commute:
  assumes "lawful res put" and "\<forall>w. res t w = res s w"
    and "\<not> (\<exists>l. res s x = Some (Some l) \<and> res s y = Some (Some l))"
  shows "resolved_write res put s x (resolved_write res put s y t)
       = resolved_write res put s y (resolved_write res put s x t)"
proof (cases "\<exists>l l'. res s x = Some (Some l) \<and> res s y = Some (Some l')")
  case True
  then obtain l l' where x: "res s x = Some (Some l)" and y: "res s y = Some (Some l')"
    by blast
  have ne: "l' \<noteq> l"
    using assms(3) x y by auto
  have "put (put t l' y) l x = put (put t l x) l' y"
    using lawful_swap[OF assms(1), of t y l' x l] x y ne assms(2) by simp
  then show ?thesis
    using x y by (simp add: resolved_write_def)
next
  case False
  then show ?thesis
    by (auto simp: resolved_write_def split: option.splits)
qed

lemma resolved_write_absorb:
  assumes "lawful res put" and "\<forall>w. res t w = res s w"
    and "res s x = Some (Some l)" and "res s y = Some (Some l)"
  shows "resolved_write res put s y (resolved_write res put s x t)
       = resolved_write res put s y t"
  using lawful_same[OF assms(1), of t x l y] assms(2-4)
  by (simp add: resolved_write_def)

lemma fold_absorb:
  assumes "lawful res put"
  shows "\<forall>w. res t w = res s w \<Longrightarrow> x \<in> set ws
     \<Longrightarrow> fold (resolved_write res put s) ws (resolved_write res put s x t)
         = fold (resolved_write res put s) ws t"
proof (induction ws arbitrary: t)
  case Nil
  then show ?case by simp
next
  case (Cons w ws)
  have inv: "\<forall>w'. res (resolved_write res put s w t) w' = res s w'"
    using resolved_write_res[OF assms Cons.prems(1)] by blast
  show ?case
  proof (cases "\<exists>l. res s x = Some (Some l) \<and> res s w = Some (Some l)")
    case True
    then obtain l where "res s x = Some (Some l)" and "res s w = Some (Some l)"
      by blast
    then have "resolved_write res put s w (resolved_write res put s x t)
          = resolved_write res put s w t"
      by (rule resolved_write_absorb[OF assms Cons.prems(1)])
    then show ?thesis by simp
  next
    case False
    have c: "resolved_write res put s w (resolved_write res put s x t)
          = resolved_write res put s x (resolved_write res put s w t)"
      using resolved_write_commute[OF assms Cons.prems(1), of w x] False by blast
    show ?thesis
    proof (cases "x = w")
      case True
      then have "resolved_write res put s x t = t \<or> (\<exists>l. res s x = Some (Some l))"
        by (auto simp: resolved_write_def split: option.splits)
      then have "resolved_write res put s x t = t"
        using False True by auto
      then show ?thesis by simp
    next
      case False
      then have "x \<in> set ws"
        using Cons.prems(2) by simp
      then show ?thesis
        using Cons.IH[OF inv] c by simp
    qed
  qed
qed

lemma fold_fold_absorb:
  assumes "lawful res put"
  shows "\<forall>w. res t w = res s w \<Longrightarrow> set us \<subseteq> set ws
     \<Longrightarrow> fold (resolved_write res put s) ws (fold (resolved_write res put s) us t)
         = fold (resolved_write res put s) ws t"
proof (induction us arbitrary: t)
  case Nil
  then show ?case by simp
next
  case (Cons u us)
  have inv: "\<forall>w'. res (resolved_write res put s u t) w' = res s w'"
    using resolved_write_res[OF assms Cons.prems(1)] by blast
  have "fold (resolved_write res put s) ws
          (fold (resolved_write res put s) us (resolved_write res put s u t))
        = fold (resolved_write res put s) ws (resolved_write res put s u t)"
    using Cons.IH[OF inv] Cons.prems(2) by simp
  also have "\<dots> = fold (resolved_write res put s) ws t"
    using fold_absorb[OF assms Cons.prems(1), of u ws] Cons.prems(2) by simp
  finally show ?case by simp
qed

lemma steps_idem:
  assumes "lawful res put" and "steps res put s ws = Some s'"
  shows "steps res put s' ws = Some s'"
proof -
  have r: "steps res put s ws
         = (if \<forall>w\<in>set ws. res s w \<noteq> None
            then Some (fold (resolved_write res put s) ws s) else None)"
    using steps_resolved[OF assms(1), of s s ws] by simp
  then have all: "\<forall>w\<in>set ws. res s w \<noteq> None"
    and s': "s' = fold (resolved_write res put s) ws s"
    using assms(2) by (auto split: if_splits)
  have inv: "\<forall>w. res s' w = res s w"
    unfolding s' using fold_resolved_res[OF assms(1), of s s] by simp
  have "steps res put s' ws = Some (fold (resolved_write res put s) ws s')"
    using steps_resolved[OF assms(1) inv, of ws] all by simp
  also have "fold (resolved_write res put s) ws s' = s'"
    unfolding s' using fold_fold_absorb[OF assms(1), of s s ws ws] by simp
  finally show ?thesis .
qed


lemma value_of_then:
  "value_of (py_then m f) = (case value_of m of None \<Rightarrow> None | Some x \<Rightarrow> value_of (f x))"
  by (cases m) simp_all

lemma setitem_slot:
  "value_of (py_setitem x k v) = map_option (\<lambda>sl. put_slot x sl v) (slot_of x k)"
proof (cases x)
  case (PDict e)
  then show ?thesis
    by (cases "key_of k") simp_all
next
  case (PList ys)
  then show ?thesis
    by (auto split: option.splits)
qed simp_all

lemma slot_of_put_slot: "slot_of (put_slot x sl v) k = slot_of x k"
  by (cases x; cases sl) (auto split: option.splits)

lemma put_slot_twice: "put_slot (put_slot x sl a) sl b = put_slot x sl b"
  by (cases x; cases sl) simp_all

lemma put_slot_swap:
  "sl \<noteq> sl' \<Longrightarrow> put_slot (put_slot x sl a) sl' b = put_slot (put_slot x sl' b) sl a"
  by (cases x; cases sl; cases sl') (auto simp: fun_upd_twist list_update_swap)

lemma get_put_slot_same: "valid_slot x sl \<Longrightarrow> get_slot (put_slot x sl v) sl = v"
  by (cases x; cases sl) simp_all

lemma get_put_slot_other: "sl \<noteq> sl' \<Longrightarrow> get_slot (put_slot x sl v) sl' = get_slot x sl'"
  by (cases x; cases sl; cases sl') auto

lemma valid_put_slot:
  "valid_slot x sl \<Longrightarrow> valid_slot (put_slot x sl v) sl' = valid_slot x sl'"
  by (cases x; cases sl; cases sl') auto

lemma as_index_int: "as_index (PNum (of_int idx)) = Some idx"
  by simp

lemma entry_slot_valid: "entry_slot x idx = Some (Some sl) \<Longrightarrow> valid_slot x sl"
proof (cases x)
  case (PList xs)
  assume "entry_slot x idx = Some (Some sl)"
  then show ?thesis
    using PList by (auto simp: py_index_def split: if_splits)
next
  case (PDict d)
  assume "entry_slot x idx = Some (Some sl)"
  then show ?thesis
    using PDict by (auto split: if_splits option.splits)
qed (auto split: if_splits)

lemma entry_slot_put:
  assumes "valid_slot x sl"
  shows "entry_slot (put_slot x sl v) idx = entry_slot x idx"
proof (cases x)
  case (PDict d)
  show ?thesis
  proof (cases sl)
    case (SKey k)
    then have k: "d k \<noteq> None"
      using assms PDict by simp
    then have "dom (d(k \<mapsto> v)) = dom d"
      by auto
    then show ?thesis
      using PDict SKey k by (auto split: option.splits)
  next
    case (SPos p)
    then show ?thesis
      using PDict by simp
  qed
next
  case (PList xs)
  then show ?thesis
    by (cases sl) simp_all
qed (use assms in simp_all)

lemma getitem_entry:
  "entry_slot x idx = Some (Some sl)
     \<Longrightarrow> value_of (py_getitem x (PNum (of_int idx))) = Some (get_slot x sl)"
proof (cases x)
  case (PList xs)
  assume "entry_slot x idx = Some (Some sl)"
  then show ?thesis
    using PList by (auto simp: py_index_def split: if_splits)
next
  case (PDict d)
  assume "entry_slot x idx = Some (Some sl)"
  then show ?thesis
    using PDict by (auto split: if_splits option.splits)
qed (auto split: if_splits)

lemma setitem_entry:
  "entry_slot x idx = Some (Some sl)
     \<Longrightarrow> value_of (py_setitem x (PNum (of_int idx)) v) = Some (put_slot x sl v)"
proof (cases x)
  case (PList xs)
  assume "entry_slot x idx = Some (Some sl)"
  then show ?thesis
    using PList by (auto simp: py_index_def split: if_splits)
next
  case (PDict d)
  assume "entry_slot x idx = Some (Some sl)"
  then show ?thesis
    using PDict by (auto split: if_splits option.splits)
qed (auto split: if_splits)

lemma entry_slot_none_cases:
  "entry_slot lst idx = None \<Longrightarrow>
     value_of (py_len lst) = None
     \<or> (\<exists>n. value_of (py_len lst) = Some n \<and> idx < int n
           \<and> (value_of (py_getitem lst (PNum (of_int idx))) = None
               \<or> (\<exists>e. value_of (py_getitem lst (PNum (of_int idx))) = Some e
                      \<and> slot_of e k = None)))"
proof (cases lst)
  case (PList xs)
  assume "entry_slot lst idx = None"
  then show ?thesis
    using PList by (auto simp: py_index_def split: if_splits)
next
  case (PDict d)
  assume "entry_slot lst idx = None"
  then show ?thesis
    using PDict by (auto split: if_splits option.splits)
next
  case (PStr s)
  assume "entry_slot lst idx = None"
  then show ?thesis
    using PStr by (auto simp: py_index_def split: if_splits)
qed simp_all

lemma entry_slot_dropped:
  "entry_slot lst idx = Some None \<Longrightarrow> \<exists>n. value_of (py_len lst) = Some n \<and> \<not> idx < int n"
  by (cases lst) (auto simp: py_index_def split: if_splits option.splits)

lemma entry_slot_some:
  "entry_slot lst idx = Some (Some sl) \<Longrightarrow> \<exists>n. value_of (py_len lst) = Some n \<and> idx < int n"
  by (cases lst) (auto simp: py_index_def split: if_splits option.splits)

lemma store_indexed_step:
  "value_of (store_indexed lst idx k v) = step indexed_res indexed_put lst (idx, k, v)"
proof (cases "entry_slot lst idx")
  case None
  from entry_slot_none_cases[OF None, of k]
  have "value_of (store_indexed lst idx k v) = None"
    by (auto simp: store_indexed_def value_of_then setitem_slot)
  then show ?thesis
    using None by (simp add: step_def indexed_res_def)
next
  case (Some o1)
  show ?thesis
  proof (cases o1)
    case None
    then have "value_of (store_indexed lst idx k v) = Some lst"
      using entry_slot_dropped[of lst idx] Some
      by (auto simp: store_indexed_def value_of_then)
    then show ?thesis
      using Some None by (simp add: step_def indexed_res_def)
  next
    case (Some sl)
    have e: "entry_slot lst idx = Some (Some sl)"
      using \<open>entry_slot lst idx = Some o1\<close> Some by simp
    obtain n where n: "value_of (py_len lst) = Some n" "idx < int n"
      using entry_slot_some[OF e] by blast
    have "value_of (store_indexed lst idx k v)
        = (case slot_of (get_slot lst sl) k of
             None \<Rightarrow> None
           | Some sl2 \<Rightarrow> Some (put_slot lst sl (put_slot (get_slot lst sl) sl2 v)))"
      using n getitem_entry[OF e] setitem_entry[OF e]
      by (auto simp: store_indexed_def value_of_then setitem_slot split: option.splits)
    then show ?thesis
      using e by (simp add: step_def indexed_res_def indexed_put_def split: option.splits)
  qed
qed

lemma indexed_res_valid:
  "indexed_res lst (idx, k, v) = Some (Some (sl, sl2))
     \<Longrightarrow> entry_slot lst idx = Some (Some sl) \<and> slot_of (get_slot lst sl) k = Some sl2"
  by (auto simp: indexed_res_def split: option.splits)

lemma indexed_res_put:
  assumes "valid_slot lst sl"
  shows "indexed_res (put_slot lst sl (put_slot (get_slot lst sl) sl2 v)) w = indexed_res lst w"
proof -
  obtain idx' k' v' where w: "w = (idx', k', v')"
    by (cases w)
  let ?lst' = "put_slot lst sl (put_slot (get_slot lst sl) sl2 v)"
  have e: "entry_slot ?lst' idx' = entry_slot lst idx'"
    by (rule entry_slot_put[OF assms])
  have g: "slot_of (get_slot ?lst' sl') k' = slot_of (get_slot lst sl') k'" for sl'
  proof (cases "sl' = sl")
    case True
    then show ?thesis
      using get_put_slot_same[OF assms] by (simp add: slot_of_put_slot)
  next
    case False
    then show ?thesis
      using get_put_slot_other[of sl sl'] by simp
  qed
  show ?thesis
    unfolding w indexed_res_def using e g by (simp split: option.splits)
qed

lemma lawful_indexed: "lawful indexed_res indexed_put"
  unfolding lawful_def
proof (intro conjI allI impI)
  fix s :: pyval and w l w'
  assume r: "indexed_res s w = Some (Some l)"
  obtain idx k v where w: "w = (idx, k, v)" by (cases w)
  obtain sl sl2 where l: "l = (sl, sl2)" by (cases l)
  have "valid_slot s sl"
    using indexed_res_valid[of s idx k v sl sl2] r w l entry_slot_valid by blast
  then show "indexed_res (indexed_put s l w) w' = indexed_res s w'"
    unfolding w l indexed_put_def by (simp add: indexed_res_put)
next
  fix s :: pyval and w l w'
  assume r: "indexed_res s w = Some (Some l) \<and> indexed_res s w' = Some (Some l)"
  obtain idx k v where w: "w = (idx, k, v)" by (cases w)
  obtain idx' k' v' where w': "w' = (idx', k', v')" by (cases w')
  obtain sl sl2 where l: "l = (sl, sl2)" by (cases l)
  have vs: "valid_slot s sl"
    using indexed_res_valid[of s idx k v sl sl2] r w l entry_slot_valid by blast
  show "indexed_put (indexed_put s l w) l w' = indexed_put s l w'"
    unfolding w w' l indexed_put_def
    by (simp add: get_put_slot_same[OF vs] put_slot_twice)
next
  fix s :: pyval and w l w' l'
  assume r: "indexed_res s w = Some (Some l) \<and> indexed_res s w' = Some (Some l') \<and> l \<noteq> l'"
  obtain idx k v where w: "w = (idx, k, v)" by (cases w)
  obtain idx' k' v' where w': "w' = (idx', k', v')" by (cases w')
  obtain sl sl2 where l: "l = (sl, sl2)" by (cases l)
  obtain sl' sl2' where l': "l' = (sl', sl2')" by (cases l')
  have vs: "valid_slot s sl"
    using indexed_res_valid[of s idx k v sl sl2] r w l entry_slot_valid by blast
  have vs': "valid_slot s sl'"
    using indexed_res_valid[of s idx' k' v' sl' sl2'] r w' l' entry_slot_valid by blast
  show "indexed_put (indexed_put s l w) l' w' = indexed_put (indexed_put s l' w') l w"
  proof (cases "sl = sl'")
    case True
    then have "sl2 \<noteq> sl2'"
      using r l l' by simp
    then show ?thesis
      unfolding w w' l l' indexed_put_def using True
      by (simp add: get_put_slot_same[OF vs] get_put_slot_same[OF vs'] put_slot_twice
          put_slot_swap[of sl2 sl2'])
  next
    case False
    then show ?thesis
      unfolding w w' l l' indexed_put_def
      using get_put_slot_other[of sl sl'] get_put_slot_other[of sl' sl]
      by (simp add: put_slot_swap[of sl sl'])
  qed
qed

lemma personal_step:
  "value_of (py_setitem info k v) = step personal_res personal_put info (k, v)"
  by (simp add: setitem_slot step_def personal_res_def personal_put_def split: option.splits)

lemma lawful_personal: "lawful personal_res personal_put"
  unfolding lawful_def personal_res_def personal_put_def
  by (auto simp: slot_of_put_slot put_slot_twice put_slot_swap)

lemma project_step:
  "value_of (project_write r idx k v) = step project_res project_put r (idx, k, v)"
proof (cases r)
  case (PDict d)
  show ?thesis
  proof (cases "d (KStr ''projects'')")
    case None
    then show ?thesis
      using PDict by (simp add: project_write_def project_res_def step_def)
  next
    case (Some p)
    have "value_of (project_write r idx k v)
        = map_option (\<lambda>p'. PDict (d(KStr ''projects'' \<mapsto> p')))
            (value_of (store_indexed p idx k v))"
      using PDict Some
      by (cases "store_indexed p idx k v") (simp_all add: project_write_def)
    also have "\<dots> = step project_res project_put r (idx, k, v)"
      using PDict Some
      by (auto simp: store_indexed_step step_def project_res_def project_put_def
          split: option.splits)
    finally show ?thesis .
  qed
next
  case (PList xs)
  then show ?thesis
    by (simp add: project_write_def project_res_def step_def)
next
  case (PStr s)
  then show ?thesis
    by (simp add: project_write_def project_res_def step_def)
qed (simp_all add: project_write_def project_res_def step_def)

lemma project_res_some:
  "project_res r w = Some (Some l)
     \<Longrightarrow> \<exists>d p. r = PDict d \<and> d (KStr ''projects'') = Some p \<and> indexed_res p w = Some (Some l)"
  by (cases r) (auto simp: project_res_def split: if_splits option.splits)

lemma project_res_dict:
  "d (KStr ''projects'') = Some p \<Longrightarrow> project_res (PDict d) w = indexed_res p w"
  by (simp add: project_res_def)

lemma project_put_dict:
  "d (KStr ''projects'') = Some p
     \<Longrightarrow> project_put (PDict d) l w = PDict (d(KStr ''projects'' \<mapsto> indexed_put p l w))"
  by (simp add: project_put_def)

lemma lawful_project: "lawful project_res project_put"
  unfolding lawful_def
proof (intro conjI allI impI)
  fix s :: pyval and w l w'
  assume "project_res s w = Some (Some l)"
  then obtain d p where s: "s = PDict d" "d (KStr ''projects'') = Some p"
    and r: "indexed_res p w = Some (Some l)"
    using project_res_some by blast
  show "project_res (project_put s l w) w' = project_res s w'"
    using s r lawful_res[OF lawful_indexed r, of w']
    by (simp add: project_put_dict project_res_def)
next
  fix s :: pyval and w l w'
  assume a: "project_res s w = Some (Some l) \<and> project_res s w' = Some (Some l)"
  then obtain d p where s: "s = PDict d" "d (KStr ''projects'') = Some p"
    and r: "indexed_res p w = Some (Some l)"
    using project_res_some by blast
  have r': "indexed_res p w' = Some (Some l)"
    using a s by (simp add: project_res_dict)
  show "project_put (project_put s l w) l w' = project_put s l w'"
    using s lawful_same[OF lawful_indexed r r']
    by (simp add: project_put_dict)
next
  fix s :: pyval and w l w' l'
  assume a: "project_res s w = Some (Some l) \<and> project_res s w' = Some (Some l') \<and> l \<noteq> l'"
  then obtain d p where s: "s = PDict d" "d (KStr ''projects'') = Some p"
    and r: "indexed_res p w = Some (Some l)"
    using project_res_some by blast
  have r': "indexed_res p w' = Some (Some l')"
    using a s by (simp add: project_res_dict)
  have "l \<noteq> l'"
    using a by simp
  then show "project_put (project_put s l w) l' w' = project_put (project_put s l' w') l w"
    using s lawful_swap[OF lawful_indexed r r']
    by (simp add: project_put_dict)
qed

lemma personal_res_not_dropped: "personal_res info w \<noteq> Some None"
  by (cases w) (simp add: personal_res_def)

lemma personal_value_put:
  "personal_value (Some (personal_put info sl w)) = personal_put info sl w"
  by (simp add: personal_value_def)

lemma ares_some:
  "ares key x a = Some (Some l) \<Longrightarrow>
     (\<exists>k v sl. a = PersonalWrite k v \<and> key = KStr ''personal_information'' \<and> l = Inl sl
         \<and> personal_res (personal_value x) (k, v) = Some (Some sl))
     \<or> (\<exists>idx k v r l2. a = ProjectWrite idx k v \<and> key = KStr ''research_experience''
         \<and> x = Some r \<and> l = Inr l2 \<and> project_res r (idx, k, v) = Some (Some l2))
     \<or> (\<exists>idx k v r l2. a = WorkWrite idx k v \<and> key = KStr ''work_experience''
         \<and> x = Some r \<and> l = Inr l2 \<and> indexed_res r (idx, k, v) = Some (Some l2))"
  by (cases a) (auto split: if_splits option.splits)

lemma ares_put_personal:
  assumes "personal_res (personal_value x) (k, v) = Some (Some sl)"
  shows "ares (KStr ''personal_information'')
           (Some (personal_put (personal_value x) sl (k, v))) a
         = ares (KStr ''personal_information'') x a"
  using lawful_res[OF lawful_personal assms]
  by (cases a) (simp_all add: personal_value_put)

lemma ares_put_project:
  assumes "project_res r (idx, k, v) = Some (Some l2)"
  shows "ares (KStr ''research_experience'') (Some (project_put r l2 (idx, k, v))) a
         = ares (KStr ''research_experience'') (Some r) a"
  using lawful_res[OF lawful_project assms]
  by (cases a) simp_all

lemma ares_put_work:
  assumes "indexed_res r (idx, k, v) = Some (Some l2)"
  shows "ares (KStr ''work_experience'') (Some (indexed_put r l2 (idx, k, v))) a
         = ares (KStr ''work_experience'') (Some r) a"
  using lawful_res[OF lawful_indexed assms]
  by (cases a) simp_all

lemma swap_contra:
  "lawful res put \<Longrightarrow> res s w = Some (Some l) \<Longrightarrow> res s w' = Some (Some l')
     \<Longrightarrow> put (put s l w) l' w' \<noteq> put (put s l' w') l w \<Longrightarrow> l = l'"
  using lawful_swap by metis

lemma lawful_ares: "lawful (ares key) (aput key)"
  unfolding lawful_def
proof (intro conjI allI impI)
  fix s w l w'
  assume "ares key s w = Some (Some l)"
  from ares_some[OF this]
  show "ares key (aput key s l w) w' = ares key s w'"
    by (auto simp: aput_def ares_put_personal ares_put_project ares_put_work)
next
  fix s w l w'
  assume a: "ares key s w = Some (Some l) \<and> ares key s w' = Some (Some l)"
  then have 1: "ares key s w = Some (Some l)" and 2: "ares key s w' = Some (Some l)"
    by simp_all
  from ares_some[OF 1] ares_some[OF 2]
  show "aput key (aput key s l w) l w' = aput key s l w'"
    by (auto simp: aput_def personal_value_put
        lawful_same[OF lawful_personal] lawful_same[OF lawful_project]
        lawful_same[OF lawful_indexed])
next
  fix s w l w' l'
  assume a: "ares key s w = Some (Some l) \<and> ares key s w' = Some (Some l') \<and> l \<noteq> l'"
  then have 1: "ares key s w = Some (Some l)" and 2: "ares key s w' = Some (Some l')"
    and 3: "l \<noteq> l'"
    by simp_all
  from ares_some[OF 1] ares_some[OF 2] 3
  show "aput key (aput key s l w) l' w' = aput key (aput key s l' w') l w"
    by (auto simp: aput_def personal_value_put
        dest: swap_contra[OF lawful_personal] swap_contra[OF lawful_project]
          swap_contra[OF lawful_indexed])
qed

lemma atrans_step:
  "akey a = key \<Longrightarrow> \<not> is_main a \<Longrightarrow> atrans a x = step (ares key) (aput key) x a"
proof (cases a)
  case (PersonalWrite k v)
  assume "akey a = key"
  then show ?thesis
    using PersonalWrite personal_res_not_dropped[of "personal_value x" "(k, v)"]
    by (cases "personal_res (personal_value x) (k, v)")
       (auto simp: step_def aput_def split: option.splits)
next
  case (ProjectWrite idx k v)
  assume "akey a = key"
  then show ?thesis
    using ProjectWrite
    by (auto simp: step_def aput_def split: option.splits)
next
  case (WorkWrite idx k v)
  assume "akey a = key"
  then show ?thesis
    using WorkWrite
    by (auto simp: step_def aput_def split: option.splits)
qed (auto simp: step_def)

lemma ares_other: "akey a \<noteq> key \<Longrightarrow> ares key x a = Some None"
  by (cases a) auto

lemma krun_steps:
  "\<forall>a\<in>set as. akey a = key \<longrightarrow> \<not> is_main a
     \<Longrightarrow> krun key as x = steps (ares key) (aput key) x as"
proof (induction as arbitrary: x)
  case Nil
  show ?case by simp
next
  case (Cons a as)
  show ?case
  proof (cases "akey a = key")
    case True
    then have "atrans a x = step (ares key) (aput key) x a"
      using Cons.prems by (simp add: atrans_step)
    then show ?thesis
      using True Cons by (simp split: option.splits)
  next
    case False
    then show ?thesis
      using Cons by (simp add: step_def ares_other)
  qed
qed

lemma krun_append:
  "krun key (as @ bs) x = (case krun key as x of None \<Rightarrow> None | Some y \<Rightarrow> krun key bs y)"
  by (induction as arbitrary: x) (simp_all split: option.splits)

lemma krun_idem_nested:
  assumes "\<forall>a\<in>set as. akey a = key \<longrightarrow> \<not> is_main a" and "krun key as x = Some y"
  shows "krun key as y = Some y"
  using assms steps_idem[OF lawful_ares, of key x as y] by (simp add: krun_steps)

lemma krun_after_main:
  assumes "krun key (pre @ MainWrite key v # post) x = Some y"
  shows "krun key post (Some v) = Some y"
  using assms by (simp add: krun_append split: option.splits)

lemma krun_idem:
  assumes "krun key as x = Some y" and "krun key as y = Some z"
  shows "z = y"
proof (cases "\<exists>a\<in>set as. akey a = key \<and> is_main a")
  case True
  then obtain pre a post where s: "as = pre @ a # post" "akey a = key \<and> is_main a"
    "\<forall>b\<in>set post. \<not> (akey b = key \<and> is_main b)"
    using split_list_last_prop[of as "\<lambda>a. akey a = key \<and> is_main a"] by blast
  then obtain v where a: "a = MainWrite key v"
    by (cases a) auto
  have "krun key post (Some v) = Some y" "krun key post (Some v) = Some z"
    using assms s(1) a krun_after_main by blast+
  then show ?thesis
    by simp
next
  case False
  then have "krun key as y = Some y"
    using krun_idem_nested[of as key x y] assms(1) by blast
  then show ?thesis
    using assms(2) by simp
qed

lemma run_krun:
  "run as s = Some s' \<Longrightarrow> krun key as (s key) = Some (s' key)"
proof (induction as arbitrary: s)
  case Nil
  then show ?case by simp
next
  case (Cons a as)
  then obtain y where y: "atrans a (s (akey a)) = Some y" "run as (s(akey a := y)) = Some s'"
    by (cases "atrans a (s (akey a))") (simp_all add: fun_upd_def)
  from Cons.IH[OF y(2)] show ?case
    using y(1) by (auto split: option.splits)
qed


lemma run_idem:
  assumes "run as s = Some s'" and "run as s' = Some s''"
  shows "s'' = s'"
proof
  fix key
  show "s'' key = s' key"
    using krun_idem[OF run_krun[OF assms(1), of key] run_krun[OF assms(2), of key]] .
qed

lemma run_append:
  "run (as @ bs) s = (case run as s of None \<Rightarrow> None | Some s' \<Rightarrow> run bs s')"
  by (induction as arbitrary: s) (simp_all split: option.splits)

lemma py_then_assoc: "py_then (py_then m f) g = py_then m (\<lambda>x. py_then (f x) g)"
  by (cases m) simp_all

lemma py_then_if:
  "py_then (if c then m else n) f = (if c then py_then m f else py_then n f)"
  by simp

lemma store_main_action:
  "store_main student document content
     = py_then (main_action document content) (\<lambda>act. perform act student)"
  by (simp add: store_main_def main_action_def py_then_assoc py_then_if cong: if_cong)

lemma store_project_action:
  "store_project student path_parts content_key content
     = (if 3 \<le> length path_parts
        then py_then (py_int (path_parts ! 2)) (\<lambda>idx.
               perform (ProjectWrite idx content_key content) student)
        else Inr student)"
proof -
  have "(case student (KStr ''research_experience'') of
           None \<Rightarrow> Inr student
         | Some research \<Rightarrow>
             py_then (py_str_in ''projects'' research) (\<lambda>has_projects.
               if has_projects then
                 py_then (py_getitem research (PStr ''projects'')) (\<lambda>projects.
                 py_then (store_indexed projects idx content_key content) (\<lambda>projects'.
                 py_then (py_setitem research (PStr ''projects'') projects') (\<lambda>research'.
                   Inr (student(KStr ''research_experience'' \<mapsto> research')))))
               else Inr student))
        = perform (ProjectWrite idx content_key content) student" for idx
  proof (cases "student (KStr ''research_experience'')")
    case None
    then show ?thesis by simp
  next
    case (Some research)
    have "student(KStr ''research_experience'' \<mapsto> research) = student"
      using Some by (rule map_upd_triv)
    then show ?thesis
      using Some
      by (cases "py_str_in ''projects'' research")
         (simp_all add: project_write_def py_then_assoc)
  qed
  then show ?thesis
    by (simp add: store_project_def)
qed

lemma store_work_action:
  "store_work student path_parts content_key content
     = (if 2 \<le> length path_parts
        then py_then (py_int (path_parts ! 1)) (\<lambda>idx.
               perform (WorkWrite idx content_key content) student)
        else Inr student)"
  by (simp add: store_work_def)

lemma store_nested_action:
  "store_nested student document content
     = py_then (nested_action document content) (\<lambda>act. perform act student)"
  unfolding store_nested_def nested_action_def store_project_action store_work_action
  by (simp add: py_then_assoc py_then_if cong: if_cong)

lemma consolidate_result_classify:
  "consolidate_result (student, cnt) w
     = py_then (classify w) (\<lambda>ta.
         py_then (perform (snd ta) student) (\<lambda>student'.
           Inr (student', count_turn (fst ta) cnt)))"
proof -
  obtain a b c where cnt: "cnt = (a, b, c)"
    by (cases cnt)
  show ?thesis
    unfolding cnt consolidate_result_def classify_def wrapper_result_def
      store_main_action store_nested_action
    by (simp add: py_then_assoc py_then_if cong: if_cong)
qed

lemma perform_atrans:
  "value_of (perform a s) = map_option (\<lambda>y. s(akey a := y)) (atrans a (s (akey a)))"
proof (cases a)
  case NoWrite
  then show ?thesis by simp
next
  case (MainWrite k v)
  then show ?thesis by simp
next
  case (PersonalWrite k v)
  have "value_of (perform a s)
      = map_option (\<lambda>i. s(KStr ''personal_information'' \<mapsto> i))
          (value_of (py_setitem (personal_value (s (KStr ''personal_information''))) k v))"
    unfolding PersonalWrite
    by (cases "py_setitem (personal_value (s (KStr ''personal_information''))) k v")
       (simp_all add: store_personal_def personal_value_def)
  then show ?thesis
    using PersonalWrite by (simp add: personal_step option.map_comp comp_def)
next
  case (ProjectWrite idx k v)
  show ?thesis
  proof (cases "s (KStr ''research_experience'')")
    case None
    then have "s(KStr ''research_experience'' := None) = s"
      by auto
    then show ?thesis
      using ProjectWrite None by simp
  next
    case (Some r)
    have "value_of (perform a s)
        = map_option (\<lambda>i. s(KStr ''research_experience'' \<mapsto> i))
            (value_of (project_write r idx k v))"
      unfolding ProjectWrite using Some
      by (cases "project_write r idx k v") simp_all
    then show ?thesis
      using ProjectWrite Some by (simp add: project_step option.map_comp comp_def)
  qed
next
  case (WorkWrite idx k v)
  show ?thesis
  proof (cases "s (KStr ''work_experience'')")
    case None
    then have "s(KStr ''work_experience'' := None) = s"
      by auto
    then show ?thesis
      using WorkWrite None by simp
  next
    case (Some r)
    have "value_of (perform a s)
        = map_option (\<lambda>i. s(KStr ''work_experience'' \<mapsto> i))
            (value_of (store_indexed r idx k v))"
      unfolding WorkWrite using Some
      by (cases "store_indexed r idx k v") simp_all
    then show ?thesis
      using WorkWrite Some by (simp add: store_indexed_step option.map_comp comp_def)
  qed
qed

lemma consolidate_loop_run:
  "value_of (consolidate_loop (student, cnt) ws)
     = (case classify_all ws of
          None \<Rightarrow> None
        | Some tas \<Rightarrow>
            map_option (\<lambda>student'. (student', fold (\<lambda>ta. count_turn (fst ta)) tas cnt))
              (run (map snd tas) student))"
proof (induction ws arbitrary: student cnt)
  case Nil
  show ?case by simp
next
  case (Cons w ws)
  show ?case
  proof (cases "classify w")
    case (Inl e)
    then show ?thesis
      by (simp add: consolidate_result_classify)
  next
    case (Inr ta)
    show ?thesis
    proof (cases "perform (snd ta) student")
      case (Inl e)
      then have "atrans (snd ta) (student (akey (snd ta))) = None"
        using perform_atrans[of "snd ta" student] by simp
      then show ?thesis
        using Inr Inl by (simp add: consolidate_result_classify split: option.splits)
    next
      case (Inr student')
      then obtain y where y: "atrans (snd ta) (student (akey (snd ta))) = Some y"
        "student' = student(akey (snd ta) := y)"
        using perform_atrans[of "snd ta" student]
        by (cases "atrans (snd ta) (student (akey (snd ta)))") simp_all
      have r: "run (snd ta # as) student = run as student'" for as
        unfolding y(2) using y(1) by simp
      have l: "consolidate_loop (student, cnt) (w # ws)
          = consolidate_loop (student', count_turn (fst ta) cnt) ws"
        using \<open>classify w = Inr ta\<close> Inr by (simp add: consolidate_result_classify)
      show ?thesis
        unfolding l Cons.IH[of student' "count_turn (fst ta) cnt"]
        using \<open>classify w = Inr ta\<close>
        by (cases "classify_all ws") (simp_all add: r del: run.simps)
    qed
  qed
qed

lemma value_of_Inr: "value_of m = Some x \<longleftrightarrow> m = Inr x"
  by (cases m) auto

lemma run_final:
  "run as s = Some s'
     \<Longrightarrow> run (as @ [final_write]) s
           = Some (s'(KStr ''application_status'' \<mapsto> PStr ''Evaluation in-progress''))"
  by (simp add: run_append final_write_def)

lemma dynamodb_put_item_Inr:
  "dynamodb_put_item accepts store item table = Inr store'
     \<Longrightarrow> \<exists>k. item (KStr ''application_id'') = Some (PStr k)
           \<and> store' = store(table := (store table)(k \<mapsto> item))"
  by (auto simp: dynamodb_put_item_def split: if_splits option.splits pyval.splits)

lemma dynamodb_get_item_Inr:
  "dynamodb_get_item store v table = Inr found
     \<Longrightarrow> \<exists>app. v = PStr app \<and> found = store table app"
  by (auto simp: dynamodb_get_item_def split: if_splits pyval.splits)

lemma consolidate_store_cases:
  "fst (consolidate_extraction_results_flow accepts store data) = store
   \<or> (\<exists>app student wrappers tas item k.
        dict_get data ''application_id'' PNone = PStr app
        \<and> store ApplicationTable app = Some student
        \<and> py_iter (dict_get data ''extraction_results'' (PList [])) = Inr wrappers
        \<and> classify_all wrappers = Some tas
        \<and> run (map snd tas @ [final_write]) student = Some item
        \<and> item (KStr ''application_id'') = Some (PStr k)
        \<and> fst (consolidate_extraction_results_flow accepts store data)
            = store(ApplicationTable := (store ApplicationTable)(k \<mapsto> item)))"
proof (cases "consolidate_extraction_results_try accepts store data")
  case (Inl e)
  then show ?thesis
    by (simp add: consolidate_extraction_results_flow_def)
next
  case (Inr r)
  define app_id where "app_id = dict_get data ''application_id'' PNone"
  define er where "er = dict_get data ''extraction_results'' (PList [])"
  show ?thesis
  proof (cases "fst r = store")
    case True
    then show ?thesis
      using Inr by (simp add: consolidate_extraction_results_flow_def)
  next
    case False
    have t: "py_truthy app_id"
      using Inr False
      by (auto simp: consolidate_extraction_results_try_def Let_def app_id_def
          split: if_splits)
    then have nn: "\<not> \<not> py_truthy app_id"
      by simp
    have 1: "py_then (dynamodb_get_item store app_id ApplicationTable) (\<lambda>found.
          (case found of
             None \<Rightarrow>
               Inr (store, False, PStr (''Application not found: '' @ py_text app_id))
           | Some student \<Rightarrow>
               if student = Map.empty
               then Inr (store, False,
                         PStr (''Application not found: '' @ py_text app_id))
               else
                 py_then (py_iter er) (\<lambda>wrappers.
                 py_then (consolidate_loop (student, 0, 0, 0) wrappers) (\<lambda>st.
                   (case st of (student', successful, failed, skipped) \<Rightarrow>
                      py_then
                        (dynamodb_put_item accepts store
                           (student'(KStr ''application_status'' \<mapsto> PStr ''Evaluation in-progress''))
                           ApplicationTable) (\<lambda>store'.
                      py_then (py_len er) (\<lambda>total.
                        Inr (store', True,
                             py_dict
                               [(''application_id'', app_id),
                                (''summary'', py_dict
                                   [(''successful'', PNum (real successful)),
                                    (''failed'', PNum (real failed)),
                                    (''skipped'', PNum (real skipped)),
                                    (''total'', PNum (real total))])])))))))) = Inr r"
      using Inr
      unfolding consolidate_extraction_results_try_def Let_def app_id_def[symmetric]
        er_def[symmetric] if_not_P[OF nn] .
    then obtain found where f: "dynamodb_get_item store app_id ApplicationTable = Inr found"
      by (auto simp: py_then_eq_Inr)
    then obtain app where app: "app_id = PStr app" "found = store ApplicationTable app"
      using dynamodb_get_item_Inr by blast
    obtain student where st: "found = Some student" "student \<noteq> Map.empty"
      using 1 f False by (cases found) (auto split: if_splits)
    have 2: "py_then (py_iter er) (\<lambda>wrappers.
                 py_then (consolidate_loop (student, 0, 0, 0) wrappers) (\<lambda>st.
                   (case st of (student', successful, failed, skipped) \<Rightarrow>
                      py_then
                        (dynamodb_put_item accepts store
                           (student'(KStr ''application_status'' \<mapsto> PStr ''Evaluation in-progress''))
                           ApplicationTable) (\<lambda>store'.
                      py_then (py_len er) (\<lambda>total.
                        Inr (store', True,
                             py_dict
                               [(''application_id'', app_id),
                                (''summary'', py_dict
                                   [(''successful'', PNum (real successful)),
                                    (''failed'', PNum (real failed)),
                                    (''skipped'', PNum (real skipped)),
                                    (''total'', PNum (real total))])])))))) = Inr r"
      using 1 f st by simp
    then obtain wrappers where w: "py_iter er = Inr wrappers"
      by (auto simp: py_then_eq_Inr)
    obtain st' where l: "consolidate_loop (student, 0, 0, 0) wrappers = Inr st'"
      using 2 w by (auto simp: py_then_eq_Inr)
    obtain student' cnt where st': "st' = (student', cnt)"
      by (cases st')
    obtain a b c where cnt: "cnt = (a, b, c)"
      by (cases cnt)
    let ?item = "student'(KStr ''application_status'' \<mapsto> PStr ''Evaluation in-progress'')"
    have 3: "py_then (dynamodb_put_item accepts store ?item ApplicationTable) (\<lambda>store'.
                      py_then (py_len er) (\<lambda>total.
                        Inr (store', True,
                             py_dict
                               [(''application_id'', app_id),
                                (''summary'', py_dict
                                   [(''successful'', PNum (real a)),
                                    (''failed'', PNum (real b)),
                                    (''skipped'', PNum (real c)),
                                    (''total'', PNum (real total))])]))) = Inr r"
      using 2 w l st' cnt by simp
    then obtain store' where p: "dynamodb_put_item accepts store ?item ApplicationTable = Inr store'"
      by (auto simp: py_then_eq_Inr)
    then obtain k where k: "?item (KStr ''application_id'') = Some (PStr k)"
      "store' = store(ApplicationTable := (store ApplicationTable)(k \<mapsto> ?item))"
      using dynamodb_put_item_Inr by blast
    have r: "fst r = store'"
      using 3 p by (auto simp: py_then_eq_Inr)
    have "value_of (consolidate_loop (student, 0, 0, 0) wrappers) = Some (student', cnt)"
      using l st' by simp
    then obtain tas where tas: "classify_all wrappers = Some tas"
      "run (map snd tas) student = Some student'"
      unfolding consolidate_loop_run by (auto split: option.splits)
    have "run (map snd tas @ [final_write]) student = Some ?item"
      using tas(2) by (rule run_final)
    moreover have "fst (consolidate_extraction_results_flow accepts store data)
        = store(ApplicationTable := (store ApplicationTable)(k \<mapsto> ?item))"
      using Inr r k(2) by (simp add: consolidate_extraction_results_flow_def)
    ultimately show ?thesis
      using app st w tas(1) k(1) unfolding app_id_def er_def by blast
  qed
qed

text \<open>
  Claim C2. Consolidation run a second time with the same request, on the store that the
  first run left, leaves that store as it is: the stored record after two runs is the
  stored record after one. This holds for every store, every request and every list of
  results, whether the first run succeeded or not (a run that fails writes nothing).
\<close>

theorem consolidate_idempotent:
  assumes "consolidate_extraction_results_flow accepts store data = (store1, r)"
  shows "fst (consolidate_extraction_results_flow accepts store1 data) = store1"
proof -
  have s1: "fst (consolidate_extraction_results_flow accepts store data) = store1"
    using assms by simp
  show ?thesis
  proof (cases "store1 = store")
    case True
    then show ?thesis using s1 by simp
  next
    case False
    then obtain app student wrappers tas item k where
      a: "dict_get data ''application_id'' PNone = PStr app"
      "store ApplicationTable app = Some student"
      "py_iter (dict_get data ''extraction_results'' (PList [])) = Inr wrappers"
      "classify_all wrappers = Some tas"
      "run (map snd tas @ [final_write]) student = Some item"
      "item (KStr ''application_id'') = Some (PStr k)"
      "store1 = store(ApplicationTable := (store ApplicationTable)(k \<mapsto> item))"
      using consolidate_store_cases[of accepts store data] s1 by auto
    show ?thesis
    proof (rule ccontr)
      assume n: "fst (consolidate_extraction_results_flow accepts store1 data) \<noteq> store1"
      then obtain app2 student2 wrappers2 tas2 item2 k2 where
        b: "dict_get data ''application_id'' PNone = PStr app2"
        "store1 ApplicationTable app2 = Some student2"
        "py_iter (dict_get data ''extraction_results'' (PList [])) = Inr wrappers2"
        "classify_all wrappers2 = Some tas2"
        "run (map snd tas2 @ [final_write]) student2 = Some item2"
        "item2 (KStr ''application_id'') = Some (PStr k2)"
        "fst (consolidate_extraction_results_flow accepts store1 data)
           = store1(ApplicationTable := (store1 ApplicationTable)(k2 \<mapsto> item2))"
        using consolidate_store_cases[of accepts store1 data] by auto
      have e: "app2 = app" "tas2 = tas"
        using a b by simp_all
      have "item2 = item"
      proof (cases "k = app")
        case True
        then have "student2 = item"
          using a(7) b(2) e by simp
        then show ?thesis
          using run_idem[OF a(5), of item2] b(5) e by simp
      next
        case False
        then have "student2 = student"
          using a(2,7) b(2) e by simp
        then show ?thesis
          using a(5) b(5) e by simp
      qed
      then have "k2 = k"
        using a(6) b(6) by simp
      have "store1(ApplicationTable := (store1 ApplicationTable)(k2 \<mapsto> item2)) = store1"
        unfolding \<open>k2 = k\<close> \<open>item2 = item\<close> a(7) by simp
      then show False
        using n b(7) by simp
    qed
  qed
qed








lemma consolidate_flow_unfold:
  assumes "dict_get data ''application_id'' PNone = PStr app" and "app \<noteq> []"
    and "store ApplicationTable app = Some student" and "student \<noteq> Map.empty"
  shows "consolidate_extraction_results_flow accepts store
           (data(KStr ''extraction_results'' \<mapsto> PList ws))
       = (case consolidate_loop (student, 0, 0, 0) ws of
            Inl e \<Rightarrow> (store, False, PStr (''Failed to consolidate results: '' @ exn_str e))
          | Inr st \<Rightarrow>
              (case dynamodb_put_item accepts store
                      ((fst st)(KStr ''application_status'' \<mapsto> PStr ''Evaluation in-progress''))
                      ApplicationTable of
                 Inl e \<Rightarrow> (store, False, PStr (''Failed to consolidate results: '' @ exn_str e))
               | Inr store' \<Rightarrow>
                   (store', True,
                    py_dict
                      [(''application_id'', PStr app),
                       (''summary'', py_dict
                          [(''successful'', PNum (real (fst (snd st)))),
                           (''failed'', PNum (real (fst (snd (snd st))))),
                           (''skipped'', PNum (real (snd (snd (snd st))))),
                           (''total'', PNum (real (length ws)))])])))"
proof -
  let ?data = "data(KStr ''extraction_results'' \<mapsto> PList ws)"
  have a: "dict_get ?data ''application_id'' PNone = PStr app"
    using assms(1) by (simp add: dict_get_def)
  have e: "dict_get ?data ''extraction_results'' (PList []) = PList ws"
    by (simp add: dict_get_def)
  have g: "dynamodb_get_item store (PStr app) ApplicationTable = Inr (Some student)"
    using assms(2,3) by (simp add: dynamodb_get_item_def)
  have t: "consolidate_extraction_results_try accepts store ?data
      = py_then (consolidate_loop (student, 0, 0, 0) ws) (\<lambda>st.
          (case st of (student', successful, failed, skipped) \<Rightarrow>
             py_then
               (dynamodb_put_item accepts store
                  (student'(KStr ''application_status'' \<mapsto> PStr ''Evaluation in-progress''))
                  ApplicationTable) (\<lambda>store'.
             py_then (py_len (PList ws)) (\<lambda>total.
               Inr (store', True,
                    py_dict
                      [(''application_id'', PStr app),
                       (''summary'', py_dict
                          [(''successful'', PNum (real successful)),
                           (''failed'', PNum (real failed)),
                           (''skipped'', PNum (real skipped)),
                           (''total'', PNum (real total))])])))))"
    unfolding consolidate_extraction_results_try_def Let_def a e
    using assms(2,4) g by simp
  show ?thesis
  proof (cases "consolidate_loop (student, 0, 0, 0) ws")
    case (Inl e)
    then show ?thesis
      unfolding consolidate_extraction_results_flow_def t by simp
  next
    case (Inr st)
    obtain s1 a b c where st: "st = (s1, a, b, c)"
      by (cases st) auto
    show ?thesis
      unfolding consolidate_extraction_results_flow_def t Inr st
      by (cases "dynamodb_put_item accepts store
                   (s1(KStr ''application_status'' \<mapsto> PStr ''Evaluation in-progress''))
                   ApplicationTable") simp_all
  qed
qed



subsection \<open>Concrete runs\<close>

lemma consolidate_request_results:
  "consolidate_request ws
     = [KStr ''application_id'' \<mapsto> PStr ''A1''](KStr ''extraction_results'' \<mapsto> PList ws)"
  by (simp add: consolidate_request_def)

lemma flow_store_1:
  assumes "consolidate_loop (student_1, 0, 0, 0) ws = Inr (student', a, b, c)"
    and "student' (KStr ''application_id'') = Some (PStr ''A1'')"
  shows "consolidate_extraction_results_flow (\<lambda>item. True) store_1 (consolidate_request ws)
       = (store_1(ApplicationTable := (store_1 ApplicationTable)(''A1'' \<mapsto>
            student'(KStr ''application_status'' \<mapsto> PStr ''Evaluation in-progress''))),
          True,
          py_dict
            [(''application_id'', PStr ''A1''),
             (''summary'', py_dict
                [(''successful'', PNum (real a)),
                 (''failed'', PNum (real b)),
                 (''skipped'', PNum (real c)),
                 (''total'', PNum (real (length ws)))])])"
proof -
  have p: "dynamodb_put_item (\<lambda>item. True) store_1
        (student'(KStr ''application_status'' \<mapsto> PStr ''Evaluation in-progress''))
        ApplicationTable
      = Inr (store_1(ApplicationTable := (store_1 ApplicationTable)(''A1'' \<mapsto>
            student'(KStr ''application_status'' \<mapsto> PStr ''Evaluation in-progress''))))"
    by (rule dynamodb_put_item_ok) (simp_all add: assms(2))
  have "dict_get [KStr ''application_id'' \<mapsto> PStr ''A1''] ''application_id'' PNone = PStr ''A1''"
    by (simp add: dict_get_def)
  moreover have "''A1'' \<noteq> []"
    by simp
  moreover have "store_1 ApplicationTable ''A1'' = Some student_1"
    by (simp add: store_1_def)
  ultimately show ?thesis
    unfolding consolidate_request_results
    using consolidate_flow_unfold[of "[KStr ''application_id'' \<mapsto> PStr ''A1'']" "''A1''"
        store_1 student_1 "\<lambda>item. True" ws] student_1_nonempty assms(1) p
    by simp
qed

lemma classify_main_success:
  "k \<noteq> [] \<Longrightarrow> classify (main_success k content)
     = Inr (Successful, MainWrite (KStr k) (PStr content))"
  by (simp add: classify_def wrapper_result_def main_success_def wrap_def py_dict_def
      dict_get_def main_action_def)

lemma classify_work_0:
  "classify (nested_success ''work_experience.0'' k content)
     = Inr (Successful, WorkWrite 0 (PStr k) (PStr content))"
  by (simp add: classify_def wrapper_result_def nested_success_def wrap_def py_dict_def
      dict_get_def nested_action_def py_int_digit)

lemma perform_work_0:
  assumes "student (KStr ''work_experience'') = Some (PList (PDict e # es))"
  shows "perform (WorkWrite 0 (PStr k) v) student
     = Inr (student(KStr ''work_experience'' \<mapsto> PList (PDict (e(KStr k \<mapsto> v)) # es)))"
  using assms by (simp add: store_indexed_def py_index_def)

lemma loop_sop_certificate:
  "consolidate_loop (student_1, 0, 0, 0) [sop_result, certificate_result]
   = Inr (student_1
        (KStr ''sop_content'' \<mapsto> PStr ''sop text'',
         KStr ''work_experience'' \<mapsto>
           PList [py_dict [(''certificate_document'', PStr ''s3://b/c0.pdf''),
                           (''certificate_content'', PStr ''cert text'')],
                  py_dict [(''employer'', PStr ''ACME'')]]), 2, 0, 0)"
proof -
  have w: "(student_1(KStr ''sop_content'' \<mapsto> PStr ''sop text'')) (KStr ''work_experience'')
      = Some (PList [PDict [KStr ''certificate_document'' \<mapsto> PStr ''s3://b/c0.pdf''],
               py_dict [(''employer'', PStr ''ACME'')]])"
    by (simp add: student_1_def py_dict_def)
  have e: "py_dict [(''certificate_document'', PStr ''s3://b/c0.pdf''),
                    (''certificate_content'', PStr ''cert text'')]
      = PDict ([KStr ''certificate_document'' \<mapsto> PStr ''s3://b/c0.pdf'']
                (KStr ''certificate_content'' \<mapsto> PStr ''cert text''))"
    by (auto simp: py_dict_def fun_eq_iff)
  have p: "perform (WorkWrite 0 (PStr ''certificate_content'') (PStr ''cert text''))
             (student_1(KStr ''sop_content'' \<mapsto> PStr ''sop text''))
      = Inr (student_1
        (KStr ''sop_content'' \<mapsto> PStr ''sop text'',
         KStr ''work_experience'' \<mapsto>
           PList [PDict ([KStr ''certificate_document'' \<mapsto> PStr ''s3://b/c0.pdf'']
                    (KStr ''certificate_content'' \<mapsto> PStr ''cert text'')),
                  py_dict [(''employer'', PStr ''ACME'')]]))"
    using w
    by (rule perform_work_0[of "student_1(KStr ''sop_content'' \<mapsto> PStr ''sop text'')"
          "[KStr ''certificate_document'' \<mapsto> PStr ''s3://b/c0.pdf'']"
          "[py_dict [(''employer'', PStr ''ACME'')]]" "''certificate_content''"
          "PStr ''cert text''"])
  show ?thesis
    unfolding e sop_result_def certificate_result_def
    by (simp add: consolidate_result_classify classify_main_success classify_work_0 p
        eval_nat_numeral del: perform.simps(5))
qed

lemma flow_sop_certificate:
  "consolidate_extraction_results_flow (\<lambda>item. True) store_1
     (consolidate_request [sop_result, certificate_result])
   = (store_consolidated, True, summary_2)"
proof -
  have "store_1(ApplicationTable := (store_1 ApplicationTable)(''A1'' \<mapsto> student_consolidated))
      = store_consolidated"
    by (simp add: store_1_def store_consolidated_def)
  then show ?thesis
    using flow_store_1[OF loop_sop_certificate]
    by (simp add: student_1_id student_consolidated_def summary_2_def)
qed

theorem consolidate_idempotent_witness:
  "consolidate_extraction_results_flow (\<lambda>item. True) store_1
     (consolidate_request [sop_result, certificate_result])
     = (store_consolidated, True, summary_2)
   \<and> fst (consolidate_extraction_results_flow (\<lambda>item. True) store_consolidated
            (consolidate_request [sop_result, certificate_result]))
     = store_consolidated"
  using consolidate_idempotent[OF flow_sop_certificate] flow_sop_certificate by simp




section \<open>Text to integer, and two runs outside the expected input\<close>

lemma py_int_refused:
  "py_int [char_of (28 :: nat), CHR ''2''] = Inl ValueError"
  "py_int ''+ 1'' = Inl ValueError"
  "py_int ''1__0'' = Inl ValueError"
  "py_int '' 1_0'' = Inr 10"
  "py_int ''-1'' = Inr (- 1)"
  by code_simp+

lemma py_int_long:
  assumes "4300 < n"
  shows "py_int (replicate n CHR ''0'') = Inl ValueError"
proof -
  have z: "digit_val CHR ''0'' \<noteq> None" "\<not> py_space CHR ''0''"
    by (simp_all add: digit_val_def py_space_def)
  obtain k where n: "n = Suc k"
    using assms by (cases n) simp_all
  have s: "py_strip (replicate n CHR ''0'') = replicate n CHR ''0''"
    unfolding n py_strip_def using z(2) by (simp add: replicate_append_same)
  have "filter (\<lambda>c. digit_val c \<noteq> None) (replicate n CHR ''0'') = replicate n CHR ''0''"
    using z(1) by simp
  then have "py_unsigned (replicate n CHR ''0'') = None"
    using assms by (simp add: py_unsigned_def max_str_digits_def)
  then show ?thesis
    unfolding py_int_def s by (simp add: n)
qed

lemma classify_work_2:
  "classify (nested_success ''work_experience.2'' k content)
     = Inr (Successful, WorkWrite 2 (PStr k) (PStr content))"
  by (simp add: classify_def wrapper_result_def nested_success_def wrap_def py_dict_def
      dict_get_def nested_action_def py_int_digit)

lemma perform_work_out_of_range:
  assumes "student (KStr ''work_experience'') = Some (PList xs)" and "int (length xs) \<le> idx"
  shows "perform (WorkWrite idx k v) student = Inr student"
proof -
  have "student(KStr ''work_experience'' \<mapsto> PList xs) = student"
    using assms(1) by (rule map_upd_triv)
  then show ?thesis
    using assms by (simp add: store_indexed_out_of_range)
qed

lemma loop_late_certificate:
  "consolidate_loop (student_1, 0, 0, 0) [late_certificate_result] = Inr (student_1, 1, 0, 0)"
proof -
  have w: "student_1 (KStr ''work_experience'')
      = Some (PList [py_dict [(''certificate_document'', PStr ''s3://b/c0.pdf'')],
               py_dict [(''employer'', PStr ''ACME'')]])"
    by (simp add: student_1_def)
  have p: "perform (WorkWrite 2 (PStr ''certificate_content'') (PStr ''cert text'')) student_1
      = Inr student_1"
    using w by (rule perform_work_out_of_range) simp
  show ?thesis
    unfolding late_certificate_result_def
    by (simp add: consolidate_result_classify classify_work_2 p del: perform.simps(5))
qed

text \<open>
  Claim C3 as stated fails in its last part: the dropped write is not counted as an
  inconsistency. The run over a single result for the third entry of a work history of
  two entries succeeds, stores the record with nothing but the new status, and reports
  the result among the successful ones; the summary has no other counter than
  successful, failed, skipped and total.
\<close>

theorem consolidate_dropped_write_counted_successful:
  "consolidate_extraction_results_flow (\<lambda>item. True) store_1
     (consolidate_request [late_certificate_result])
   = (store_waiting, True, summary_1)
   \<and> summary_of summary_1 = Some (PNum 1, PNum 0, PNum 0, PNum 1)"
proof -
  have "store_1(ApplicationTable := (store_1 ApplicationTable)(''A1'' \<mapsto> student_waiting))
      = store_waiting"
    by (simp add: store_1_def store_waiting_def)
  then have "consolidate_extraction_results_flow (\<lambda>item. True) store_1
     (consolidate_request [late_certificate_result])
   = (store_waiting, True, summary_1)"
    using flow_store_1[OF loop_late_certificate]
    by (simp add: student_1_id student_waiting_def summary_1_def)
  moreover have "summary_of summary_1 = Some (PNum 1, PNum 0, PNum 0, PNum 1)"
    by (simp add: summary_of_def summary_1_def py_dict_def)
  ultimately show ?thesis
    by simp
qed

text \<open>
  Claim C6 as stated fails for a stored record outside the data model's shape: with a
  work experience that is \<^verbatim>\<open>null\<close> the loop over the work entries raises, and the
  resolver returns a failure although the record holds a transcript locator.
\<close>

theorem prepare_document_list_null_section:
  "has_document student_null_work (MainDoc ''transcript'')
   \<and> \<not> record_shape student_null_work
   \<and> prepare_document_list_flow store_null_work [KStr ''application_id'' \<mapsto> PStr ''A4'']
       = (False, PStr ''Failed to prepare document list: TypeError'')"
proof -
  have h: "has_document student_null_work (MainDoc ''transcript'')"
    by (simp add: has_document_def student_null_work_def field_def py_dict_def)
  have r: "\<not> record_shape student_null_work"
    by (simp add: record_shape_def student_null_work_def)
  have g: "dynamodb_get_item store_null_work (PStr ''A4'') ApplicationTable
      = Inr (Some student_null_work)"
    by (simp add: dynamodb_get_item_def store_null_work_def)
  have ne: "student_null_work \<noteq> Map.empty"
    using dict_nonempty[of student_null_work "KStr ''application_id''"]
    by (simp add: student_null_work_def)
  have d: "student_null_work (KStr ''documents'')
      = Some (PDict [KStr ''transcript'' \<mapsto> PStr ''s3://b/t.pdf''])"
    by (simp add: student_null_work_def py_dict_def)
  obtain tasks where m: "main_documents (PStr ''A4'')
      (PDict [KStr ''transcript'' \<mapsto> PStr ''s3://b/t.pdf'']) document_mapping = Inr tasks"
    using main_documents_dict[where student = student_null_work
        and d = "[KStr ''transcript'' \<mapsto> PStr ''s3://b/t.pdf'']"
        and m = document_mapping and application_id = "PStr ''A4''"] d by simp
  have p: "personal_documents (PStr ''A4'') student_null_work = Inr []"
    by (simp add: personal_documents_def student_null_work_def)
  have q: "research_documents (PStr ''A4'') student_null_work = Inr []"
    by (simp add: research_documents_def student_null_work_def)
  have w: "work_experience_documents (PStr ''A4'') student_null_work = Inl TypeError"
    by (simp add: work_experience_documents_def student_null_work_def)
  have "prepare_document_list_try store_null_work [KStr ''application_id'' \<mapsto> PStr ''A4'']
      = Inl TypeError"
    by (simp add: prepare_document_list_try_def dict_get_def g ne d m p q w)
  then have "prepare_document_list_flow store_null_work [KStr ''application_id'' \<mapsto> PStr ''A4'']
       = (False, PStr ''Failed to prepare document list: TypeError'')"
    by (simp add: prepare_document_list_flow_def)
  then show ?thesis
    using h r by simp
qed

end
